(* ===== verification/Moa_Prelude.thy ===== *)
theory Moa_Prelude
  imports Main "HOL-Library.Word" "HOL-Library.Char_ord" "HOL-Library.List_Lexorder"
begin

text \<open>
  Shared vocabulary of the development: the machine integers of the Rust sources with their
  checked and saturating operations, the result type with its sequencing combinators, strings as
  lists of UTF-8 bytes with the string functions the sources call, and the ordered finite maps
  (\<open>BTreeMap\<close>, \<open>BTreeSet\<close>).
\<close>

named_theorems res_simps \<open>inversion rules for results, checked arithmetic and early returns\<close>
named_theorems word_arith \<open>word comparisons and operations read as natural numbers\<close>

section \<open>Machine integers\<close>

type_synonym u64 = "64 word"
type_synonym u32 = "32 word"
type_synonym u8 = "8 word"

definition checked_add :: "'a::len word \<Rightarrow> 'a word \<Rightarrow> 'a word option" where
  "checked_add a b = (if unat a + unat b < 2 ^ LENGTH('a) then Some (a + b) else None)"

definition checked_sub :: "'a::len word \<Rightarrow> 'a word \<Rightarrow> 'a word option" where
  "checked_sub a b = (if b \<le> a then Some (a - b) else None)"

definition checked_mul :: "'a::len word \<Rightarrow> 'a word \<Rightarrow> 'a word option" where
  "checked_mul a b = (if unat a * unat b < 2 ^ LENGTH('a) then Some (a * b) else None)"

definition saturating_add :: "'a::len word \<Rightarrow> 'a word \<Rightarrow> 'a word" where
  "saturating_add a b = (if unat a + unat b < 2 ^ LENGTH('a) then a + b else - 1)"

definition saturating_sub :: "'a::len word \<Rightarrow> 'a word \<Rightarrow> 'a word" where
  "saturating_sub a b = (if b \<le> a then a - b else 0)"

definition saturating_mul :: "'a::len word \<Rightarrow> 'a word \<Rightarrow> 'a word" where
  "saturating_mul a b = (if unat a * unat b < 2 ^ LENGTH('a) then a * b else - 1)"

text \<open>\<open>u64::try_from(usize)\<close>, with the host's \<open>usize\<close> as an unbounded natural number.\<close>

definition try_from_nat :: "nat \<Rightarrow> 'a::len word option" where
  "try_from_nat n = (if n < 2 ^ LENGTH('a) then Some (of_nat n) else None)"

lemma unat_bound: "unat w < 2 ^ LENGTH('a)" for w :: "'a::len word"
  by (rule unsigned_less)

lemma unat_eqD: "unat a = unat b \<Longrightarrow> a = b"
  by (simp add: word_unat_eq_iff)

lemma checked_add_eq_Some [res_simps]:
  "checked_add a b = Some c \<longleftrightarrow> unat c = unat a + unat b"
  for a b c :: "'a::len word"
proof -
  have "unat c = unat a + unat b \<Longrightarrow> unat a + unat b < 2 ^ LENGTH('a)"
    using unat_bound [of c] by simp
  then show ?thesis
    by (auto simp: checked_add_def unat_word_ariths word_unat_eq_iff)
qed

lemma checked_add_eq_None [res_simps]:
  "checked_add a b = None \<longleftrightarrow> 2 ^ LENGTH('a) \<le> unat a + unat b"
  for a b :: "'a::len word"
  by (auto simp: checked_add_def)

lemma checked_sub_eq_Some [res_simps]:
  "checked_sub a b = Some c \<longleftrightarrow> unat a = unat b + unat c"
  for a b c :: "'a::len word"
proof -
  have "a = b + c" if "unat a = unat b + unat c"
    using arg_cong [OF that, of "of_nat :: nat \<Rightarrow> 'a word"] by simp
  then show ?thesis
    by (auto simp: checked_sub_def word_le_nat_alt unat_sub)
qed

lemma checked_sub_eq_None [res_simps]:
  "checked_sub a b = None \<longleftrightarrow> unat a < unat b"
  for a b :: "'a::len word"
  by (auto simp: checked_sub_def word_le_nat_alt)

lemma checked_mul_eq_Some [res_simps]:
  "checked_mul a b = Some c \<longleftrightarrow> unat c = unat a * unat b"
  for a b c :: "'a::len word"
proof -
  have "unat c = unat a * unat b \<Longrightarrow> unat a * unat b < 2 ^ LENGTH('a)"
    using unat_bound [of c] by simp
  then show ?thesis
    by (auto simp: checked_mul_def unat_word_ariths word_unat_eq_iff)
qed

lemma checked_mul_eq_None [res_simps]:
  "checked_mul a b = None \<longleftrightarrow> 2 ^ LENGTH('a) \<le> unat a * unat b"
  for a b :: "'a::len word"
  by (auto simp: checked_mul_def)

lemma unat_saturating_add [word_arith]:
  "unat (saturating_add a b) = min (unat a + unat b) (2 ^ LENGTH('a) - 1)"
  for a b :: "'a::len word"
  by (auto simp: saturating_add_def unat_word_ariths unsigned_minus_1_eq_mask mask_eq_exp_minus_1)

lemma unat_saturating_sub [word_arith]:
  "unat (saturating_sub a b) = unat a - unat b"
  by (auto simp: saturating_sub_def word_le_nat_alt unat_sub)

lemma unat_saturating_mul [word_arith]:
  "unat (saturating_mul a b) = min (unat a * unat b) (2 ^ LENGTH('a) - 1)"
  for a b :: "'a::len word"
  by (auto simp: saturating_mul_def unat_word_ariths unsigned_minus_1_eq_mask mask_eq_exp_minus_1)

lemma try_from_nat_eq_Some [res_simps]:
  "try_from_nat n = Some c \<longleftrightarrow> unat c = n"
  for c :: "'a::len word"
  using unat_bound [of c] by (auto simp: try_from_nat_def unat_of_nat)

lemma try_from_nat_eq_None [res_simps]:
  "(try_from_nat n :: 'a::len word option) = None \<longleftrightarrow> 2 ^ LENGTH('a) \<le> n"
  by (auto simp: try_from_nat_def)

lemma unat_min [word_arith]: "unat (min x y) = min (unat x) (unat y)" for x y :: "'a::len word"
  by (simp add: min_def word_le_nat_alt)

lemmas word_nat_order [word_arith] = word_le_nat_alt word_less_nat_alt

text \<open>Code equations over \<open>int\<close>, whose numerals are binary.\<close>

lemma add_fits_uint:
  "unat a + unat b < 2 ^ LENGTH('a) \<longleftrightarrow> uint a + uint b < 2 ^ LENGTH('a)"
  for a b :: "'a::len word"
proof -
  have "int (unat a + unat b) < 2 ^ LENGTH('a) \<longleftrightarrow> unat a + unat b < 2 ^ LENGTH('a)"
    by (rule of_nat_less_numeral_power_cancel_iff)
  then show ?thesis by (simp only: uint_nat of_nat_add)
qed

lemma mul_fits_uint:
  "unat a * unat b < 2 ^ LENGTH('a) \<longleftrightarrow> uint a * uint b < 2 ^ LENGTH('a)"
  for a b :: "'a::len word"
proof -
  have "int (unat a * unat b) < 2 ^ LENGTH('a) \<longleftrightarrow> unat a * unat b < 2 ^ LENGTH('a)"
    by (rule of_nat_less_numeral_power_cancel_iff)
  then show ?thesis by (simp only: uint_nat of_nat_mult)
qed

lemmas checked_add_code [code] = checked_add_def [unfolded add_fits_uint]
lemmas checked_mul_code [code] = checked_mul_def [unfolded mul_fits_uint]
lemmas saturating_add_code [code] = saturating_add_def [unfolded add_fits_uint]
lemmas saturating_mul_code [code] = saturating_mul_def [unfolded mul_fits_uint]

lemma try_from_nat_code [code]:
  "(try_from_nat n :: 'a::len word option) = (if int n < 2 ^ LENGTH('a) then Some (of_nat n) else None)"
  by (simp add: try_from_nat_def)

section \<open>Results\<close>

text \<open>\<open>Inl\<close> is \<open>Err\<close> and \<open>Inr\<close> is \<open>Ok\<close>; \<open>bind_res\<close> is the \<open>?\<close> operator.\<close>

type_synonym ('t, 'err) rust_result = "'err + 't"

fun bind_res :: "('t, 'err) rust_result \<Rightarrow> ('t \<Rightarrow> ('u, 'err) rust_result) \<Rightarrow> ('u, 'err) rust_result" where
  "bind_res (Inl e) f = Inl e"
| "bind_res (Inr x) f = f x"

definition ok_or :: "'e \<Rightarrow> 'a option \<Rightarrow> 'e + 'a" where
  "ok_or e r = (case r of None \<Rightarrow> Inl e | Some x \<Rightarrow> Inr x)"

definition ensure :: "bool \<Rightarrow> 'e \<Rightarrow> 'e + unit" where
  "ensure b e = (if b then Inr () else Inl e)"

fun is_ok :: "'e + 'a \<Rightarrow> bool" where
  "is_ok (Inl e) = False"
| "is_ok (Inr x) = True"

text \<open>A \<open>for\<close> loop whose body may return early, and \<open>collect::<Result<Vec<_>>>()\<close>.\<close>

primrec fold_res :: "('a \<Rightarrow> 's \<Rightarrow> 'e + 's) \<Rightarrow> 'a list \<Rightarrow> 's \<Rightarrow> 'e + 's" where
  "fold_res f [] s = Inr s"
| "fold_res f (x # xs) s = bind_res (f x s) (fold_res f xs)"

primrec map_res :: "('t \<Rightarrow> ('u, 'err) rust_result) \<Rightarrow> 't list \<Rightarrow> ('u list, 'err) rust_result" where
  "map_res f [] = Inr []"
| "map_res f (x # xs) = bind_res (f x) (\<lambda>y. bind_res (map_res f xs) (\<lambda>ys. Inr (y # ys)))"

lemma bind_res_eq_Inr [res_simps]:
  "bind_res m f = Inr y \<longleftrightarrow> (\<exists>x. m = Inr x \<and> f x = Inr y)"
  by (cases m) auto

lemma bind_res_eq_Inl [res_simps]:
  "bind_res m f = Inl e \<longleftrightarrow> m = Inl e \<or> (\<exists>x. m = Inr x \<and> f x = Inl e)"
  by (cases m) auto

lemma bind_res_cong [fundef_cong]:
  "m = m' \<Longrightarrow> (\<And>x. m' = Inr x \<Longrightarrow> f x = g x) \<Longrightarrow> bind_res m f = bind_res m' g"
  by (cases m') auto

lemma bind_res_assoc:
  "bind_res (bind_res m f) g = bind_res m (\<lambda>x. bind_res (f x) g)"
  by (cases m) auto

lemma ok_or_eq_Inr [res_simps]: "ok_or e r = Inr x \<longleftrightarrow> r = Some x"
  by (auto simp: ok_or_def split: option.splits)

lemma ok_or_eq_Inl [res_simps]: "ok_or e r = Inl e' \<longleftrightarrow> r = None \<and> e' = e"
  by (auto simp: ok_or_def split: option.splits)

lemma ok_or_simps [simp]: "ok_or e None = Inl e" "ok_or e (Some x) = Inr x"
  by (simp_all add: ok_or_def)

lemma ensure_eq_Inr [res_simps]: "ensure b e = Inr u \<longleftrightarrow> b"
  by (simp add: ensure_def)

lemma ensure_eq_Inl [res_simps]: "ensure b e = Inl e' \<longleftrightarrow> \<not> b \<and> e' = e"
  by (auto simp: ensure_def)

lemma ensure_simps [simp]: "ensure True e = Inr ()" "ensure False e = Inl e"
  by (simp_all add: ensure_def)

lemma is_ok_iff: "is_ok r \<longleftrightarrow> (\<exists>x. r = Inr x)"
  by (cases r) auto

lemma fold_res_append:
  "fold_res f (xs @ ys) s = bind_res (fold_res f xs s) (fold_res f ys)"
  by (induction xs arbitrary: s) (auto simp: bind_res_assoc intro: bind_res_cong)

text \<open>An invariant of every iteration is an invariant of the loop.\<close>

lemma fold_res_invariant:
  assumes "fold_res f xs s = Inr s'" and "P s"
    and "\<And>x a b. x \<in> set xs \<Longrightarrow> P a \<Longrightarrow> f x a = Inr b \<Longrightarrow> P b"
  shows "P s'"
  using assms
proof (induction xs arbitrary: s)
  case (Cons x xs)
  then obtain b where "f x s = Inr b" "fold_res f xs b = Inr s'"
    by (auto simp: res_simps)
  with Cons show ?case by (meson list.set_intros)
qed simp

lemma map_res_eq_Inr:
  "map_res f xs = Inr ys \<longleftrightarrow> list_all2 (\<lambda>x y. f x = Inr y) xs ys"
  by (induction xs arbitrary: ys) (auto simp: res_simps list_all2_Cons1)

lemma map_res_length: "map_res f xs = Inr ys \<Longrightarrow> length ys = length xs"
  by (auto simp: map_res_eq_Inr dest: list_all2_lengthD)

section \<open>Strings\<close>

text \<open>
  A Rust string is its list of UTF-8 bytes, a \<open>char\<close> being one byte; \<open>len()\<close> is the length of
  the list and the order of strings is the lexicographic order of bytes.
\<close>

definition strip_prefix :: "string \<Rightarrow> string \<Rightarrow> string option" where
  "strip_prefix p s = (if take (length p) s = p then Some (drop (length p) s) else None)"

definition starts_with :: "string \<Rightarrow> string \<Rightarrow> bool" where
  "starts_with p s = (take (length p) s = p)"

primrec split_char :: "char \<Rightarrow> string \<Rightarrow> string list" where
  "split_char c [] = [[]]"
| "split_char c (x # xs) =
     (if x = c then [] # split_char c xs
      else case split_char c xs of [] \<Rightarrow> [[x]] | y # ys \<Rightarrow> (x # y) # ys)"

primrec split_once :: "string \<Rightarrow> string \<Rightarrow> (string \<times> string) option" where
  "split_once p [] = (if p = [] then Some ([], []) else None)"
| "split_once p (x # xs) =
     (case strip_prefix p (x # xs) of
        Some rest \<Rightarrow> Some ([], rest)
      | None \<Rightarrow> (case split_once p xs of None \<Rightarrow> None | Some (a, b) \<Rightarrow> Some (x # a, b)))"

fun join :: "string \<Rightarrow> string list \<Rightarrow> string" where
  "join sep [] = []"
| "join sep [x] = x"
| "join sep (x # y # ys) = x @ sep @ join sep (y # ys)"

definition digit_char :: "nat \<Rightarrow> char" where
  "digit_char n = char_of (48 + n)"

fun show_nat :: "nat \<Rightarrow> string" where
  "show_nat n = (if n < 10 then [digit_char n] else show_nat (n div 10) @ [digit_char (n mod 10)])"

declare show_nat.simps [simp del]

definition is_ascii_digit :: "char \<Rightarrow> bool" where
  "is_ascii_digit c = (CHR ''0'' \<le> c \<and> c \<le> CHR ''9'')"

definition is_ascii_alphabetic :: "char \<Rightarrow> bool" where
  "is_ascii_alphabetic c = (c \<le> CHR ''Z'' \<and> CHR ''A'' \<le> c \<or> c \<le> CHR ''z'' \<and> CHR ''a'' \<le> c)"

definition is_ascii_alphanumeric :: "char \<Rightarrow> bool" where
  "is_ascii_alphanumeric c = (is_ascii_alphabetic c \<or> is_ascii_digit c)"

lemma strip_prefix_Some [res_simps]: "strip_prefix p s = Some r \<longleftrightarrow> s = p @ r"
  by (auto simp: strip_prefix_def) (metis append_take_drop_id)

lemma split_char_nonempty [simp]: "split_char c s \<noteq> []"
  by (cases s) (auto split: list.splits)

lemma join_split_char: "join [c] (split_char c s) = s"
proof (induction s)
  case (Cons x xs)
  obtain y ys where "split_char c xs = y # ys" by (cases "split_char c xs") auto
  with Cons.IH show ?case by (cases ys) auto
qed simp

lemma split_char_no_sep: "t \<in> set (split_char c s) \<Longrightarrow> c \<notin> set t"
proof (induction s arbitrary: t)
  case (Cons x xs)
  show ?case
  proof (cases "split_char c xs")
    case Nil
    then show ?thesis by simp
  next
    case (Cons y ys)
    with Cons.IH Cons.prems show ?thesis by (auto split: if_splits)
  qed
qed simp

lemma split_once_Some: "split_once p s = Some (a, b) \<Longrightarrow> s = a @ p @ b"
proof (induction s arbitrary: a)
  case (Cons x xs)
  then show ?case
    by (auto simp: res_simps split: option.splits prod.splits)
qed (auto split: if_splits)

section \<open>Decimal numerals\<close>

lemma of_char_digit: "n < 10 \<Longrightarrow> of_char (digit_char n) = 48 + n"
  by (simp add: digit_char_def)

lemma digit_char_inj: "m < 10 \<Longrightarrow> n < 10 \<Longrightarrow> digit_char m = digit_char n \<Longrightarrow> m = n"
  by (metis add_left_cancel of_char_digit)

lemma digit_char_digit: "n < 10 \<Longrightarrow> is_ascii_digit (digit_char n)"
  by (auto simp: is_ascii_digit_def less_eq_char_def of_char_digit)

lemma show_nat_digits: "c \<in> set (show_nat n) \<Longrightarrow> is_ascii_digit c"
proof (induction n rule: show_nat.induct)
  case (1 n)
  then show ?case
    by (subst (asm) show_nat.simps) (auto simp: digit_char_digit split: if_splits)
qed

lemma show_nat_nonempty [simp]: "show_nat n \<noteq> []"
  by (subst show_nat.simps) simp

lemma show_nat_inj: "show_nat m = show_nat n \<Longrightarrow> m = n"
proof (induction m arbitrary: n rule: show_nat.induct)
  case (1 m)
  show ?case
  proof (cases "m < 10 \<or> n < 10")
    case True
    with 1 show ?thesis
      by (auto simp: show_nat.simps [of m] show_nat.simps [of n] Cons_eq_append_conv
          append_eq_Cons_conv split: if_splits dest: digit_char_inj)
  next
    case False
    with "1.prems" have "show_nat (m div 10) @ [digit_char (m mod 10)]
        = show_nat (n div 10) @ [digit_char (n mod 10)]"
      by (simp add: show_nat.simps [of m] show_nat.simps [of n])
    then have "show_nat (m div 10) = show_nat (n div 10)" and "m mod 10 = n mod 10"
      by (auto intro: digit_char_inj)
    with "1.IH" False have "m div 10 = n div 10" by simp
    with \<open>m mod 10 = n mod 10\<close> show ?thesis by (metis div_mult_mod_eq)
  qed
qed

section \<open>White space\<close>

text \<open>
  \<open>str::trim\<close> removes characters with the Unicode property \<open>White_Space\<close>. On UTF-8 bytes these are
  the one-byte characters 9 to 13 and 32, the two-byte U+0085 and U+00A0, and the three-byte
  U+1680, U+2000 to U+200A, U+2028, U+2029, U+202F, U+205F and U+3000.
\<close>

definition ws_one :: "nat \<Rightarrow> bool" where
  "ws_one a = (9 \<le> a \<and> a \<le> 13 \<or> a = 32)"

definition ws_two :: "nat \<Rightarrow> nat \<Rightarrow> bool" where
  "ws_two a b = (a = 0xC2 \<and> (b = 0x85 \<or> b = 0xA0))"

definition ws_three :: "nat \<Rightarrow> nat \<Rightarrow> nat \<Rightarrow> bool" where
  "ws_three a b c =
     (a = 0xE1 \<and> b = 0x9A \<and> c = 0x80
      \<or> a = 0xE2 \<and> b = 0x80 \<and> (0x80 \<le> c \<and> c \<le> 0x8A \<or> c = 0xA8 \<or> c = 0xA9 \<or> c = 0xAF)
      \<or> a = 0xE2 \<and> b = 0x81 \<and> c = 0x9F
      \<or> a = 0xE3 \<and> b = 0x80 \<and> c = 0x80)"

fun ws_head :: "string \<Rightarrow> nat" where
  "ws_head [] = 0"
| "ws_head [a] = (if ws_one (of_char a) then 1 else 0)"
| "ws_head [a, b] = (if ws_one (of_char a) then 1 else if ws_two (of_char a) (of_char b) then 2 else 0)"
| "ws_head (a # b # c # s) =
     (if ws_one (of_char a) then 1 else if ws_two (of_char a) (of_char b) then 2
      else if ws_three (of_char a) (of_char b) (of_char c) then 3 else 0)"

fun ws_head_rev :: "string \<Rightarrow> nat" where
  "ws_head_rev [] = 0"
| "ws_head_rev [a] = (if ws_one (of_char a) then 1 else 0)"
| "ws_head_rev [a, b] = (if ws_one (of_char a) then 1 else if ws_two (of_char b) (of_char a) then 2 else 0)"
| "ws_head_rev (a # b # c # s) =
     (if ws_one (of_char a) then 1 else if ws_two (of_char b) (of_char a) then 2
      else if ws_three (of_char c) (of_char b) (of_char a) then 3 else 0)"

text \<open>Dropping one character shortens the text, so the length bounds the number of characters.\<close>

primrec trim_fuel :: "(string \<Rightarrow> nat) \<Rightarrow> nat \<Rightarrow> string \<Rightarrow> string" where
  "trim_fuel h 0 s = s"
| "trim_fuel h (Suc n) s = (if h s = 0 then s else trim_fuel h n (drop (h s) s))"

definition trim_start :: "string \<Rightarrow> string" where
  "trim_start s = trim_fuel ws_head (length s) s"

definition trim_end :: "string \<Rightarrow> string" where
  "trim_end s = rev (trim_fuel ws_head_rev (length s) (rev s))"

definition trim :: "string \<Rightarrow> string" where
  "trim s = trim_end (trim_start s)"

definition is_blank :: "string \<Rightarrow> bool" where
  "is_blank s = (trim s = [])"

lemma trim_fuel_done:
  assumes "\<And>s. h s \<le> length s" and "length s \<le> n"
  shows "h (trim_fuel h n s) = 0"
  using assms(2)
proof (induction n arbitrary: s)
  case 0
  then show ?case using assms(1) [of s] by simp
next
  case (Suc n)
  then show ?case by (cases "h s") auto
qed

lemma ws_head_le: "ws_head s \<le> length s"
  by (cases s rule: ws_head.cases) auto

lemma trim_start_no_ws: "ws_head (trim_start s) = 0"
  unfolding trim_start_def by (rule trim_fuel_done) (simp_all add: ws_head_le)

lemma alphanumeric_code:
  "is_ascii_alphanumeric c \<Longrightarrow> 48 \<le> (of_char c :: nat) \<and> (of_char c :: nat) \<le> 122"
  by (auto simp: is_ascii_alphanumeric_def is_ascii_alphabetic_def is_ascii_digit_def less_eq_char_def)

lemma ws_head_alphanumeric:
  assumes "is_ascii_alphanumeric c"
  shows "ws_head (c # s) = 0" and "ws_head_rev (c # s) = 0"
  using alphanumeric_code [OF assms]
  by (cases s rule: ws_head.cases, auto simp: ws_one_def ws_two_def ws_three_def)+

lemma trim_alphanumeric:
  assumes "s \<noteq> []" and "is_ascii_alphanumeric (hd s)" and "is_ascii_alphanumeric (last s)"
  shows "trim s = s"
proof -
  have "ws_head s = 0" using assms(1, 2) ws_head_alphanumeric(1) by (metis list.collapse)
  then have start: "trim_start s = s" by (cases s) (simp_all add: trim_start_def)
  have "ws_head_rev (rev s) = 0"
    using assms(1, 3) ws_head_alphanumeric(2) [of "last s" "rev (butlast s)"]
    by (metis append_butlast_last_id rev_append rev_singleton_conv append_Cons append_Nil)
  then have "trim_end s = s" using assms(1) by (cases "length s") (simp_all add: trim_end_def)
  with start show ?thesis by (simp add: trim_def)
qed

end
