(* ===== verification/Execution_Error.thy ===== *)
theory Execution_Error
  imports Moa_Prelude
begin

text \<open>
  The error contract of the execution crate (\<open>moa-execution/src/error.rs\<close>). Every variant of the
  Rust enum is a constructor. Fields that the code inspects or that carry data (dimension, context,
  path, reference, version) are kept; the free-text \<open>message\<close> of a variant and the wrapped errors
  of other crates are diagnostics only and are left out. \<open>Panic\<close> is not a variant: it marks the points
  where the Rust code aborts instead of returning (an index out of range, a zero chunk size).
\<close>

datatype error =
    Err_CanonicalJson
  | Err_InvalidHash
  | Err_DuplicateCapabilityReference string string
  | Err_Schema string
  | Err_Binding string
  | Err_ArithmeticOverflow string
  | Err_BudgetExceeded string
  | Err_BudgetOverrun string
  | Err_CapacitySaturated string
  | Err_InvalidBudgetLedger
  | Err_InvalidTaskIdentity
  | Err_InvalidProjection
  | Err_InvalidRepositoryInput
  | Err_InvalidRepositoryData
  | Err_Storage
  | Err_Database
  | Err_StorageUnavailable
  | Panic

type_synonym 'a result = "error + 'a"

end
