(* ===== verification/Estimates.thy ===== *)
theory Estimates
  imports Execution_Error
begin

text \<open>
  Integer resource vectors: \<open>ExecutionEstimate\<close> with its checked arithmetic
  (\<open>moa-execution/src/capability.rs\<close>), \<open>ExecutionUsage\<close> and \<open>ExecutionBudgetLimit\<close>
  (\<open>moa-artifacts/src/execution_plan.rs\<close>). The lemmas read every operation as arithmetic on
  natural numbers, dimension by dimension.
\<close>

section \<open>Data\<close>

text \<open>An instant of \<open>DateTime<Utc>\<close>: nanoseconds since the Unix epoch.\<close>

type_synonym datetime = int

record execution_estimate =
  est_cost_microusd :: u64
  est_tokens :: u64
  est_tool_calls :: u64
  est_retrieved_bytes :: u64
  est_tasks :: u64

record execution_usage =
  use_cost_microusd :: u64
  use_tokens :: u64
  use_tool_calls :: u64
  use_retrieved_bytes :: u64

record execution_budget_limit =
  max_cost_microusd :: "u64 option"
  max_tokens :: "u64 option"
  max_tasks :: "u64 option"
  max_tool_calls :: "u64 option"
  max_retrieved_bytes :: "u64 option"
  deadline_at :: "datetime option"

definition estimate_default :: execution_estimate where
  "estimate_default = \<lparr>est_cost_microusd = 0, est_tokens = 0, est_tool_calls = 0,
     est_retrieved_bytes = 0, est_tasks = 0\<rparr>"

section \<open>Checked arithmetic\<close>

definition add_u64 :: "u64 \<Rightarrow> u64 \<Rightarrow> string \<Rightarrow> u64 result" where
  "add_u64 left right ctxt = ok_or (Err_ArithmeticOverflow ctxt) (checked_add left right)"

definition mul_u64 :: "u64 \<Rightarrow> u64 \<Rightarrow> string \<Rightarrow> u64 result" where
  "mul_u64 left right ctxt = ok_or (Err_ArithmeticOverflow ctxt) (checked_mul left right)"

definition estimate_add ::
  "execution_estimate \<Rightarrow> execution_estimate \<Rightarrow> string \<Rightarrow> execution_estimate result" where
  "estimate_add self other ctxt =
     bind_res (add_u64 (est_cost_microusd self) (est_cost_microusd other) ctxt) (\<lambda>cost.
     bind_res (add_u64 (est_tokens self) (est_tokens other) ctxt) (\<lambda>tokens.
     bind_res (add_u64 (est_tool_calls self) (est_tool_calls other) ctxt) (\<lambda>calls.
     bind_res (add_u64 (est_retrieved_bytes self) (est_retrieved_bytes other) ctxt) (\<lambda>bytes.
     bind_res (add_u64 (est_tasks self) (est_tasks other) ctxt) (\<lambda>tasks.
     Inr \<lparr>est_cost_microusd = cost, est_tokens = tokens, est_tool_calls = calls,
          est_retrieved_bytes = bytes, est_tasks = tasks\<rparr>)))))"

definition estimate_multiply_resources ::
  "execution_estimate \<Rightarrow> u64 \<Rightarrow> string \<Rightarrow> execution_estimate result" where
  "estimate_multiply_resources self factor ctxt =
     bind_res (mul_u64 (est_cost_microusd self) factor ctxt) (\<lambda>cost.
     bind_res (mul_u64 (est_tokens self) factor ctxt) (\<lambda>tokens.
     bind_res (mul_u64 (est_tool_calls self) factor ctxt) (\<lambda>calls.
     bind_res (mul_u64 (est_retrieved_bytes self) factor ctxt) (\<lambda>bytes.
     Inr \<lparr>est_cost_microusd = cost, est_tokens = tokens, est_tool_calls = calls,
          est_retrieved_bytes = bytes, est_tasks = est_tasks self\<rparr>))))"

definition estimate_multiply_all ::
  "execution_estimate \<Rightarrow> u64 \<Rightarrow> string \<Rightarrow> execution_estimate result" where
  "estimate_multiply_all self factor ctxt =
     bind_res (mul_u64 (est_cost_microusd self) factor ctxt) (\<lambda>cost.
     bind_res (mul_u64 (est_tokens self) factor ctxt) (\<lambda>tokens.
     bind_res (mul_u64 (est_tool_calls self) factor ctxt) (\<lambda>calls.
     bind_res (mul_u64 (est_retrieved_bytes self) factor ctxt) (\<lambda>bytes.
     bind_res (mul_u64 (est_tasks self) factor ctxt) (\<lambda>tasks.
     Inr \<lparr>est_cost_microusd = cost, est_tokens = tokens, est_tool_calls = calls,
          est_retrieved_bytes = bytes, est_tasks = tasks\<rparr>)))))"

section \<open>The dimensions of a resource vector\<close>

text \<open>The specification view: a resource vector is a function from dimensions to numbers.\<close>

datatype dim = Cost | Tokens | ToolCalls | RetrievedBytes | Tasks

fun est_at :: "execution_estimate \<Rightarrow> dim \<Rightarrow> nat" where
  "est_at e Cost = unat (est_cost_microusd e)"
| "est_at e Tokens = unat (est_tokens e)"
| "est_at e ToolCalls = unat (est_tool_calls e)"
| "est_at e RetrievedBytes = unat (est_retrieved_bytes e)"
| "est_at e Tasks = unat (est_tasks e)"

fun use_at :: "execution_usage \<Rightarrow> dim \<Rightarrow> nat" where
  "use_at u Cost = unat (use_cost_microusd u)"
| "use_at u Tokens = unat (use_tokens u)"
| "use_at u ToolCalls = unat (use_tool_calls u)"
| "use_at u RetrievedBytes = unat (use_retrieved_bytes u)"
| "use_at u Tasks = 0"

fun limit_at :: "execution_budget_limit \<Rightarrow> dim \<Rightarrow> nat option" where
  "limit_at l Cost = map_option unat (max_cost_microusd l)"
| "limit_at l Tokens = map_option unat (max_tokens l)"
| "limit_at l ToolCalls = map_option unat (max_tool_calls l)"
| "limit_at l RetrievedBytes = map_option unat (max_retrieved_bytes l)"
| "limit_at l Tasks = map_option unat (max_tasks l)"

lemma all_dim: "(\<forall>d. P d) \<longleftrightarrow> P Cost \<and> P Tokens \<and> P ToolCalls \<and> P RetrievedBytes \<and> P Tasks"
  by (metis dim.exhaust)

lemma ex_dim: "(\<exists>d. P d) \<longleftrightarrow> P Cost \<or> P Tokens \<or> P ToolCalls \<or> P RetrievedBytes \<or> P Tasks"
  by (metis dim.exhaust)

lemma est_eq_iff: "a = b \<longleftrightarrow> (\<forall>d. est_at a d = est_at b d)"
  for a b :: execution_estimate
  by (cases a; cases b) (auto simp: all_dim word_unat_eq_iff)

lemma est_at_bound: "est_at e d < 2 ^ 64"
  using unat_bound [where 'a = 64] by (cases d) auto

lemma est_at_bound_numeral [simp]: "est_at e d < 18446744073709551616"
  using est_at_bound by simp

lemma estimate_default_sel [simp]:
  "est_cost_microusd estimate_default = 0" "est_tokens estimate_default = 0"
  "est_tool_calls estimate_default = 0" "est_retrieved_bytes estimate_default = 0"
  "est_tasks estimate_default = 0"
  by (simp_all add: estimate_default_def)

lemma est_at_default [simp]: "est_at estimate_default d = 0"
  by (cases d) auto

lemma add_u64_eq_Inr [res_simps]: "add_u64 a b c = Inr r \<longleftrightarrow> unat r = unat a + unat b"
  by (simp add: add_u64_def res_simps)

lemma mul_u64_eq_Inr [res_simps]: "mul_u64 a b c = Inr r \<longleftrightarrow> unat r = unat a * unat b"
  by (simp add: mul_u64_def res_simps)

lemma add_u64_eq_Inl [res_simps]:
  "add_u64 a b c = Inl e \<longleftrightarrow> 2 ^ 64 \<le> unat a + unat b \<and> e = Err_ArithmeticOverflow c"
  by (simp add: add_u64_def res_simps)

lemma mul_u64_eq_Inl [res_simps]:
  "mul_u64 a b c = Inl e \<longleftrightarrow> 2 ^ 64 \<le> unat a * unat b \<and> e = Err_ArithmeticOverflow c"
  by (simp add: mul_u64_def res_simps)

lemma estimate_add_eq_Inr [res_simps]:
  "estimate_add a b c = Inr r \<longleftrightarrow> (\<forall>d. est_at r d = est_at a d + est_at b d)"
  by (cases r) (auto simp: estimate_add_def res_simps all_dim)

lemma estimate_multiply_all_eq_Inr [res_simps]:
  "estimate_multiply_all a f c = Inr r \<longleftrightarrow> (\<forall>d. est_at r d = est_at a d * unat f)"
  by (cases r) (auto simp: estimate_multiply_all_def res_simps all_dim)

lemma estimate_multiply_resources_eq_Inr [res_simps]:
  "estimate_multiply_resources a f c = Inr r \<longleftrightarrow>
     (\<forall>d. est_at r d = (if d = Tasks then est_at a d else est_at a d * unat f))"
  by (cases r) (auto simp: estimate_multiply_resources_def res_simps all_dim dest: unat_eqD)

lemma estimate_add_eq_Inl [res_simps]:
  "estimate_add a b c = Inl e \<longleftrightarrow>
     (\<exists>d. 2 ^ 64 \<le> est_at a d + est_at b d) \<and> e = Err_ArithmeticOverflow c"
proof
  assume "estimate_add a b c = Inl e"
  then show "(\<exists>d. 2 ^ 64 \<le> est_at a d + est_at b d) \<and> e = Err_ArithmeticOverflow c"
    by (auto simp: estimate_add_def res_simps ex_dim)
next
  assume over: "(\<exists>d. 2 ^ 64 \<le> est_at a d + est_at b d) \<and> e = Err_ArithmeticOverflow c"
  show "estimate_add a b c = Inl e"
  proof (cases "estimate_add a b c")
    case (Inl e')
    then have "e' = Err_ArithmeticOverflow c"
      by (auto simp: estimate_add_def res_simps)
    with Inl over show ?thesis by simp
  next
    case (Inr r)
    then have "\<forall>d. est_at a d + est_at b d < 2 ^ 64"
      using est_at_bound [of r] by (simp add: estimate_add_eq_Inr)
    with over show ?thesis by (meson leD)
  qed
qed

end
