(* ===== verification/Budget.thy ===== *)
theory Budget
  imports Estimates
begin

text \<open>
  The pure run-level budget ledger (\<open>moa-execution/src/budget.rs\<close>): worst-case reservation of
  logical tasks, reconciliation of cumulative usage, overrun detection and the remaining limit.
  A method taking \<open>&mut self\<close> returns its result together with the ledger it leaves behind, so an
  error that is raised after an update is visible as such.
\<close>

section \<open>State\<close>

record budget_ledger =
  bl_limit :: execution_budget_limit
  bl_reserved :: execution_estimate
  bl_consumed :: execution_estimate
  bl_overrun :: bool

record budget_reconciliation =
  br_remaining_task_reservation :: execution_estimate
  br_run_reserved :: execution_estimate
  br_run_consumed :: execution_estimate
  br_budget_overrun :: bool
  br_terminal :: bool
  br_overrun_dimension :: "string option"

definition budget_ledger_new :: "execution_budget_limit \<Rightarrow> budget_ledger" where
  "budget_ledger_new limit = \<lparr>bl_limit = limit, bl_reserved = estimate_default,
     bl_consumed = estimate_default, bl_overrun = False\<rparr>"

section \<open>Checks on one dimension\<close>

definition check_dimension ::
  "u64 \<Rightarrow> u64 \<Rightarrow> u64 option \<Rightarrow> string \<Rightarrow> string \<Rightarrow> unit result" where
  "check_dimension consumed reserved limit dimension ctxt =
     bind_res (ok_or (Err_ArithmeticOverflow (ctxt @ '' '' @ dimension))
                     (checked_add consumed reserved)) (\<lambda>total.
     if (case limit of None \<Rightarrow> False | Some l \<Rightarrow> l < total)
     then Inl (Err_BudgetExceeded dimension) else Inr ())"

definition ensure_within_limit ::
  "execution_estimate \<Rightarrow> execution_estimate \<Rightarrow> execution_budget_limit \<Rightarrow> string \<Rightarrow> unit result" where
  "ensure_within_limit consumed reserved limit ctxt =
     bind_res (check_dimension (est_cost_microusd consumed) (est_cost_microusd reserved)
                 (max_cost_microusd limit) ''cost_microusd'' ctxt) (\<lambda>_.
     bind_res (check_dimension (est_tokens consumed) (est_tokens reserved)
                 (max_tokens limit) ''tokens'' ctxt) (\<lambda>_.
     bind_res (check_dimension (est_tasks consumed) (est_tasks reserved)
                 (max_tasks limit) ''tasks'' ctxt) (\<lambda>_.
     bind_res (check_dimension (est_tool_calls consumed) (est_tool_calls reserved)
                 (max_tool_calls limit) ''tool_calls'' ctxt) (\<lambda>_.
     check_dimension (est_retrieved_bytes consumed) (est_retrieved_bytes reserved)
                 (max_retrieved_bytes limit) ''retrieved_bytes'' ctxt))))"

definition estimate_fits_limit :: "execution_estimate \<Rightarrow> execution_budget_limit \<Rightarrow> unit result" where
  "estimate_fits_limit estimate limit =
     ensure_within_limit estimate_default estimate limit ''estimate''"

definition ensure_reservation_present ::
  "execution_estimate \<Rightarrow> execution_estimate \<Rightarrow> unit result" where
  "ensure_reservation_present reserved release =
     (if est_cost_microusd reserved < est_cost_microusd release
       \<or> est_tokens reserved < est_tokens release
       \<or> est_tool_calls reserved < est_tool_calls release
       \<or> est_retrieved_bytes reserved < est_retrieved_bytes release
       \<or> est_tasks reserved < est_tasks release
      then Inl Err_InvalidBudgetLedger else Inr ())"

definition actual_overrun_dimension :: "execution_usage \<Rightarrow> execution_estimate \<Rightarrow> string option" where
  "actual_overrun_dimension actual reservation =
     (if est_cost_microusd reservation < use_cost_microusd actual then Some ''cost_microusd''
      else if est_tokens reservation < use_tokens actual then Some ''tokens''
      else if est_tool_calls reservation < use_tool_calls actual then Some ''tool_calls''
      else if est_retrieved_bytes reservation < use_retrieved_bytes actual
        then Some ''retrieved_bytes''
      else None)"

text \<open>The sums below are taken at 128 bits in the source, so they are sums of naturals.\<close>

definition saturating_add_to_ceiling :: "u64 \<Rightarrow> u64 \<Rightarrow> u64 \<Rightarrow> u64" where
  "saturating_add_to_ceiling left right ceiling =
     of_nat (min (unat left + unat right) (unat ceiling))"

definition exceeds_counter_ceiling :: "u64 \<Rightarrow> u64 \<Rightarrow> u64 \<Rightarrow> bool" where
  "exceeds_counter_ceiling left right ceiling = (unat ceiling < unat left + unat right)"

definition addition_overrun_dimension ::
  "execution_estimate \<Rightarrow> execution_usage \<Rightarrow> bool \<Rightarrow> u64 \<Rightarrow> string option" where
  "addition_overrun_dimension consumed actual terminal ceiling =
     (if exceeds_counter_ceiling (est_cost_microusd consumed) (use_cost_microusd actual) ceiling
        then Some ''cost_microusd''
      else if exceeds_counter_ceiling (est_tokens consumed) (use_tokens actual) ceiling
        then Some ''tokens''
      else if exceeds_counter_ceiling (est_tool_calls consumed) (use_tool_calls actual) ceiling
        then Some ''tool_calls''
      else if exceeds_counter_ceiling (est_retrieved_bytes consumed)
                (use_retrieved_bytes actual) ceiling
        then Some ''retrieved_bytes''
      else if terminal \<and> exceeds_counter_ceiling (est_tasks consumed) 1 ceiling
        then Some ''tasks''
      else None)"

definition exceeds_limit :: "u64 \<Rightarrow> u64 \<Rightarrow> u64 option \<Rightarrow> bool" where
  "exceeds_limit consumed reserved limit =
     (case limit of None \<Rightarrow> False | Some l \<Rightarrow> l < saturating_add consumed reserved)"

definition limit_overrun_dimension ::
  "execution_estimate \<Rightarrow> execution_estimate \<Rightarrow> execution_budget_limit \<Rightarrow> string option" where
  "limit_overrun_dimension consumed reserved limit =
     (if exceeds_limit (est_cost_microusd consumed) (est_cost_microusd reserved)
           (max_cost_microusd limit) then Some ''cost_microusd''
      else if exceeds_limit (est_tokens consumed) (est_tokens reserved)
           (max_tokens limit) then Some ''tokens''
      else if exceeds_limit (est_tasks consumed) (est_tasks reserved)
           (max_tasks limit) then Some ''tasks''
      else if exceeds_limit (est_tool_calls consumed) (est_tool_calls reserved)
           (max_tool_calls limit) then Some ''tool_calls''
      else if exceeds_limit (est_retrieved_bytes consumed) (est_retrieved_bytes reserved)
           (max_retrieved_bytes limit) then Some ''retrieved_bytes''
      else None)"

definition usage_delta :: "u64 \<Rightarrow> u64 \<Rightarrow> u64 result" where
  "usage_delta previous cumulative = ok_or Err_InvalidBudgetLedger (checked_sub cumulative previous)"

definition cumulative_delta :: "execution_usage \<Rightarrow> execution_usage \<Rightarrow> execution_usage result" where
  "cumulative_delta previous cumulative =
     bind_res (usage_delta (use_cost_microusd previous) (use_cost_microusd cumulative)) (\<lambda>cost.
     bind_res (usage_delta (use_tokens previous) (use_tokens cumulative)) (\<lambda>tokens.
     bind_res (usage_delta (use_tool_calls previous) (use_tool_calls cumulative)) (\<lambda>calls.
     bind_res (usage_delta (use_retrieved_bytes previous) (use_retrieved_bytes cumulative)) (\<lambda>bytes.
     Inr \<lparr>use_cost_microusd = cost, use_tokens = tokens, use_tool_calls = calls,
          use_retrieved_bytes = bytes\<rparr>))))"

definition estimate_from_usage :: "execution_usage \<Rightarrow> execution_estimate" where
  "estimate_from_usage usage = \<lparr>est_cost_microusd = use_cost_microusd usage,
     est_tokens = use_tokens usage, est_tool_calls = use_tool_calls usage,
     est_retrieved_bytes = use_retrieved_bytes usage, est_tasks = 0\<rparr>"

definition zero_usage :: execution_usage where
  "zero_usage = \<lparr>use_cost_microusd = 0, use_tokens = 0, use_tool_calls = 0,
     use_retrieved_bytes = 0\<rparr>"

definition remaining_dimension ::
  "u64 option \<Rightarrow> u64 \<Rightarrow> u64 \<Rightarrow> string \<Rightarrow> u64 option result" where
  "remaining_dimension limit consumed reserved dimension =
     bind_res (ok_or (Err_ArithmeticOverflow (''remaining '' @ dimension))
                     (checked_add consumed reserved)) (\<lambda>used.
     case limit of
       None \<Rightarrow> Inr None
     | Some l \<Rightarrow> bind_res (ok_or (Err_BudgetExceeded dimension) (checked_sub l used))
                          (\<lambda>r. Inr (Some r)))"

section \<open>Ledger operations\<close>

definition try_reserve :: "budget_ledger \<Rightarrow> execution_estimate \<Rightarrow> unit result \<times> budget_ledger" where
  "try_reserve self request =
     (if bl_overrun self then (Inl (Err_BudgetExceeded ''overrun ledger''), self)
      else case estimate_add (bl_reserved self) request ''budget reservation'' of
        Inl e \<Rightarrow> (Inl e, self)
      | Inr nxt \<Rightarrow>
        (case ensure_within_limit (bl_consumed self) nxt (bl_limit self) ''budget reservation'' of
           Inl e \<Rightarrow> (Inl e, self)
         | Inr _ \<Rightarrow> (Inr (), self\<lparr>bl_reserved := nxt\<rparr>)))"

definition released :: "bool \<Rightarrow> execution_estimate \<Rightarrow> execution_estimate \<Rightarrow> execution_estimate" where
  "released terminal reservation charged =
     (if terminal then reservation
      else \<lparr>est_cost_microusd = min (est_cost_microusd charged) (est_cost_microusd reservation),
            est_tokens = min (est_tokens charged) (est_tokens reservation),
            est_tool_calls = min (est_tool_calls charged) (est_tool_calls reservation),
            est_retrieved_bytes =
              min (est_retrieved_bytes charged) (est_retrieved_bytes reservation),
            est_tasks = 0\<rparr>)"

definition reserved_after :: "execution_estimate \<Rightarrow> execution_estimate \<Rightarrow> execution_estimate" where
  "reserved_after reserved release =
     \<lparr>est_cost_microusd = est_cost_microusd reserved - est_cost_microusd release,
      est_tokens = est_tokens reserved - est_tokens release,
      est_tool_calls = est_tool_calls reserved - est_tool_calls release,
      est_retrieved_bytes = est_retrieved_bytes reserved - est_retrieved_bytes release,
      est_tasks = est_tasks reserved - est_tasks release\<rparr>"

definition consumed_after ::
  "execution_estimate \<Rightarrow> execution_usage \<Rightarrow> bool \<Rightarrow> u64 \<Rightarrow> execution_estimate" where
  "consumed_after consumed delta terminal ceiling =
     \<lparr>est_cost_microusd =
        saturating_add_to_ceiling (est_cost_microusd consumed) (use_cost_microusd delta) ceiling,
      est_tokens = saturating_add_to_ceiling (est_tokens consumed) (use_tokens delta) ceiling,
      est_tool_calls =
        saturating_add_to_ceiling (est_tool_calls consumed) (use_tool_calls delta) ceiling,
      est_retrieved_bytes = saturating_add_to_ceiling (est_retrieved_bytes consumed)
        (use_retrieved_bytes delta) ceiling,
      est_tasks =
        saturating_add_to_ceiling (est_tasks consumed) (if terminal then 1 else 0) ceiling\<rparr>"

definition remaining_reservation ::
  "bool \<Rightarrow> execution_estimate \<Rightarrow> execution_usage \<Rightarrow> execution_estimate" where
  "remaining_reservation terminal reservation delta =
     (if terminal then estimate_default
      else \<lparr>est_cost_microusd =
              saturating_sub (est_cost_microusd reservation) (use_cost_microusd delta),
            est_tokens = saturating_sub (est_tokens reservation) (use_tokens delta),
            est_tool_calls = saturating_sub (est_tool_calls reservation) (use_tool_calls delta),
            est_retrieved_bytes =
              saturating_sub (est_retrieved_bytes reservation) (use_retrieved_bytes delta),
            est_tasks = 1\<rparr>)"

definition or_dim :: "string option \<Rightarrow> string option \<Rightarrow> string option" where
  "or_dim a b = (case a of None \<Rightarrow> b | Some x \<Rightarrow> Some x)"

definition reconcile_cumulative_with_ceiling ::
  "budget_ledger \<Rightarrow> execution_estimate \<Rightarrow> execution_usage \<Rightarrow> execution_usage \<Rightarrow> bool \<Rightarrow> u64
    \<Rightarrow> budget_reconciliation result \<times> budget_ledger" where
  "reconcile_cumulative_with_ceiling self reservation previous cumulative terminal ceiling =
     (let is_unreserved_terminal = terminal \<and> reservation = estimate_default in
      if est_tasks reservation \<noteq> 1 \<and> \<not> is_unreserved_terminal
      then (Inl Err_InvalidBudgetLedger, self)
      else case ensure_reservation_present (bl_reserved self) reservation of
        Inl e \<Rightarrow> (Inl e, self)
      | Inr _ \<Rightarrow>
      (case cumulative_delta previous cumulative of
        Inl e \<Rightarrow> (Inl e, self)
      | Inr delta \<Rightarrow>
        let charged = estimate_from_usage delta;
            actual_overrun = actual_overrun_dimension delta reservation;
            release = released terminal reservation charged;
            reserved = reserved_after (bl_reserved self) release;
            arithmetic_overrun =
              addition_overrun_dimension (bl_consumed self) delta terminal ceiling;
            consumed = consumed_after (bl_consumed self) delta terminal ceiling;
            remaining = remaining_reservation terminal reservation delta;
            overrun_dimension = or_dim (or_dim actual_overrun arithmetic_overrun)
              (limit_overrun_dimension consumed reserved (bl_limit self));
            overrun = (if overrun_dimension \<noteq> None then True else bl_overrun self)
        in (Inr \<lparr>br_remaining_task_reservation = remaining, br_run_reserved = reserved,
                 br_run_consumed = consumed, br_budget_overrun = overrun,
                 br_terminal = terminal, br_overrun_dimension = overrun_dimension\<rparr>,
            self\<lparr>bl_reserved := reserved, bl_consumed := consumed, bl_overrun := overrun\<rparr>)))"

definition reconcile_cumulative ::
  "budget_ledger \<Rightarrow> execution_estimate \<Rightarrow> execution_usage \<Rightarrow> execution_usage \<Rightarrow> bool
    \<Rightarrow> budget_reconciliation result \<times> budget_ledger" where
  "reconcile_cumulative self reservation previous cumulative terminal =
     reconcile_cumulative_with_ceiling self reservation previous cumulative terminal (- 1)"

definition reconcile ::
  "budget_ledger \<Rightarrow> execution_estimate \<Rightarrow> execution_usage \<Rightarrow> unit result \<times> budget_ledger" where
  "reconcile self reservation actual =
     (case reconcile_cumulative self reservation zero_usage actual True of
        (Inl e, self') \<Rightarrow> (Inl e, self')
      | (Inr evidence, self') \<Rightarrow>
          (case br_overrun_dimension evidence of
             Some dimension \<Rightarrow> (Inl (Err_BudgetOverrun dimension), self')
           | None \<Rightarrow> (Inr (), self')))"

definition remaining_limit :: "budget_ledger \<Rightarrow> execution_budget_limit result" where
  "remaining_limit self =
     bind_res (remaining_dimension (max_cost_microusd (bl_limit self))
       (est_cost_microusd (bl_consumed self)) (est_cost_microusd (bl_reserved self))
       ''cost_microusd'') (\<lambda>cost.
     bind_res (remaining_dimension (max_tokens (bl_limit self))
       (est_tokens (bl_consumed self)) (est_tokens (bl_reserved self)) ''tokens'') (\<lambda>tokens.
     bind_res (remaining_dimension (max_tasks (bl_limit self))
       (est_tasks (bl_consumed self)) (est_tasks (bl_reserved self)) ''tasks'') (\<lambda>tasks.
     bind_res (remaining_dimension (max_tool_calls (bl_limit self))
       (est_tool_calls (bl_consumed self)) (est_tool_calls (bl_reserved self))
       ''tool_calls'') (\<lambda>calls.
     bind_res (remaining_dimension (max_retrieved_bytes (bl_limit self))
       (est_retrieved_bytes (bl_consumed self)) (est_retrieved_bytes (bl_reserved self))
       ''retrieved_bytes'') (\<lambda>bytes.
     Inr \<lparr>max_cost_microusd = cost, max_tokens = tokens, max_tasks = tasks,
          max_tool_calls = calls, max_retrieved_bytes = bytes,
          deadline_at = deadline_at (bl_limit self)\<rparr>)))))"

section \<open>The operations dimension by dimension\<close>

definition dim_fits :: "nat \<Rightarrow> nat option \<Rightarrow> bool" where
  "dim_fits n limit = (case limit of None \<Rightarrow> True | Some m \<Rightarrow> n \<le> m)"

definition usage_charge :: "bool \<Rightarrow> execution_usage \<Rightarrow> execution_usage \<Rightarrow> dim \<Rightarrow> nat" where
  "usage_charge terminal previous cumulative d =
     (if d = Tasks then (if terminal then 1 else 0) else use_at cumulative d - use_at previous d)"

lemma check_dimension_ok [res_simps]:
  "check_dimension c r l d ctxt = Inr u \<longleftrightarrow>
     unat c + unat r < 2 ^ 64 \<and> dim_fits (unat c + unat r) (map_option unat l)"
proof (cases "checked_add c r")
  case None
  then have "2 ^ 64 \<le> unat c + unat r" by (simp add: res_simps)
  with None show ?thesis by (simp add: check_dimension_def)
next
  case (Some t)
  then have "unat t = unat c + unat r" and "unat t < 2 ^ 64"
    using unat_bound [of t] by (simp_all add: res_simps)
  with Some show ?thesis
    by (auto simp: check_dimension_def dim_fits_def word_arith split: option.splits)
qed

lemma ensure_within_limit_ok [res_simps]:
  "ensure_within_limit c r l ctxt = Inr u \<longleftrightarrow>
     (\<forall>d. est_at c d + est_at r d < 2 ^ 64 \<and> dim_fits (est_at c d + est_at r d) (limit_at l d))"
  by (auto simp: ensure_within_limit_def res_simps all_dim)

lemma estimate_fits_limit_ok [res_simps]:
  "estimate_fits_limit e l = Inr u \<longleftrightarrow> (\<forall>d. dim_fits (est_at e d) (limit_at l d))"
  by (simp add: estimate_fits_limit_def res_simps est_at_bound)

lemma ensure_reservation_present_ok [res_simps]:
  "ensure_reservation_present reserved release = Inr u \<longleftrightarrow>
     (\<forall>d. est_at release d \<le> est_at reserved d)"
  by (auto simp: ensure_reservation_present_def all_dim word_arith)

lemma ensure_reservation_present_eq:
  "ensure_reservation_present reserved release =
     (if \<forall>d. est_at release d \<le> est_at reserved d then Inr () else Inl Err_InvalidBudgetLedger)"
  by (auto simp: ensure_reservation_present_def all_dim word_arith)

lemma usage_delta_ok [res_simps]:
  "usage_delta p c = Inr r \<longleftrightarrow> unat c = unat p + unat r"
  by (simp add: usage_delta_def res_simps)

lemma cumulative_delta_ok [res_simps]:
  "cumulative_delta p c = Inr r \<longleftrightarrow> (\<forall>d. use_at c d = use_at p d + use_at r d)"
  by (cases r) (auto simp: cumulative_delta_def res_simps all_dim)

lemma cumulative_delta_total:
  "(\<exists>r. cumulative_delta p c = Inr r) \<longleftrightarrow> (\<forall>d. use_at p d \<le> use_at c d)"
proof
  assume "\<forall>d. use_at p d \<le> use_at c d"
  then have "cumulative_delta p c = Inr
    \<lparr>use_cost_microusd = use_cost_microusd c - use_cost_microusd p,
     use_tokens = use_tokens c - use_tokens p, use_tool_calls = use_tool_calls c - use_tool_calls p,
     use_retrieved_bytes = use_retrieved_bytes c - use_retrieved_bytes p\<rparr>"
    by (simp add: cumulative_delta_ok all_dim unat_sub word_arith)
  then show "\<exists>r. cumulative_delta p c = Inr r" by blast
qed (auto simp: res_simps)

lemma unat_saturating_add_to_ceiling [word_arith]:
  "unat (saturating_add_to_ceiling a b ceiling) = min (unat a + unat b) (unat ceiling)"
proof -
  have "min (unat a + unat b) (unat ceiling) < 2 ^ 64"
    using unat_bound [of ceiling] by simp
  then show ?thesis
    by (simp add: saturating_add_to_ceiling_def unat_of_nat)
qed

lemma saturating_add_to_ceiling_code [code]:
  "saturating_add_to_ceiling left right ceiling =
     of_int (min (uint left + uint right) (uint ceiling))"
  by (simp only: saturating_add_to_ceiling_def uint_nat of_int_of_nat_eq flip: of_nat_add of_nat_min)

lemma exceeds_counter_ceiling_code [code]:
  "exceeds_counter_ceiling left right ceiling = (uint ceiling < uint left + uint right)"
  by (metis exceeds_counter_ceiling_def of_nat_add of_nat_less_iff uint_nat)

lemma exceeds_limit_iff:
  "exceeds_limit c r l \<longleftrightarrow> \<not> dim_fits (min (unat c + unat r) (2 ^ 64 - 1)) (map_option unat l)"
  by (auto simp: exceeds_limit_def dim_fits_def word_arith split: option.splits)

lemma limit_overrun_dimension_None:
  "limit_overrun_dimension c r l = None \<longleftrightarrow>
     (\<forall>d. dim_fits (min (est_at c d + est_at r d) (2 ^ 64 - 1)) (limit_at l d))"
  by (auto simp: limit_overrun_dimension_def exceeds_limit_iff all_dim)

lemma actual_overrun_dimension_None:
  "actual_overrun_dimension u e = None \<longleftrightarrow> (\<forall>d. use_at u d \<le> est_at e d)"
  by (auto simp: actual_overrun_dimension_def all_dim word_arith)

lemma addition_overrun_dimension_None:
  "addition_overrun_dimension e u t ceiling = None \<longleftrightarrow>
     (\<forall>d. est_at e d + (if d = Tasks then (if t then 1 else 0) else use_at u d) \<le> unat ceiling
          \<or> d = Tasks \<and> \<not> t)"
  by (auto simp: addition_overrun_dimension_def exceeds_counter_ceiling_def all_dim)

lemma or_dim_None [simp]: "or_dim a b = None \<longleftrightarrow> a = None \<and> b = None"
  by (cases a) (auto simp: or_dim_def)

lemma est_at_released:
  "est_at (released t r (estimate_from_usage u)) d =
     (if t then est_at r d else min (use_at u d) (est_at r d))"
  by (cases d)
    (auto simp: released_def estimate_from_usage_def min_def word_le_nat_alt)

lemma est_at_reserved_after:
  "\<forall>d. est_at release d \<le> est_at reserved d \<Longrightarrow>
     est_at (reserved_after reserved release) d = est_at reserved d - est_at release d"
  by (cases d) (auto simp: reserved_after_def all_dim unat_sub word_le_nat_alt)

lemma est_at_consumed_after:
  "est_at (consumed_after e u t ceiling) d =
     min (est_at e d + (if d = Tasks then (if t then 1 else 0) else use_at u d)) (unat ceiling)"
  by (cases d) (auto simp: consumed_after_def word_arith)

lemma est_at_remaining:
  "est_at (remaining_reservation t r u) d =
     (if t then 0 else if d = Tasks then 1 else est_at r d - use_at u d)"
  by (cases d) (auto simp: remaining_reservation_def word_arith)

text \<open>When a reconciliation is accepted.\<close>

lemma reconcile_accepts:
  "(\<exists>ev. fst (reconcile_cumulative_with_ceiling L r p c t ceiling) = Inr ev) \<longleftrightarrow>
     (est_tasks r = 1 \<or> t \<and> r = estimate_default)
     \<and> (\<forall>d. est_at r d \<le> est_at (bl_reserved L) d) \<and> (\<forall>d. use_at p d \<le> use_at c d)"
proof (cases "\<exists>delta. cumulative_delta p c = Inr delta")
  case True
  then have mono: "\<forall>d. use_at p d \<le> use_at c d"
    by (simp add: cumulative_delta_total)
  from True obtain delta where "cumulative_delta p c = Inr delta" by blast
  with mono show ?thesis
    by (auto simp: reconcile_cumulative_with_ceiling_def Let_def ensure_reservation_present_eq)
next
  case False
  then obtain e where e: "cumulative_delta p c = Inl e" by (metis sum.exhaust)
  moreover from False have "\<not> (\<forall>d. use_at p d \<le> use_at c d)"
    by (simp only: cumulative_delta_total) simp
  ultimately show ?thesis
    by (auto simp: reconcile_cumulative_with_ceiling_def Let_def ensure_reservation_present_eq)
qed

lemma reconcile_rejects_unchanged:
  "fst (reconcile_cumulative_with_ceiling L r p c t ceiling) = Inl e \<Longrightarrow>
     snd (reconcile_cumulative_with_ceiling L r p c t ceiling) = L"
  by (auto simp: reconcile_cumulative_with_ceiling_def Let_def split: sum.splits if_splits)

text \<open>What an accepted reconciliation does: first in terms of the code's steps, then per dimension.\<close>

lemma reconcile_unfold:
  assumes "reconcile_cumulative_with_ceiling L r p c t ceiling = (Inr ev, L')"
  obtains delta where "\<forall>d. use_at c d = use_at p d + use_at delta d"
    and "bl_reserved L' = reserved_after (bl_reserved L) (released t r (estimate_from_usage delta))"
    and "bl_consumed L' = consumed_after (bl_consumed L) delta t ceiling"
    and "bl_limit L' = bl_limit L"
    and "br_remaining_task_reservation ev = remaining_reservation t r delta"
    and "br_overrun_dimension ev = or_dim (or_dim (actual_overrun_dimension delta r)
          (addition_overrun_dimension (bl_consumed L) delta t ceiling))
          (limit_overrun_dimension (bl_consumed L') (bl_reserved L') (bl_limit L))"
    and "bl_overrun L' = (br_overrun_dimension ev \<noteq> None \<or> bl_overrun L)"
    and "br_run_reserved ev = bl_reserved L'" and "br_run_consumed ev = bl_consumed L'"
    and "br_budget_overrun ev = bl_overrun L'" and "br_terminal ev = t"
proof -
  have acc: "\<exists>ev. fst (reconcile_cumulative_with_ceiling L r p c t ceiling) = Inr ev"
    using assms by simp
  then obtain delta where delta: "cumulative_delta p c = Inr delta"
    by (metis cumulative_delta_total reconcile_accepts)
  moreover have one: "est_tasks r = 1 \<or> t \<and> r = estimate_default"
    and present: "ensure_reservation_present (bl_reserved L) r = Inr ()"
    using acc by (simp_all add: reconcile_accepts res_simps)
  note eqs = assms [unfolded reconcile_cumulative_with_ceiling_def Let_def present delta sum.case]
  show thesis
    by (rule that [of delta])
      (use eqs one delta in \<open>auto simp: res_simps simp del: or_dim_None split: if_splits\<close>)
qed

definition no_overrun ::
  "budget_ledger \<Rightarrow> execution_estimate \<Rightarrow> execution_usage \<Rightarrow> execution_usage \<Rightarrow> bool \<Rightarrow> u64
    \<Rightarrow> budget_ledger \<Rightarrow> bool" where
  "no_overrun L r p c t ceiling L' \<longleftrightarrow>
     (\<forall>d. use_at c d - use_at p d \<le> est_at r d)
     \<and> (\<forall>d. est_at (bl_consumed L) d + usage_charge t p c d \<le> unat ceiling \<or> d = Tasks \<and> \<not> t)
     \<and> (\<forall>d. dim_fits (min (est_at (bl_consumed L') d + est_at (bl_reserved L') d) (2 ^ 64 - 1))
                     (limit_at (bl_limit L) d))"

lemma reconcile_effect:
  assumes "reconcile_cumulative_with_ceiling L r p c t ceiling = (Inr ev, L')"
  shows "est_tasks r = 1 \<or> t \<and> r = estimate_default"
    and "est_at r d \<le> est_at (bl_reserved L) d"
    and "use_at p d \<le> use_at c d"
    and "est_at (bl_reserved L') d = est_at (bl_reserved L) d
           - (if t then est_at r d else min (use_at c d - use_at p d) (est_at r d))"
    and "est_at (bl_consumed L') d =
           min (est_at (bl_consumed L) d + usage_charge t p c d) (unat ceiling)"
    and "est_at (br_remaining_task_reservation ev) d =
           (if t then 0 else if d = Tasks then 1 else est_at r d - (use_at c d - use_at p d))"
    and "bl_limit L' = bl_limit L"
    and "br_overrun_dimension ev = None \<longleftrightarrow> no_overrun L r p c t ceiling L'"
    and "bl_overrun L' \<longleftrightarrow> bl_overrun L \<or> \<not> no_overrun L r p c t ceiling L'"
proof -
  have acc: "\<exists>ev. fst (reconcile_cumulative_with_ceiling L r p c t ceiling) = Inr ev"
    using assms by simp
  then show "est_tasks r = 1 \<or> t \<and> r = estimate_default"
    and rel: "est_at r d \<le> est_at (bl_reserved L) d"
    and "use_at p d \<le> use_at c d" for d
    by (simp_all add: reconcile_accepts)
  obtain delta where delta: "\<forall>d. use_at c d = use_at p d + use_at delta d"
    and L': "bl_reserved L' = reserved_after (bl_reserved L) (released t r (estimate_from_usage delta))"
      "bl_consumed L' = consumed_after (bl_consumed L) delta t ceiling"
      "bl_limit L' = bl_limit L"
      "br_remaining_task_reservation ev = remaining_reservation t r delta"
    and od: "br_overrun_dimension ev = or_dim (or_dim (actual_overrun_dimension delta r)
          (addition_overrun_dimension (bl_consumed L) delta t ceiling))
          (limit_overrun_dimension (bl_consumed L') (bl_reserved L') (bl_limit L))"
    and over: "bl_overrun L' = (br_overrun_dimension ev \<noteq> None \<or> bl_overrun L)"
    by (rule reconcile_unfold [OF assms])
  from delta have use: "use_at delta d = use_at c d - use_at p d" for d by simp
  then have charge: "(if d = Tasks then if t then 1 else 0 else use_at delta d) = usage_charge t p c d"
    for d by (simp add: usage_charge_def)
  have "\<forall>d. est_at (released t r (estimate_from_usage delta)) d \<le> est_at (bl_reserved L) d"
    using rel by (simp add: est_at_released min.coboundedI2)
  from est_at_reserved_after [OF this]
  show "est_at (bl_reserved L') d = est_at (bl_reserved L) d
           - (if t then est_at r d else min (use_at c d - use_at p d) (est_at r d))" for d
    by (simp add: L' est_at_released use)
  show "est_at (bl_consumed L') d =
           min (est_at (bl_consumed L) d + usage_charge t p c d) (unat ceiling)" for d
    by (simp add: L' est_at_consumed_after charge del: est_at.simps)
  show "est_at (br_remaining_task_reservation ev) d =
           (if t then 0 else if d = Tasks then 1 else est_at r d - (use_at c d - use_at p d))" for d
    by (simp add: L' est_at_remaining use)
  show "bl_limit L' = bl_limit L" by (rule L')
  show none: "br_overrun_dimension ev = None \<longleftrightarrow> no_overrun L r p c t ceiling L'"
    unfolding od or_dim_None actual_overrun_dimension_None addition_overrun_dimension_None
      limit_overrun_dimension_None charge conj_assoc no_overrun_def
    unfolding use ..
  show "bl_overrun L' \<longleftrightarrow> bl_overrun L \<or> \<not> no_overrun L r p c t ceiling L'"
    unfolding over none [symmetric] by (rule disj_commute)
qed

section \<open>Reservation and remaining limit\<close>

definition admissible :: "budget_ledger \<Rightarrow> execution_estimate \<Rightarrow> bool" where
  "admissible L q \<longleftrightarrow> \<not> bl_overrun L \<and>
     (\<forall>d. est_at (bl_consumed L) d + est_at (bl_reserved L) d + est_at q d < 2 ^ 64
        \<and> dim_fits (est_at (bl_consumed L) d + est_at (bl_reserved L) d + est_at q d)
                   (limit_at (bl_limit L) d))"

lemma try_reserve_ok:
  "try_reserve L q = (Inr (), L') \<longleftrightarrow> admissible L q \<and>
     (\<exists>nxt. (\<forall>d. est_at nxt d = est_at (bl_reserved L) d + est_at q d)
          \<and> L' = L\<lparr>bl_reserved := nxt\<rparr>)"
proof -
  have "try_reserve L q = (Inr (), L') \<longleftrightarrow> \<not> bl_overrun L \<and>
     (\<exists>nxt. estimate_add (bl_reserved L) q ''budget reservation'' = Inr nxt
        \<and> ensure_within_limit (bl_consumed L) nxt (bl_limit L) ''budget reservation'' = Inr ()
        \<and> L' = L\<lparr>bl_reserved := nxt\<rparr>)"
    by (auto simp: try_reserve_def split: sum.splits)
  also have "\<dots> \<longleftrightarrow> admissible L q \<and>
     (\<exists>nxt. (\<forall>d. est_at nxt d = est_at (bl_reserved L) d + est_at q d)
          \<and> L' = L\<lparr>bl_reserved := nxt\<rparr>)"
    unfolding admissible_def estimate_add_eq_Inr ensure_within_limit_ok
    by (auto simp: add.assoc cong: conj_cong)
  finally show ?thesis .
qed

lemma estimate_add_total:
  "(\<And>d. est_at a d + est_at b d < 2 ^ 64) \<Longrightarrow> \<exists>r. \<forall>d. est_at r d = est_at a d + est_at b d"
  by (metis (full_types) estimate_add_eq_Inl estimate_add_eq_Inr not_le obj_sumE)

lemma try_reserve_accepts: "(fst (try_reserve L q) = Inr ()) = admissible L q"
proof
  assume "fst (try_reserve L q) = Inr ()"
  then show "admissible L q" by (metis prod.collapse try_reserve_ok)
next
  assume adm: "admissible L q"
  then have lt: "est_at (bl_consumed L) d + est_at (bl_reserved L) d + est_at q d < 2 ^ 64" for d
    by (simp only: admissible_def)
  have "est_at (bl_reserved L) d + est_at q d < 2 ^ 64" for d
    using lt [of d] by linarith
  from estimate_add_total [OF this] obtain nxt
    where "\<forall>d. est_at nxt d = est_at (bl_reserved L) d + est_at q d" by blast
  with adm have "try_reserve L q = (Inr (), L\<lparr>bl_reserved := nxt\<rparr>)"
    unfolding try_reserve_ok by blast
  then show "fst (try_reserve L q) = Inr ()" by simp
qed

lemma try_reserve_reject: "fst (try_reserve L q) \<noteq> Inr () \<Longrightarrow> snd (try_reserve L q) = L"
  by (auto simp: try_reserve_def split: sum.splits if_splits)

lemma remaining_dimension_ok [res_simps]:
  "remaining_dimension l c r d = Inr m \<longleftrightarrow> unat c + unat r < 2 ^ 64 \<and>
     (case l of None \<Rightarrow> m = None
      | Some x \<Rightarrow> \<exists>y. m = Some y \<and> unat x = unat c + unat r + unat y)"
proof (cases "checked_add c r")
  case None
  then have "2 ^ 64 \<le> unat c + unat r" by (simp add: res_simps)
  with None show ?thesis by (simp add: remaining_dimension_def)
next
  case (Some t)
  then have "unat t = unat c + unat r" and "unat t < 2 ^ 64"
    using unat_bound [of t] by (simp_all add: res_simps)
  with Some show ?thesis
    by (auto simp: remaining_dimension_def res_simps split: option.splits)
qed

lemma remaining_limit_dims:
  assumes "remaining_limit L = Inr l"
  obtains n where "remaining_dimension (max_cost_microusd (bl_limit L))
      (est_cost_microusd (bl_consumed L)) (est_cost_microusd (bl_reserved L)) (n Cost)
        = Inr (max_cost_microusd l)"
    and "remaining_dimension (max_tokens (bl_limit L))
      (est_tokens (bl_consumed L)) (est_tokens (bl_reserved L)) (n Tokens) = Inr (max_tokens l)"
    and "remaining_dimension (max_tasks (bl_limit L))
      (est_tasks (bl_consumed L)) (est_tasks (bl_reserved L)) (n Tasks) = Inr (max_tasks l)"
    and "remaining_dimension (max_tool_calls (bl_limit L))
      (est_tool_calls (bl_consumed L)) (est_tool_calls (bl_reserved L)) (n ToolCalls)
        = Inr (max_tool_calls l)"
    and "remaining_dimension (max_retrieved_bytes (bl_limit L))
      (est_retrieved_bytes (bl_consumed L)) (est_retrieved_bytes (bl_reserved L)) (n RetrievedBytes)
        = Inr (max_retrieved_bytes l)"
  by (rule that [of "\<lambda>d. case d of Cost \<Rightarrow> ''cost_microusd'' | Tokens \<Rightarrow> ''tokens''
        | Tasks \<Rightarrow> ''tasks'' | ToolCalls \<Rightarrow> ''tool_calls'' | RetrievedBytes \<Rightarrow> ''retrieved_bytes''"])
    (use assms in \<open>auto simp: remaining_limit_def bind_res_eq_Inr\<close>)

lemma remaining_limit_ok:
  assumes "remaining_limit L = Inr l"
  shows "case limit_at (bl_limit L) d of None \<Rightarrow> limit_at l d = None
         | Some x \<Rightarrow> \<exists>y. limit_at l d = Some y
                      \<and> x = est_at (bl_consumed L) d + est_at (bl_reserved L) d + y"
  by (rule remaining_limit_dims [OF assms], cases d)
    (simp_all add: remaining_dimension_ok split: option.splits, auto)

section \<open>Properties\<close>

text \<open>C1: A reservation is granted exactly when the ledger has not overrun and, in every one of the
  five dimensions, consumed plus reserved plus requested neither overflows 64 bits nor exceeds the
  configured limit. A granted reservation adds the request to the reserved vector in every
  dimension and touches nothing else; a refused one leaves the whole ledger unchanged.\<close>

theorem try_reserve_atomic:
  "(fst (try_reserve L q) = Inr ()) = admissible L q
   \<and> bl_limit (snd (try_reserve L q)) = bl_limit L
   \<and> bl_consumed (snd (try_reserve L q)) = bl_consumed L
   \<and> bl_overrun (snd (try_reserve L q)) = bl_overrun L
   \<and> est_at (bl_reserved (snd (try_reserve L q))) d =
       est_at (bl_reserved L) d + (if admissible L q then est_at q d else 0)"
proof (cases "admissible L q")
  case True
  then have "try_reserve L q = (Inr (), snd (try_reserve L q))"
    using try_reserve_accepts by (metis prod.collapse)
  then show ?thesis using True unfolding try_reserve_ok by (auto simp: try_reserve_accepts)
next
  case False
  then show ?thesis using try_reserve_accepts [of L q] try_reserve_reject [of L q] by simp
qed


definition sample_limit :: execution_budget_limit where
  "sample_limit = \<lparr>max_cost_microusd = Some 1000, max_tokens = Some 500, max_tasks = Some 3,
     max_tool_calls = None, max_retrieved_bytes = Some 4096, deadline_at = None\<rparr>"

definition sample_request :: execution_estimate where
  "sample_request = \<lparr>est_cost_microusd = 400, est_tokens = 200, est_tool_calls = 2,
     est_retrieved_bytes = 0, est_tasks = 1\<rparr>"

definition sample_usage :: execution_usage where
  "sample_usage = \<lparr>use_cost_microusd = 150, use_tokens = 90, use_tool_calls = 1,
     use_retrieved_bytes = 0\<rparr>"

lemmas sample_defs = sample_limit_def sample_request_def sample_usage_def


text \<open>C5: Reconciling cumulative usage moves resources without creating or losing any. A report that
  is not terminal and does not overrun leaves consumed plus reserved unchanged in every dimension
  and moves exactly the usage delta out of the task's reservation; a terminal report releases the
  task's whole reservation and adds the delta, and one logical task, to the consumed vector. In
  both cases the report is accepted only when the cumulative usage did not decrease.\<close>

theorem reconcile_conserves:
  assumes "reconcile_cumulative_with_ceiling L r p c terminal ceiling = (Inr ev, L')"
    and "\<not> bl_overrun L'" and "est_at (bl_consumed L) Tasks \<le> unat ceiling"
  shows "use_at p d \<le> use_at c d
    \<and> (if terminal
       then est_at (bl_reserved L') d + est_at r d = est_at (bl_reserved L) d
          \<and> est_at (bl_consumed L') d = est_at (bl_consumed L) d
              + (if d = Tasks then 1 else use_at c d - use_at p d)
          \<and> br_remaining_task_reservation ev = estimate_default
       else est_at (bl_consumed L') d + est_at (bl_reserved L') d
              = est_at (bl_consumed L) d + est_at (bl_reserved L) d
          \<and> est_at (br_remaining_task_reservation ev) d + (use_at c d - use_at p d) = est_at r d)"
proof -
  note eff = reconcile_effect [OF assms(1)]
  have ok: "no_overrun L r p c terminal ceiling L'" using assms(2) eff(9) by simp
  then have delta: "use_at c d - use_at p d \<le> est_at r d"
    and fits: "est_at (bl_consumed L) d + usage_charge terminal p c d \<le> unat ceiling
                 \<or> d = Tasks \<and> \<not> terminal"
    by (simp_all only: no_overrun_def)
  show ?thesis
  proof (cases terminal)
    case True
    then have "br_remaining_task_reservation ev = estimate_default"
      using eff(6) by (simp add: est_eq_iff)
    with True show ?thesis
      using eff(2) [of d] eff(3) [of d] eff(4) [of d] eff(5) [of d] fits
      by (simp add: usage_charge_def split: if_splits)
  next
    case False
    then have one: "est_tasks r = 1" using eff(1) by simp
    show ?thesis
    proof (cases "d = Tasks")
      case True
      with False one show ?thesis
        using eff(4) [of d] eff(5) [of d] eff(6) [of d] assms(3)
        by (simp add: usage_charge_def)
    next
      case d: False
      with False show ?thesis
        using eff(2) [of d] eff(3) [of d] eff(4) [of d] eff(5) [of d] eff(6) [of d] delta fits
        by (simp add: usage_charge_def)
    qed
  qed
qed

definition sample_ledger :: budget_ledger where
  "sample_ledger = snd (try_reserve (budget_ledger_new sample_limit) sample_request)"

lemma sample_ledger_eq:
  "sample_ledger = \<lparr>bl_limit = sample_limit, bl_reserved = sample_request,
     bl_consumed = estimate_default, bl_overrun = False\<rparr>"
  by code_simp

theorem reconcile_conserves_witness:
  "est_at (bl_reserved (snd (reconcile_cumulative_with_ceiling sample_ledger sample_request
       zero_usage sample_usage True 9223372036854775807))) Cost + 400 = 400"
proof -
  let ?r = "reconcile_cumulative_with_ceiling sample_ledger sample_request zero_usage
              sample_usage True 9223372036854775807"
  have eq: "?r = (Inr (projr (fst ?r)), snd ?r)" by code_simp
  have "\<not> bl_overrun (snd ?r)" by code_simp
  moreover have "est_at (bl_consumed sample_ledger) Tasks \<le> unat (9223372036854775807 :: u64)"
    by (simp add: sample_ledger_eq)
  moreover have "est_at sample_request Cost = 400" "est_at (bl_reserved sample_ledger) Cost = 400"
    by (simp_all add: sample_ledger_eq sample_request_def)
  ultimately show ?thesis
    using reconcile_conserves [OF eq, of Cost] by presburger
qed

end
