(* ===== verification/Ledger_Lifecycle.thy ===== *)
theory Ledger_Lifecycle
  imports Budget
begin

text \<open>
  The life of a run's budget ledger. The repository keeps, beside the ledger, the reservation and
  the last cumulative usage of every unfinished logical task, and passes exactly these to
  \<open>reconcile_cumulative_with_ceiling\<close> (\<open>repository/materialize.rs\<close>, \<open>reconcile_outcome_usage\<close>;
  \<open>repository/outcome.rs\<close> stores the returned remaining reservation). The step relation below is
  that discipline; its invariants say what the ledger accounts for.
\<close>

section \<open>Steps\<close>

record 't ledger_run =
  lr_ledger :: budget_ledger
  lr_tasks :: "'t \<rightharpoonup> execution_estimate \<times> execution_usage"
  lr_settled :: nat

definition ledger_start :: "execution_budget_limit \<Rightarrow> 't ledger_run" where
  "ledger_start limit =
     \<lparr>lr_ledger = budget_ledger_new limit, lr_tasks = Map.empty, lr_settled = 0\<rparr>"

inductive ledger_step :: "u64 \<Rightarrow> 't ledger_run \<Rightarrow> 't ledger_run \<Rightarrow> bool" for ceiling :: u64 where
  reserve_task:
    "lr_tasks s t = None \<Longrightarrow> est_tasks q = 1 \<Longrightarrow> try_reserve (lr_ledger s) q = (Inr (), L') \<Longrightarrow>
     ledger_step ceiling s (s\<lparr>lr_ledger := L', lr_tasks := (lr_tasks s)(t \<mapsto> (q, zero_usage))\<rparr>)"
| report_progress:
    "lr_tasks s t = Some (r, p) \<Longrightarrow>
     reconcile_cumulative_with_ceiling (lr_ledger s) r p c False ceiling = (Inr ev, L') \<Longrightarrow>
     ledger_step ceiling s
       (s\<lparr>lr_ledger := L', lr_tasks := (lr_tasks s)(t \<mapsto> (br_remaining_task_reservation ev, c))\<rparr>)"
| settle_task:
    "lr_tasks s t = Some (r, p) \<Longrightarrow>
     reconcile_cumulative_with_ceiling (lr_ledger s) r p c True ceiling = (Inr ev, L') \<Longrightarrow>
     ledger_step ceiling s
       (s\<lparr>lr_ledger := L', lr_tasks := (lr_tasks s)(t := None), lr_settled := Suc (lr_settled s)\<rparr>)"
| settle_unreserved:
    "lr_tasks s t = None \<Longrightarrow>
     reconcile_cumulative_with_ceiling (lr_ledger s) estimate_default p c True ceiling
       = (Inr ev, L') \<Longrightarrow>
     ledger_step ceiling s (s\<lparr>lr_ledger := L', lr_settled := Suc (lr_settled s)\<rparr>)"

inductive ledger_reach :: "execution_budget_limit \<Rightarrow> u64 \<Rightarrow> 't ledger_run \<Rightarrow> bool"
  for limit :: execution_budget_limit and ceiling :: u64 where
  reach_start: "ledger_reach limit ceiling (ledger_start limit)"
| reach_step:
    "ledger_reach limit ceiling s \<Longrightarrow> ledger_step ceiling s s' \<Longrightarrow> ledger_reach limit ceiling s'"

section \<open>Invariant\<close>

definition held :: "('t \<rightharpoonup> execution_estimate \<times> execution_usage) \<Rightarrow> dim \<Rightarrow> nat" where
  "held T d = (\<Sum>t\<in>dom T. est_at (fst (the (T t))) d)"

definition ledger_inv :: "execution_budget_limit \<Rightarrow> u64 \<Rightarrow> 't ledger_run \<Rightarrow> bool" where
  "ledger_inv limit ceiling s \<longleftrightarrow>
     finite (dom (lr_tasks s))
     \<and> (\<forall>t r p. lr_tasks s t = Some (r, p) \<longrightarrow> est_tasks r = 1)
     \<and> (\<forall>d. est_at (bl_reserved (lr_ledger s)) d = held (lr_tasks s) d)
     \<and> est_at (bl_consumed (lr_ledger s)) Tasks = min (lr_settled s) (unat ceiling)
     \<and> bl_limit (lr_ledger s) = limit
     \<and> (\<not> bl_overrun (lr_ledger s) \<longrightarrow>
          (\<forall>d. dim_fits (min (est_at (bl_consumed (lr_ledger s)) d
                               + est_at (bl_reserved (lr_ledger s)) d) (2 ^ 64 - 1))
                         (limit_at limit d)))"

lemma held_insert:
  "finite (dom T) \<Longrightarrow> T t = None \<Longrightarrow> held (T(t \<mapsto> v)) d = est_at (fst v) d + held T d"
proof -
  assume fin: "finite (dom T)" and new: "T t = None"
  have "(\<Sum>u\<in>dom T. est_at (fst (the ((T(t \<mapsto> v)) u))) d) = (\<Sum>u\<in>dom T. est_at (fst (the (T u))) d)"
    using new by (intro sum.cong) auto
  moreover have "t \<notin> dom T" using new by (simp add: domIff)
  ultimately show ?thesis using fin by (simp add: held_def)
qed

lemma held_remove:
  assumes "finite (dom T)" and "T t = Some v"
  shows "held T d = est_at (fst v) d + held (T(t := None)) d"
proof -
  have "held ((T(t := None))(t \<mapsto> v)) d = est_at (fst v) d + held (T(t := None)) d"
    using assms by (intro held_insert) auto
  moreover have "(T(t := None))(t \<mapsto> v) = T"
    using assms by (auto simp: fun_eq_iff)
  ultimately show ?thesis by simp
qed

lemma held_update:
  assumes "finite (dom T)" and "T t = Some v"
  shows "held (T(t \<mapsto> w)) d + est_at (fst v) d = held T d + est_at (fst w) d"
proof -
  have "held (T(t \<mapsto> w)) d = est_at (fst w) d + held (T(t := None)) d"
    using held_insert [of "T(t := None)" t w d] assms by simp
  with held_remove [OF assms, of d] show ?thesis by simp
qed

lemma dim_fits_mono: "dim_fits n l \<Longrightarrow> m \<le> n \<Longrightarrow> dim_fits m l"
  by (auto simp: dim_fits_def split: option.splits)

lemma ledger_inv_start: "ledger_inv limit ceiling (ledger_start limit)"
  by (auto simp: ledger_inv_def ledger_start_def budget_ledger_new_def held_def dim_fits_def
      split: option.splits)

lemma ledger_inv_reserve:
  assumes inv: "ledger_inv limit ceiling s" and new: "lr_tasks s t = None"
    and one: "est_tasks q = 1" and res: "try_reserve (lr_ledger s) q = (Inr (), L')"
  shows "ledger_inv limit ceiling
    (s\<lparr>lr_ledger := L', lr_tasks := (lr_tasks s)(t \<mapsto> (q, zero_usage))\<rparr>)"
proof -
  obtain nxt where nxt: "\<forall>d. est_at nxt d = est_at (bl_reserved (lr_ledger s)) d + est_at q d"
    and L': "L' = (lr_ledger s)\<lparr>bl_reserved := nxt\<rparr>"
    using res unfolding try_reserve_ok by blast
  have fits: "dim_fits (est_at (bl_consumed (lr_ledger s)) d + est_at nxt d)
                 (limit_at (bl_limit (lr_ledger s)) d)" for d
    using res nxt by (simp add: try_reserve_ok admissible_def add.assoc)
  have fin: "finite (dom (lr_tasks s))" using inv by (simp add: ledger_inv_def)
  have "dim_fits (min (est_at (bl_consumed (lr_ledger s)) d + est_at nxt d) (2 ^ 64 - 1))
                 (limit_at (bl_limit (lr_ledger s)) d)" for d
    by (rule dim_fits_mono [OF fits]) simp
  with inv nxt one L' show ?thesis
    by (auto simp: ledger_inv_def held_insert [OF fin new])
qed

lemma ledger_inv_progress:
  assumes inv: "ledger_inv limit ceiling s" and task: "lr_tasks s t = Some (r, p)"
    and rec: "reconcile_cumulative_with_ceiling (lr_ledger s) r p c False ceiling = (Inr ev, L')"
  shows "ledger_inv limit ceiling (s\<lparr>lr_ledger := L',
           lr_tasks := (lr_tasks s)(t \<mapsto> (br_remaining_task_reservation ev, c))\<rparr>)"
proof -
  note eff = reconcile_effect [OF rec]
  have "est_tasks r = 1" using inv task unfolding ledger_inv_def by blast
  then have one: "est_at r Tasks = 1" by simp
  have fin: "finite (dom (lr_tasks s))"
    and sum: "\<And>d. est_at (bl_reserved (lr_ledger s)) d = held (lr_tasks s) d"
    and settled: "est_at (bl_consumed (lr_ledger s)) Tasks = min (lr_settled s) (unat ceiling)"
    using inv by (auto simp: ledger_inv_def)
  have "est_at (bl_reserved L') d =
          held ((lr_tasks s)(t \<mapsto> (br_remaining_task_reservation ev, c))) d" for d
    using held_update [OF fin task, of "(br_remaining_task_reservation ev, c)" d] eff(2) [of d]
      eff(4) [of d] eff(6) [of d] one sum [of d]
    by (cases d) (auto simp: min_def split: if_splits)
  moreover have "est_at (bl_consumed L') Tasks = min (lr_settled s) (unat ceiling)"
    using eff(5) [of Tasks] settled by (simp add: usage_charge_def)
  moreover have "est_tasks (br_remaining_task_reservation ev) = 1"
    using eff(6) [of Tasks] by (simp add: word_unat_eq_iff)
  ultimately show ?thesis
    using inv eff(7, 9) by (auto simp: ledger_inv_def no_overrun_def)
qed

lemma ledger_inv_settle:
  assumes inv: "ledger_inv limit ceiling s"
    and rec: "reconcile_cumulative_with_ceiling (lr_ledger s) r p c True ceiling = (Inr ev, L')"
    and fin: "finite (dom T)" and ones: "\<forall>t r p. T t = Some (r, p) \<longrightarrow> est_tasks r = 1"
    and sum: "\<And>d. held (lr_tasks s) d = est_at r d + held T d"
  shows "ledger_inv limit ceiling
           (s\<lparr>lr_ledger := L', lr_tasks := T, lr_settled := Suc (lr_settled s)\<rparr>)"
proof -
  note eff = reconcile_effect [OF rec]
  have "est_at (bl_reserved L') d = held T d" for d
    using eff(4) [of d] sum [of d] inv by (simp add: ledger_inv_def)
  moreover have "est_at (bl_consumed L') Tasks = min (Suc (lr_settled s)) (unat ceiling)"
    using eff(5) [of Tasks] inv by (simp add: usage_charge_def ledger_inv_def)
  ultimately show ?thesis
    using inv fin ones eff(7, 9) by (auto simp: ledger_inv_def no_overrun_def)
qed

lemma ledger_inv_step:
  "ledger_step ceiling s s' \<Longrightarrow> ledger_inv limit ceiling s \<Longrightarrow> ledger_inv limit ceiling s'"
proof (induction rule: ledger_step.cases)
  case (settle_task s t r p c ev L')
  then have "ledger_inv limit ceiling (s\<lparr>lr_ledger := L', lr_tasks := (lr_tasks s)(t := None),
      lr_settled := Suc (lr_settled s)\<rparr>)"
    by (intro ledger_inv_settle [where r = r and p = p and c = c and ev = ev])
      (auto simp: held_remove [of "lr_tasks s" t "(r, p)"] ledger_inv_def split: if_splits)
  with settle_task show ?case by simp
next
  case (settle_unreserved s t p c ev L')
  then have "ledger_inv limit ceiling (s\<lparr>lr_ledger := L', lr_tasks := lr_tasks s,
      lr_settled := Suc (lr_settled s)\<rparr>)"
    by (intro ledger_inv_settle [where r = estimate_default and p = p and c = c and ev = ev])
      (auto simp: ledger_inv_def)
  with settle_unreserved show ?case by simp
qed (simp_all add: ledger_inv_reserve ledger_inv_progress)

lemma ledger_reach_inv: "ledger_reach limit ceiling s \<Longrightarrow> ledger_inv limit ceiling s"
  by (induction rule: ledger_reach.induct) (simp_all add: ledger_inv_start ledger_inv_step)

section \<open>Properties\<close>




text \<open>A run with one task reserved.\<close>

definition sample_run :: "nat ledger_run" where
  "sample_run = (ledger_start sample_limit)\<lparr>lr_ledger := sample_ledger,
     lr_tasks := Map.empty(0 \<mapsto> (sample_request, zero_usage))\<rparr>"

lemma sample_run_reach: "ledger_reach sample_limit 9223372036854775807 sample_run"
proof -
  have "try_reserve (budget_ledger_new sample_limit) sample_request = (Inr (), sample_ledger)"
    by code_simp
  then have "ledger_step 9223372036854775807 (ledger_start sample_limit) sample_run"
    using reserve_task [where s = "ledger_start sample_limit :: nat ledger_run" and t = 0
        and q = sample_request and L' = sample_ledger]
    by (simp add: sample_run_def ledger_start_def sample_request_def)
  then show ?thesis by (rule reach_step [OF reach_start])
qed




end
