(* ===== verification/Json.thy ===== *)
theory Json
  imports Moa_Prelude
begin

text \<open>
  JSON values and their canonical byte form (\<open>moa-core/src/canonical_json.rs\<close>). A value is the data
  of \<open>serde_json::Value\<close>: an object keeps its entries in insertion order with distinct keys, and
  two objects are equal when they hold equal values under the same keys. How that crate renders a
  number or a string and how it walks a pointer are parameters (the record \<open>serde_lib\<close>); what the
  proofs use of them is the predicate \<open>json_text_ok\<close>.
\<close>

section \<open>Values\<close>

text \<open>A number is an unsigned integer, a negative integer or a finite double (its bit pattern).\<close>

datatype number = PosInt u64 | NegInt u64 | Float u64

datatype json =
    JNull
  | JBool bool
  | JNumber number
  | JString string
  | JArray "json list"
  | JObject "(string \<times> json) list"

type_synonym object = "(string \<times> json) list"

record serde_lib =
  number_text :: "number \<Rightarrow> string"
  string_text :: "string \<Rightarrow> string"
  json_pointer :: "json \<Rightarrow> string \<Rightarrow> json option"

definition obj_get :: "object \<Rightarrow> string \<Rightarrow> json option" where
  "obj_get kvs k = map_of kvs k"

definition obj_contains :: "object \<Rightarrow> string \<Rightarrow> bool" where
  "obj_contains kvs k = (k \<in> fst ` set kvs)"

primrec obj_insert :: "object \<Rightarrow> string \<Rightarrow> json \<Rightarrow> object" where
  "obj_insert [] k v = [(k, v)]"
| "obj_insert (kv # kvs) k v = (if fst kv = k then (k, v) # kvs else kv # obj_insert kvs k v)"

fun as_object :: "json \<Rightarrow> object option" where
  "as_object (JObject kvs) = Some kvs"
| "as_object _ = None"

fun as_array :: "json \<Rightarrow> json list option" where
  "as_array (JArray xs) = Some xs"
| "as_array _ = None"

fun as_str :: "json \<Rightarrow> string option" where
  "as_str (JString s) = Some s"
| "as_str _ = None"

fun as_bool :: "json \<Rightarrow> bool option" where
  "as_bool (JBool b) = Some b"
| "as_bool _ = None"

text \<open>Objects come from maps, so their keys are distinct at every level.\<close>

fun json_wf :: "json \<Rightarrow> bool" where
  "json_wf (JArray xs) = (\<forall>x\<in>set xs. json_wf x)"
| "json_wf (JObject kvs) = (distinct (map fst kvs) \<and> (\<forall>kv\<in>set kvs. json_wf (snd kv)))"
| "json_wf _ = True"

definition float_zero :: "u64 \<Rightarrow> bool" where
  "float_zero w = (w = 0 \<or> w = 9223372036854775808)"

text \<open>Equality of finite doubles is equality of bits, except that the two zeros are equal.\<close>

fun number_eq :: "number \<Rightarrow> number \<Rightarrow> bool" where
  "number_eq (PosInt a) (PosInt b) = (a = b)"
| "number_eq (NegInt a) (NegInt b) = (a = b)"
| "number_eq (Float a) (Float b) = (a = b \<or> float_zero a \<and> float_zero b)"
| "number_eq _ _ = False"

lemma size_object_entry [termination_simp]:
  "kv \<in> set kvs \<Longrightarrow> size (snd kv) < Suc (size_list (size_prod (\<lambda>_. 0) size) kvs)"
  by (induction kvs) auto

function (sequential) json_eq :: "json \<Rightarrow> json \<Rightarrow> bool" where
  "json_eq JNull JNull = True"
| "json_eq (JBool a) (JBool b) = (a = b)"
| "json_eq (JNumber a) (JNumber b) = number_eq a b"
| "json_eq (JString a) (JString b) = (a = b)"
| "json_eq (JArray xs) (JArray ys) =
     (length xs = length ys \<and> (\<forall>(x, y)\<in>set (zip xs ys). json_eq x y))"
| "json_eq (JObject kvs) (JObject kws) =
     (length kvs = length kws \<and>
      (\<forall>kv\<in>set kvs. case obj_get kws (fst kv) of None \<Rightarrow> False | Some w \<Rightarrow> json_eq (snd kv) w))"
| "json_eq _ _ = False"
  by pat_completeness auto
termination json_eq
  by (relation "measure (size \<circ> fst)")
    (auto dest!: set_zip_leftD intro: le_imp_less_Suc simp: size_list_estimation' size_object_entry)

section \<open>Canonical form\<close>

fun write_canonical_value :: "serde_lib \<Rightarrow> json \<Rightarrow> string" where
  "write_canonical_value lib JNull = ''null''"
| "write_canonical_value lib (JBool b) = (if b then ''true'' else ''false'')"
| "write_canonical_value lib (JNumber n) = number_text lib n"
| "write_canonical_value lib (JString s) = string_text lib s"
| "write_canonical_value lib (JArray xs) =
     ''['' @ join '','' (map (write_canonical_value lib) xs) @ '']''"
| "write_canonical_value lib (JObject kvs) =
     ''{'' @ join '','' (map (\<lambda>kv. string_text lib (fst kv) @ '':'' @ snd kv)
                (sort_key fst (map (\<lambda>kv. (fst kv, write_canonical_value lib (snd kv))) kvs))) @ ''}''"

definition canonical_json_bytes :: "serde_lib \<Rightarrow> json \<Rightarrow> string" where
  "canonical_json_bytes lib v = write_canonical_value lib v"

section \<open>What the text of a value determines\<close>

definition number_char :: "char \<Rightarrow> bool" where
  "number_char c = (is_ascii_digit c \<or> c \<in> set ''-+.eE'')"

text \<open>Documented behaviour of the JSON printer: numbers are printed with number characters only,
  different numbers differently; a string literal opens with a quote and its end can be found, so
  that the literal determines the string.\<close>

definition json_text_ok :: "serde_lib \<Rightarrow> bool" where
  "json_text_ok lib \<longleftrightarrow>
     (\<forall>n. number_text lib n \<noteq> [] \<and> list_all number_char (number_text lib n))
     \<and> (\<forall>m n. number_text lib m = number_text lib n \<longrightarrow> m = n)
     \<and> (\<forall>s. \<exists>t. string_text lib s = CHR 0x22 # t)
     \<and> (\<forall>s t r q. string_text lib s @ r = string_text lib t @ q \<longrightarrow> s = t \<and> r = q)"

text \<open>Entries sorted by key at every level; the text without sorting.\<close>

fun json_norm :: "json \<Rightarrow> json" where
  "json_norm (JArray xs) = JArray (map json_norm xs)"
| "json_norm (JObject kvs) =
     JObject (sort_key fst (map (\<lambda>kv. (fst kv, json_norm (snd kv))) kvs))"
| "json_norm v = v"

fun json_text :: "serde_lib \<Rightarrow> json \<Rightarrow> string" where
  "json_text lib JNull = ''null''"
| "json_text lib (JBool b) = (if b then ''true'' else ''false'')"
| "json_text lib (JNumber n) = number_text lib n"
| "json_text lib (JString s) = string_text lib s"
| "json_text lib (JArray xs) = ''['' @ join '','' (map (json_text lib) xs) @ '']''"
| "json_text lib (JObject kvs) =
     ''{'' @ join '','' (map (\<lambda>kv. string_text lib (fst kv) @ '':'' @ json_text lib (snd kv)) kvs) @ ''}''"

lemma insort_key_map:
  "insort_key fst (fst kv, f (snd kv)) (map (\<lambda>kv. (fst kv, f (snd kv))) kvs)
     = map (\<lambda>kv. (fst kv, f (snd kv))) (insort_key fst kv kvs)"
  by (induction kvs) auto

lemma sort_key_map_snd:
  "sort_key fst (map (\<lambda>kv. (fst kv, f (snd kv))) kvs)
     = map (\<lambda>kv. (fst kv, f (snd kv))) (sort_key fst kvs)"
  by (induction kvs) (auto simp: insort_key_map)

lemma canonical_is_text_of_norm: "write_canonical_value lib v = json_text lib (json_norm v)"
proof (induction v)
  case (JArray xs)
  then show ?case by (auto intro!: arg_cong [where f = "join _"])
next
  case (JObject kvs)
  then have "write_canonical_value lib (snd kv) = json_text lib (json_norm (snd kv))"
    if "kv \<in> set (sort_key fst kvs)" for kv
    using that by (metis set_sort snds.intros snd_conv prod.collapse)
  then show ?case
    by (auto simp: sort_key_map_snd [of "write_canonical_value lib"] sort_key_map_snd [of json_norm]
        intro!: arg_cong [where f = "join _"])
qed auto

definition delimited :: "string \<Rightarrow> bool" where
  "delimited r \<longleftrightarrow> (case r of [] \<Rightarrow> True | c # _ \<Rightarrow> c \<in> set '',]}'')"

text \<open>A writer is prefix-free when the text of a value, followed by a delimiter, determines it.\<close>

definition prefix_free_at :: "('a \<Rightarrow> string) \<Rightarrow> 'a \<Rightarrow> bool" where
  "prefix_free_at w x \<longleftrightarrow>
     (\<forall>y r s. delimited r \<longrightarrow> delimited s \<longrightarrow> w x @ r = w y @ s \<longrightarrow> x = y \<and> r = s)"

lemma join_prefix_free:
  assumes "\<forall>x\<in>set xs. prefix_free_at w x" and "\<And>y. \<exists>c t. w y = c # t \<and> c \<noteq> close"
    and "close \<in> set '']}''"
    and "join '','' (map w xs) @ close # r = join '','' (map w ys) @ close # s"
  shows "xs = ys \<and> r = s"
  using assms(1, 4)
proof (induction xs arbitrary: ys)
  case Nil
  show ?case
  proof (cases ys)
    case (Cons y ys')
    obtain c t where "w y = c # t" "c \<noteq> close" using assms(2) by blast
    with Nil Cons show ?thesis by (cases ys') auto
  qed (use Nil in simp)
next
  case (Cons x xs)
  let ?tail = "\<lambda>zs q. if zs = [] then close # q else CHR '','' # join '','' (map w zs) @ close # q"
  have split: "join '','' (map w (z # zs)) @ close # q = w z @ ?tail zs q" for z zs q
    by (cases zs) auto
  have delim: "delimited (?tail zs q)" for zs q
    using assms(3) by (auto simp: delimited_def)
  show ?case
  proof (cases ys)
    case ys: Nil
    obtain c t where "w x = c # t" "c \<noteq> close" using assms(2) by blast
    moreover have "w x @ ?tail xs r = close # s"
      using Cons.prems(2) unfolding ys split by simp
    ultimately show ?thesis by simp
  next
    case ys: (Cons y ys')
    have "w x @ ?tail xs r = w y @ ?tail ys' s"
      using Cons.prems(2) unfolding ys split .
    moreover have "prefix_free_at w x" using Cons.prems(1) by simp
    ultimately have "x = y" and tails: "?tail xs r = ?tail ys' s"
      using delim [of xs r] delim [of ys' s] unfolding prefix_free_at_def by blast+
    have "xs = ys' \<and> r = s"
    proof (cases "xs = [] \<or> ys' = []")
      case True
      with tails assms(3) show ?thesis by (auto split: if_splits)
    next
      case False
      with tails have "join '','' (map w xs) @ close # r = join '','' (map w ys') @ close # s"
        by simp
      with Cons.IH [of ys'] Cons.prems(1) show ?thesis by simp
    qed
    with \<open>x = y\<close> ys show ?thesis by simp
  qed
qed

fun head_class :: "json \<Rightarrow> char \<Rightarrow> bool" where
  "head_class JNull c = (c = CHR ''n'')"
| "head_class (JBool b) c = (c = (if b then CHR ''t'' else CHR ''f''))"
| "head_class (JNumber n) c = number_char c"
| "head_class (JString s) c = (c = CHR 0x22)"
| "head_class (JArray xs) c = (c = CHR ''['')"
| "head_class (JObject kvs) c = (c = CHR ''{'')"

lemma number_char_not:
  "number_char c \<Longrightarrow> c \<notin> {CHR ''n'', CHR ''t'', CHR ''f'', CHR 0x22, CHR ''['', CHR ''{'',
     CHR '','', CHR '']'', CHR ''}''}"
  by (auto simp: number_char_def is_ascii_digit_def less_eq_char_def)

lemma json_text_head:
  assumes "json_text_ok lib"
  shows "\<exists>c t. json_text lib v = c # t \<and> head_class v c"
proof (cases v)
  case (JNumber n)
  have "number_text lib n \<noteq> []" "list_all number_char (number_text lib n)"
    using assms by (simp_all add: json_text_ok_def)
  with JNumber show ?thesis by (cases "number_text lib n") auto
next
  case (JString s)
  obtain t where "string_text lib s = CHR 0x22 # t"
    using assms unfolding json_text_ok_def by blast
  with JString show ?thesis by simp
qed auto

lemma json_text_head_close:
  assumes "json_text_ok lib" and "close \<in> set '']}''"
  shows "\<exists>c t. json_text lib v = c # t \<and> c \<noteq> close"
proof -
  obtain c t where t: "json_text lib v = c # t" and "head_class v c"
    using json_text_head [OF assms(1)] by blast
  then have "c \<noteq> close"
    using assms(2) number_char_not [of c] by (cases v) (auto split: if_splits)
  with t show ?thesis by blast
qed

lemma head_class_eq:
  "head_class v c \<Longrightarrow> head_class w c \<Longrightarrow>
     (\<exists>m n. v = JNumber m \<and> w = JNumber n) \<or> (\<exists>s t. v = JString s \<and> w = JString t)
     \<or> (\<exists>xs ys. v = JArray xs \<and> w = JArray ys) \<or> (\<exists>kvs kws. v = JObject kvs \<and> w = JObject kws)
     \<or> v = w"
  using number_char_not [of c] by (cases v; cases w) (auto split: if_splits)

lemma takeWhile_number:
  "list_all number_char t \<Longrightarrow> delimited r \<Longrightarrow> takeWhile number_char (t @ r) = t"
proof -
  assume t: "list_all number_char t" and r: "delimited r"
  have "takeWhile number_char r = []"
  proof (cases r)
    case (Cons c r')
    with r show ?thesis using number_char_not [of c] by (auto simp: delimited_def)
  qed simp
  with t show ?thesis by (simp add: list_all_iff takeWhile_append)
qed

lemma number_prefix_free:
  assumes "json_text_ok lib" and "delimited r" and "delimited s"
    and "number_text lib m @ r = number_text lib n @ s"
  shows "m = n \<and> r = s"
proof -
  have all: "list_all number_char (number_text lib k)" for k
    using assms(1) by (simp add: json_text_ok_def)
  have eq: "number_text lib m = number_text lib n"
    using takeWhile_number [OF all assms(2), of m] takeWhile_number [OF all assms(3), of n] assms(4)
    by simp
  then have "m = n" using assms(1) unfolding json_text_ok_def by blast
  with eq assms(4) show ?thesis by simp
qed

lemma entry_prefix_free:
  assumes "json_text_ok lib" and "prefix_free_at (json_text lib) (snd kv)"
  shows "prefix_free_at (\<lambda>kv. string_text lib (fst kv) @ '':'' @ json_text lib (snd kv)) kv"
  unfolding prefix_free_at_def
proof (intro allI impI)
  fix kw r s
  assume d: "delimited r" "delimited s"
    and eq: "(string_text lib (fst kv) @ '':'' @ json_text lib (snd kv)) @ r
       = (string_text lib (fst kw) @ '':'' @ json_text lib (snd kw)) @ s"
  then have "string_text lib (fst kv) @ (CHR '':'' # json_text lib (snd kv) @ r)
       = string_text lib (fst kw) @ (CHR '':'' # json_text lib (snd kw) @ s)" by simp
  with assms(1) have "fst kv = fst kw"
    and "CHR '':'' # json_text lib (snd kv) @ r = CHR '':'' # json_text lib (snd kw) @ s"
    unfolding json_text_ok_def by blast+
  then have "json_text lib (snd kv) @ r = json_text lib (snd kw) @ s" by simp
  with assms(2) d have "snd kv = snd kw \<and> r = s" unfolding prefix_free_at_def by blast
  with \<open>fst kv = fst kw\<close> show "kv = kw \<and> r = s" by (simp add: prod_eq_iff)
qed

lemma json_same_kind:
  assumes "json_text_ok lib" and "json_text lib v @ r = json_text lib w @ s"
  shows "(\<exists>m n. v = JNumber m \<and> w = JNumber n) \<or> (\<exists>s t. v = JString s \<and> w = JString t)
     \<or> (\<exists>xs ys. v = JArray xs \<and> w = JArray ys) \<or> (\<exists>kvs kws. v = JObject kvs \<and> w = JObject kws)
     \<or> v = w"
proof -
  obtain c t where "json_text lib v = c # t" "head_class v c"
    using json_text_head [OF assms(1)] by blast
  moreover obtain d u where "json_text lib w = d # u" "head_class w d"
    using json_text_head [OF assms(1)] by blast
  ultimately show ?thesis using head_class_eq assms(2) by simp
qed

lemma array_prefix_free:
  assumes ok: "json_text_ok lib" and "\<forall>x\<in>set xs. prefix_free_at (json_text lib) x"
    and eq: "json_text lib (JArray xs) @ r = json_text lib w @ s"
  shows "JArray xs = w \<and> r = s"
proof -
  obtain ys where w: "w = JArray ys"
    using json_same_kind [OF ok eq] by auto
  with eq have "join '','' (map (json_text lib) xs) @ CHR '']'' # r
      = join '','' (map (json_text lib) ys) @ CHR '']'' # s" by simp
  from join_prefix_free [OF assms(2) json_text_head_close [OF ok] _ this] w show ?thesis by simp
qed

lemma object_prefix_free:
  assumes ok: "json_text_ok lib" and sub: "\<forall>kv\<in>set kvs. prefix_free_at (json_text lib) (snd kv)"
    and eq: "json_text lib (JObject kvs) @ r = json_text lib w @ s"
  shows "JObject kvs = w \<and> r = s"
proof -
  let ?w = "\<lambda>kv. string_text lib (fst kv) @ '':'' @ json_text lib (snd kv)"
  have entries: "\<forall>kv\<in>set kvs. prefix_free_at ?w kv"
    using entry_prefix_free [OF ok] sub by blast
  have heads: "\<exists>c t. ?w kv = c # t \<and> c \<noteq> CHR ''}''" for kv
  proof -
    obtain t where "string_text lib (fst kv) = CHR 0x22 # t"
      using ok unfolding json_text_ok_def by blast
    then show ?thesis by simp
  qed
  obtain kws where w: "w = JObject kws"
    using json_same_kind [OF ok eq] by auto
  with eq have "join '','' (map ?w kvs) @ CHR ''}'' # r = join '','' (map ?w kws) @ CHR ''}'' # s"
    by simp
  from join_prefix_free [OF entries heads _ this] w show ?thesis by simp
qed

lemma json_text_prefix_free:
  assumes ok: "json_text_ok lib"
  shows "prefix_free_at (json_text lib) v"
proof (induction v)
  case (JArray xs)
  then show ?case
    using array_prefix_free [OF ok] unfolding prefix_free_at_def by blast
next
  case (JObject kvs)
  then have "\<forall>kv\<in>set kvs. prefix_free_at (json_text lib) (snd kv)"
    by (metis snds.intros)
  then show ?case
    using object_prefix_free [OF ok] unfolding prefix_free_at_def by blast
next
  case (JNumber n)
  show ?case
    unfolding prefix_free_at_def
  proof (intro allI impI)
    fix w r s
    assume d: "delimited r" "delimited s" and eq: "json_text lib (JNumber n) @ r = json_text lib w @ s"
    obtain m where "w = JNumber m"
      using json_same_kind [OF ok eq] by auto
    with number_prefix_free [OF ok d, of n m] eq show "JNumber n = w \<and> r = s" by simp
  qed
next
  case (JString t)
  show ?case
    unfolding prefix_free_at_def
  proof (intro allI impI)
    fix w r s
    assume eq: "json_text lib (JString t) @ r = json_text lib w @ s"
    obtain u where w: "w = JString u"
      using json_same_kind [OF ok eq] by auto
    with eq have "string_text lib t @ r = string_text lib u @ s" by simp
    then have "t = u \<and> r = s" using ok unfolding json_text_ok_def by blast
    with w show "JString t = w \<and> r = s" by simp
  qed
next
  case JNull
  show ?case
    unfolding prefix_free_at_def using json_same_kind [OF ok, of JNull] by fastforce
next
  case (JBool b)
  show ?case
    unfolding prefix_free_at_def using json_same_kind [OF ok, of "JBool b"] by fastforce
qed

section \<open>Canonical text and equality\<close>

text \<open>Values without a negative zero, the one double whose equality is not equality of bits.\<close>

fun no_negative_zero :: "json \<Rightarrow> bool" where
  "no_negative_zero (JNumber (Float w)) = (w \<noteq> 9223372036854775808)"
| "no_negative_zero (JArray xs) = (\<forall>x\<in>set xs. no_negative_zero x)"
| "no_negative_zero (JObject kvs) = (\<forall>kv\<in>set kvs. no_negative_zero (snd kv))"
| "no_negative_zero _ = True"

lemma number_eq_refl [simp]: "number_eq n n"
  by (cases n) auto

lemma json_norm_inv:
  "JArray ys = json_norm w \<longleftrightarrow> (\<exists>xs. w = JArray xs \<and> ys = map json_norm xs)"
  "JObject kws = json_norm w \<longleftrightarrow>
     (\<exists>kvs. w = JObject kvs \<and> kws = sort_key fst (map (\<lambda>kv. (fst kv, json_norm (snd kv))) kvs))"
  "JNull = json_norm w \<longleftrightarrow> w = JNull" "JBool b = json_norm w \<longleftrightarrow> w = JBool b"
  "JNumber n = json_norm w \<longleftrightarrow> w = JNumber n" "JString s = json_norm w \<longleftrightarrow> w = JString s"
  by (cases w; auto)+

lemma norm_imp_json_eq:
  "json_wf v \<Longrightarrow> json_wf w \<Longrightarrow> json_norm v = json_norm w \<Longrightarrow> json_eq v w"
proof (induction v arbitrary: w)
  case (JArray xs)
  then obtain ys where w: "w = JArray ys" and eq: "map json_norm xs = map json_norm ys"
    by (auto simp only: json_norm.simps json_norm_inv)
  have len: "length xs = length ys" using eq by (rule map_eq_imp_length_eq)
  have "json_eq (xs ! i) (ys ! i)" if "i < length xs" for i
  proof (rule JArray.IH)
    show "xs ! i \<in> set xs" using that by (rule nth_mem)
    show "json_wf (xs ! i)" using JArray.prems(1) that by simp
    show "json_wf (ys ! i)" using JArray.prems(2) that len w by simp
    show "json_norm (xs ! i) = json_norm (ys ! i)"
      using arg_cong [OF eq, of "\<lambda>zs. zs ! i"] that len by simp
  qed
  then show ?case using w len by (auto simp: set_zip)
next
  case (JObject kvs)
  let ?f = "\<lambda>kv. (fst kv, json_norm (snd kv))"
  from JObject.prems(3) obtain kws where w: "w = JObject kws"
    and eq: "sort_key fst (map ?f kvs) = sort_key fst (map ?f kws)"
    by (auto simp only: json_norm.simps json_norm_inv)
  from arg_cong [OF eq, of set] have sets: "?f ` set kvs = ?f ` set kws"
    by (simp only: set_map set_sort)
  have "case obj_get kws (fst kv) of None \<Rightarrow> False | Some w \<Rightarrow> json_eq (snd kv) w"
    if kv: "kv \<in> set kvs" for kv
  proof -
    have "?f kv \<in> ?f ` set kws" unfolding sets [symmetric] using kv by (rule imageI)
    then obtain kw where kw: "kw \<in> set kws" "fst kw = fst kv" "json_norm (snd kv) = json_norm (snd kw)"
      by auto
    have wf: "distinct (map fst kws)" "json_wf (snd kv)" "json_wf (snd kw)"
      using JObject.prems(1, 2) kv kw(1) w by simp_all
    have "(fst kv, snd kw) \<in> set kws" using kw(1, 2) by (metis prod.collapse)
    then have "obj_get kws (fst kv) = Some (snd kw)"
      unfolding obj_get_def by (rule map_of_is_SomeI [OF wf(1)])
    moreover have "json_eq (snd kv) (snd kw)"
      by (rule JObject.IH [OF kv _ wf(2, 3) kw(3)]) (rule snds.intros)
    ultimately show ?thesis by simp
  qed
  moreover have "length kvs = length kws"
    using arg_cong [OF eq, of length] by (simp only: length_map length_sort)
  ultimately show ?case unfolding w json_eq.simps by blast
qed (simp_all add: json_norm_inv)

lemma sorted_entries_unique:
  fixes kvs kws :: object
  assumes "distinct (map fst kvs)" and "distinct (map fst kws)" and "set kvs = set kws"
  shows "sort_key fst kvs = sort_key fst kws"
proof (rule map_sorted_distinct_set_unique [of fst])
  have inj: "inj_on fst (set kvs)" "inj_on fst (set kws)" and dist: "distinct kvs" "distinct kws"
    using assms(1, 2) by (simp_all only: distinct_map)
  show "inj_on fst (set (sort_key fst kvs) \<union> set (sort_key fst kws))"
    unfolding set_sort using inj assms(3) by simp
  show "distinct (map fst (sort_key fst kvs))" "distinct (map fst (sort_key fst kws))"
    unfolding distinct_map set_sort distinct_sort using inj dist by simp_all
  show "sorted (map fst (sort_key fst kvs))" "sorted (map fst (sort_key fst kws))"
    by (rule sorted_sort_key)+
  show "set (sort_key fst kvs) = set (sort_key fst kws)"
    unfolding set_sort by (rule assms(3))
qed

lemma json_eq_inv:
  "json_eq (JArray xs) w \<longleftrightarrow> (\<exists>ys. w = JArray ys \<and> length xs = length ys
     \<and> (\<forall>(x, y)\<in>set (zip xs ys). json_eq x y))"
  "json_eq (JObject kvs) w \<longleftrightarrow> (\<exists>kws. w = JObject kws \<and> length kvs = length kws \<and>
     (\<forall>kv\<in>set kvs. case obj_get kws (fst kv) of None \<Rightarrow> False | Some w \<Rightarrow> json_eq (snd kv) w))"
  "json_eq JNull w \<longleftrightarrow> w = JNull" "json_eq (JBool b) w \<longleftrightarrow> w = JBool b"
  "json_eq (JNumber n) w \<longleftrightarrow> (\<exists>m. w = JNumber m \<and> number_eq n m)"
  "json_eq (JString s) w \<longleftrightarrow> w = JString s"
  by (cases w; auto)+

lemma number_eq_exact:
  "no_negative_zero (JNumber m) \<Longrightarrow> no_negative_zero (JNumber n) \<Longrightarrow> number_eq m n \<Longrightarrow> m = n"
  by (cases m; cases n) (auto simp: float_zero_def)

lemma json_eq_imp_norm:
  "json_wf v \<Longrightarrow> json_wf w \<Longrightarrow> no_negative_zero v \<Longrightarrow> no_negative_zero w \<Longrightarrow> json_eq v w \<Longrightarrow>
     json_norm v = json_norm w"
proof (induction v arbitrary: w)
  case (JArray xs)
  then obtain ys where w: "w = JArray ys" and len: "length xs = length ys"
    and eq: "\<forall>(x, y)\<in>set (zip xs ys). json_eq x y"
    by (auto simp only: json_eq_inv)
  have "json_norm (xs ! i) = json_norm (ys ! i)" if i: "i < length xs" for i
  proof (rule JArray.IH)
    show "xs ! i \<in> set xs" using i by (rule nth_mem)
    show "json_wf (xs ! i)" "no_negative_zero (xs ! i)" using JArray.prems(1, 3) i by simp_all
    show "json_wf (ys ! i)" "no_negative_zero (ys ! i)" using JArray.prems(2, 4) i len w by simp_all
    have "(xs ! i, ys ! i) \<in> set (zip xs ys)" using i len by (auto simp: set_zip)
    from bspec [OF eq this] show "json_eq (xs ! i) (ys ! i)" by simp
  qed
  then show ?case using w len by (simp add: list_eq_iff_nth_eq)
next
  case (JObject kvs)
  let ?f = "\<lambda>kv. (fst kv, json_norm (snd kv))"
  from JObject.prems(5) obtain kws where w: "w = JObject kws" and len: "length kvs = length kws"
    and eq: "\<forall>kv\<in>set kvs. case obj_get kws (fst kv) of None \<Rightarrow> False | Some w \<Rightarrow> json_eq (snd kv) w"
    by (auto simp only: json_eq_inv)
  have dist: "distinct (map fst kvs)" "distinct (map fst kws)" using JObject.prems(1, 2) w by simp_all
  have fsts: "map fst (map ?f xs) = map fst xs" for xs :: object by simp
  have "?f kv \<in> ?f ` set kws" if kv: "kv \<in> set kvs" for kv
  proof -
    obtain u where u: "obj_get kws (fst kv) = Some u" "json_eq (snd kv) u"
      using bspec [OF eq kv] by (auto split: option.splits)
    then have mem: "(fst kv, u) \<in> set kws" unfolding obj_get_def by (intro map_of_SomeD)
    have "\<forall>kw\<in>set kws. json_wf (snd kw) \<and> no_negative_zero (snd kw)"
      using JObject.prems(2, 4) w by simp
    from bspec [OF this mem] have "json_wf u" "no_negative_zero u" by simp_all
    moreover have "json_wf (snd kv)" "no_negative_zero (snd kv)"
      using JObject.prems(1, 3) kv by simp_all
    ultimately have "json_norm (snd kv) = json_norm u"
      using u(2) by (intro JObject.IH [OF kv snds.intros])
    then have "?f kv = ?f (fst kv, u)" by simp
    then show ?thesis using mem by (rule image_eqI)
  qed
  then have sub: "set (map ?f kvs) \<subseteq> set (map ?f kws)"
    unfolding set_map by (rule image_subsetI)
  have card: "card (set (map ?f xs)) = length xs" if "distinct (map fst xs)" for xs :: object
  proof -
    have "distinct (map fst (map ?f xs))" using that by (simp only: fsts)
    then have "distinct (map ?f xs)" unfolding distinct_map [of fst] by (rule conjunct1)
    from distinct_card [OF this] show ?thesis by (simp only: length_map)
  qed
  have "set (map ?f kvs) = set (map ?f kws)"
    by (rule card_subset_eq [OF finite_set sub]) (simp only: card dist len)
  with dist have "sort_key fst (map ?f kvs) = sort_key fst (map ?f kws)"
    by (intro sorted_entries_unique) (simp_all only: fsts)
  then show ?case by (simp only: w json_norm.simps)
next
  case (JNumber n)
  then show ?case by (auto simp only: json_eq_inv dest: number_eq_exact)
qed (auto simp only: json_eq_inv)

lemma canonical_json_norm:
  assumes "json_text_ok lib"
  shows "canonical_json_bytes lib v = canonical_json_bytes lib w \<longleftrightarrow> json_norm v = json_norm w"
proof
  assume "canonical_json_bytes lib v = canonical_json_bytes lib w"
  then have "json_text lib (json_norm v) @ [] = json_text lib (json_norm w) @ []"
    by (simp only: canonical_json_bytes_def canonical_is_text_of_norm)
  moreover have "delimited []" by (simp add: delimited_def)
  ultimately show "json_norm v = json_norm w"
    using json_text_prefix_free [OF assms, of "json_norm v"] unfolding prefix_free_at_def by blast
qed (simp only: canonical_json_bytes_def canonical_is_text_of_norm)

section \<open>A printer\<close>

text \<open>A JSON printer that meets \<open>json_text_ok\<close>: decimal integers, and string literals whose quotes,
  backslashes and control bytes are escaped.\<close>

definition hex_char :: "nat \<Rightarrow> char" where
  "hex_char n = (if n < 10 then char_of (48 + n) else char_of (87 + n))"

definition escape_char :: "char \<Rightarrow> string" where
  "escape_char c =
     (if c = CHR 0x22 \<or> c = CHR 0x5C then [CHR 0x5C, c]
      else if (of_char c :: nat) < 32
      then [CHR 0x5C, CHR ''u'', CHR ''0'', CHR ''0'', hex_char (of_char c div 16),
            hex_char (of_char c mod 16)]
      else [c])"

definition sample_lib :: serde_lib where
  "sample_lib = \<lparr>
     number_text = (\<lambda>n. case n of PosInt w \<Rightarrow> show_nat (unat w) | NegInt w \<Rightarrow> ''-'' @ show_nat (unat w)
                     | Float w \<Rightarrow> show_nat (unat w) @ ''e0''),
     string_text = (\<lambda>s. [CHR 0x22] @ concat (map escape_char s) @ [CHR 0x22]),
     json_pointer = (\<lambda>v p. if p = [] then Some v else None)\<rparr>"

lemma of_char_hex: "n < 16 \<Longrightarrow> (of_char (hex_char n) :: nat) = (if n < 10 then 48 + n else 87 + n)"
  by (simp add: hex_char_def)

lemma hex_char_inj:
  assumes "m < 16" and "n < 16" and "hex_char m = hex_char n"
  shows "m = n"
  using arg_cong [OF assms(3), of "of_char :: char \<Rightarrow> nat"] assms(1, 2)
  by (simp add: of_char_hex split: if_splits)

lemma of_char_lt: "(of_char c :: nat) < 256"
  by (metis of_char_mod_256 mod_less_divisor zero_less_numeral)

lemma div16_of_char: "(of_char c :: nat) div 16 < 16"
  using of_char_lt [of c] by (simp add: less_mult_imp_div_less)

lemma escape_char_prefix_free:
  assumes "escape_char c @ r = escape_char d @ q"
  shows "c = d \<and> r = q"
proof -
  have hex: "c = d" if "hex_char (of_char c div 16) = hex_char (of_char d div 16)"
    and "hex_char (of_char c mod 16) = hex_char (of_char d mod 16)"
  proof -
    have "(of_char c :: nat) div 16 = of_char d div 16"
      using that(1) by (intro hex_char_inj) (simp_all only: div16_of_char)
    moreover have "(of_char c :: nat) mod 16 = of_char d mod 16"
      using that(2) by (intro hex_char_inj) auto
    ultimately have "(of_char c :: nat) = of_char d" by (metis div_mult_mod_eq)
    then show ?thesis by simp
  qed
  show ?thesis
    using assms by (auto simp: escape_char_def split: if_splits dest: hex)
qed

lemma escape_char_head: "\<exists>x t. escape_char c = x # t \<and> x \<noteq> CHR 0x22"
  by (simp add: escape_char_def)

lemma literal_prefix_free:
  "concat (map escape_char s) @ CHR 0x22 # r = concat (map escape_char t) @ CHR 0x22 # q \<Longrightarrow>
     s = t \<and> r = q"
proof (induction s arbitrary: t)
  case Nil
  show ?case
  proof (cases t)
    case t: (Cons d t')
    with Nil show ?thesis using escape_char_head [of d] by auto
  qed (use Nil in simp)
next
  case (Cons c s)
  show ?case
  proof (cases t)
    case t: Nil
    with Cons.prems show ?thesis using escape_char_head [of c] by auto
  next
    case t: (Cons d t')
    from Cons.prems have "escape_char c @ (concat (map escape_char s) @ CHR 0x22 # r)
        = escape_char d @ (concat (map escape_char t') @ CHR 0x22 # q)"
      by (simp add: t)
    from escape_char_prefix_free [OF this] Cons.IH [of t'] show ?thesis by (simp add: t)
  qed
qed

lemma sample_number_text:
  "number_text sample_lib (PosInt w) = show_nat (unat w)"
  "number_text sample_lib (NegInt w) = CHR ''-'' # show_nat (unat w)"
  "number_text sample_lib (Float w) = show_nat (unat w) @ ''e0''"
  by (simp_all add: sample_lib_def)

lemma show_nat_not: "c \<in> {CHR ''-'', CHR ''e''} \<Longrightarrow> c \<notin> set (show_nat n)"
  using show_nat_digits [of c n] by (auto simp: is_ascii_digit_def less_eq_char_def)

lemma sample_number_inj:
  assumes eq: "number_text sample_lib m = number_text sample_lib n"
  shows "m = n"
proof -
  note neg = show_nat_not [of "CHR ''-''"] and exp = show_nat_not [of "CHR ''e''"]
  have "CHR ''-'' \<in> set (number_text sample_lib k) \<longleftrightarrow> (\<exists>w. k = NegInt w)" for k
    using neg by (cases k) (auto simp: sample_number_text)
  moreover have "CHR ''e'' \<in> set (number_text sample_lib k) \<longleftrightarrow> (\<exists>w. k = Float w)" for k
    using exp by (cases k) (auto simp: sample_number_text)
  ultimately have kind: "(\<exists>w. m = NegInt w) = (\<exists>w. n = NegInt w)" "(\<exists>w. m = Float w) = (\<exists>w. n = Float w)"
    using eq by metis+
  show ?thesis
  proof (cases m)
    case (PosInt w)
    with kind obtain w' where "n = PosInt w'" by (cases n) auto
    with PosInt eq show ?thesis by (auto simp: sample_number_text dest!: show_nat_inj unat_eqD)
  next
    case (NegInt w)
    with kind obtain w' where "n = NegInt w'" by auto
    with NegInt eq show ?thesis by (auto simp: sample_number_text dest!: show_nat_inj unat_eqD)
  next
    case (Float w)
    with kind obtain w' where "n = Float w'" by auto
    with Float eq show ?thesis by (auto simp: sample_number_text dest!: show_nat_inj unat_eqD)
  qed
qed

lemma sample_lib_ok: "json_text_ok sample_lib"
proof -
  have digits: "list_all number_char (show_nat n)" for n
    using show_nat_digits by (auto simp: list_all_iff number_char_def)
  have "number_text sample_lib n \<noteq> [] \<and> list_all number_char (number_text sample_lib n)" for n
    by (cases n) (simp_all add: sample_number_text digits number_char_def is_ascii_digit_def less_eq_char_def)
  moreover have "\<exists>t. string_text sample_lib s = CHR 0x22 # t" for s
    by (simp add: sample_lib_def)
  moreover have "s = t \<and> r = q" if "string_text sample_lib s @ r = string_text sample_lib t @ q" for s t r q
    using that literal_prefix_free [of s r t q] by (simp add: sample_lib_def)
  ultimately show ?thesis
    unfolding json_text_ok_def using sample_number_inj by blast
qed

section \<open>Properties\<close>

text \<open>C7: Canonical bytes identify exactly the equal values: for values without a negative zero, two
  JSON values have the same canonical bytes if and only if they are equal as values, where the
  order of object entries does not count at any depth. Hashes and map keys computed from canonical
  bytes therefore distinguish different values and never depend on entry order.\<close>

theorem canonical_json_faithful:
  assumes "json_text_ok lib" and "json_wf v" and "json_wf w"
    and "no_negative_zero v" and "no_negative_zero w"
  shows "canonical_json_bytes lib v = canonical_json_bytes lib w \<longleftrightarrow> json_eq v w"
  unfolding canonical_json_norm [OF assms(1)]
  using norm_imp_json_eq [OF assms(2, 3)] json_eq_imp_norm [OF assms(2-5)] by blast

theorem canonical_json_faithful_witness:
  "canonical_json_bytes sample_lib (JObject [(''a'', JNumber (PosInt 1)), (''b'', JNull)])
     = canonical_json_bytes sample_lib (JObject [(''b'', JNull), (''a'', JNumber (PosInt 1))])"
  by (subst canonical_json_faithful [OF sample_lib_ok]) (simp_all add: obj_get_def)

end
