(* ===== verification/Labels.thy ===== *)
theory Labels
  imports Execution_Error
begin

text \<open>
  The interface shared by the closed enums that are stored as text: a label for every variant and a
  parser that accepts exactly the labels. The providers are the status, kind and reason enums of
  the later theories; each discharges the two laws for its own tables.
\<close>

section \<open>Interface\<close>

locale label_codec =
  fixes as_str :: "'a \<Rightarrow> string"
    and from_str :: "string \<Rightarrow> 'a result"
  assumes from_as: "from_str (as_str x) = Inr x"
    and as_from: "from_str s = Inr x \<Longrightarrow> s = as_str x"
begin

lemma as_str_inj: "as_str x = as_str y \<longleftrightarrow> x = y"
  by (metis Inr_inject from_as)

lemma from_str_iff: "from_str s = Inr x \<longleftrightarrow> s = as_str x"
  using from_as as_from by blast

lemma from_str_rejects: "(\<exists>e. from_str s = Inl e) \<longleftrightarrow> s \<notin> range as_str"
proof (cases "from_str s")
  case (Inl e)
  then have "s \<notin> range as_str" by (auto simp: from_as)
  with Inl show ?thesis by blast
next
  case (Inr x)
  then show ?thesis using as_from by auto
qed

end

section \<open>Parsers given by a table of labels\<close>

definition label_lookup :: "error \<Rightarrow> (string \<times> 'a) list \<Rightarrow> string \<Rightarrow> 'a result" where
  "label_lookup e table s = ok_or e (map_of table s)"

lemma label_codecI:
  assumes "\<And>x. map_of table (as_str x) = Some x"
    and "list_all (\<lambda>(s, x). s = as_str x) table"
  shows "label_codec as_str (label_lookup e table)"
proof
  show "label_lookup e table (as_str x) = Inr x" for x
    by (simp add: label_lookup_def assms(1))
  show "s = as_str x" if "label_lookup e table s = Inr x" for s x
    using that assms(2) by (auto simp: label_lookup_def res_simps list_all_iff dest: map_of_SomeD)
qed

end
