(* ===== verification/Artifact_Ref.thy ===== *)
theory Artifact_Ref
  imports Labels
begin

text \<open>
  Stable references between artifacts, connector actions and tools
  (\<open>moa-artifacts/src/reference.rs\<close>, \<open>ArtifactKind\<close> of \<open>document.rs\<close>): the canonical text of a
  reference, its parser, and the proof that they are inverse to each other. Errors of this crate
  carry text only, so a rejected reference is \<open>None\<close>.
\<close>

datatype artifact_kind = Kind_Agent | Kind_Skill | Kind_Connector | Kind_Action | Kind_ExperimentPlan

datatype artifact_ref =
    Ref_Artifact artifact_kind string
  | Ref_Action string string
  | Ref_Tool string

fun artifact_kind_as_str :: "artifact_kind \<Rightarrow> string" where
  "artifact_kind_as_str Kind_Agent = ''agent''"
| "artifact_kind_as_str Kind_Skill = ''skill''"
| "artifact_kind_as_str Kind_Connector = ''connector''"
| "artifact_kind_as_str Kind_Action = ''action''"
| "artifact_kind_as_str Kind_ExperimentPlan = ''experiment_plan''"

definition artifact_kind_from_str :: "string \<Rightarrow> artifact_kind result" where
  "artifact_kind_from_str = label_lookup Err_InvalidRepositoryData
     [(''agent'', Kind_Agent), (''skill'', Kind_Skill), (''connector'', Kind_Connector),
      (''action'', Kind_Action), (''experiment_plan'', Kind_ExperimentPlan)]"

definition contains :: "string \<Rightarrow> string \<Rightarrow> bool" where
  "contains p s = (split_once p s \<noteq> None)"

definition target_byte :: "char \<Rightarrow> bool" where
  "target_byte c = (is_ascii_alphanumeric c \<or> c \<in> set ''_-.~:/@#'')"

definition validate_target :: "string \<Rightarrow> bool" where
  "validate_target target =
     (target \<noteq> [] \<and> length target \<le> 512 \<and> \<not> contains ''://'' target
      \<and> is_ascii_alphanumeric (hd target) \<and> is_ascii_alphanumeric (last target)
      \<and> list_all target_byte target)"

fun canonical_string :: "artifact_ref \<Rightarrow> string option" where
  "canonical_string (Ref_Artifact kind name) =
     (if kind = Kind_Action \<and> contains ''.'' name then None
      else if validate_target name then Some (artifact_kind_as_str kind @ ''://'' @ name) else None)"
| "canonical_string (Ref_Action connector action) =
     (if validate_target connector \<and> validate_target action \<and> \<not> contains ''.'' connector
         \<and> validate_target (connector @ ''.'' @ action)
      then Some (''action://'' @ connector @ ''.'' @ action) else None)"
| "canonical_string (Ref_Tool name) =
     (if validate_target name then Some (''tool://'' @ name) else None)"

definition canonical_round_trip :: "string \<Rightarrow> artifact_ref \<Rightarrow> artifact_ref option" where
  "canonical_round_trip value candidate =
     (case canonical_string candidate of
        None \<Rightarrow> None
      | Some canonical \<Rightarrow> if canonical \<noteq> value then None else Some candidate)"

definition artifact_ref_from_str :: "string \<Rightarrow> artifact_ref option" where
  "artifact_ref_from_str value =
     (case split_once ''://'' value of
        None \<Rightarrow> None
      | Some (scheme, rest) \<Rightarrow>
        if scheme = ''action'' then
          (case split_once ''.'' rest of
             None \<Rightarrow> canonical_round_trip value (Ref_Artifact Kind_Action rest)
           | Some (connector, action) \<Rightarrow>
               if connector = [] \<or> action = [] then None
               else canonical_round_trip value (Ref_Action connector action))
        else if scheme = ''tool'' then canonical_round_trip value (Ref_Tool rest)
        else (case artifact_kind_from_str scheme of
                Inl e \<Rightarrow> None
              | Inr kind \<Rightarrow> canonical_round_trip value (Ref_Artifact kind rest)))"

definition artifact_kind_of :: "artifact_ref \<Rightarrow> artifact_kind option" where
  "artifact_kind_of r = (case r of Ref_Artifact kind _ \<Rightarrow> Some kind | _ \<Rightarrow> None)"

definition target_name :: "artifact_ref \<Rightarrow> string" where
  "target_name r = (case r of Ref_Artifact _ name \<Rightarrow> name | Ref_Tool name \<Rightarrow> name
     | Ref_Action connector _ \<Rightarrow> connector)"

interpretation artifact_kind: label_codec artifact_kind_as_str artifact_kind_from_str
  unfolding artifact_kind_from_str_def
proof (rule label_codecI)
  fix x
  show "map_of [(''agent'', Kind_Agent), (''skill'', Kind_Skill), (''connector'', Kind_Connector),
      (''action'', Kind_Action), (''experiment_plan'', Kind_ExperimentPlan)] (artifact_kind_as_str x)
    = Some x"
    by (cases x) simp_all
qed simp

section \<open>Splitting\<close>

lemma split_once_first:
  "p \<noteq> [] \<Longrightarrow> \<forall>c\<in>set a. c \<noteq> hd p \<Longrightarrow> split_once p (a @ p @ b) = Some (a, b)"
proof (induction a)
  case Nil
  then show ?case
    by (cases p) (auto simp: strip_prefix_def)
next
  case (Cons x a)
  then have "strip_prefix p (x # a @ p @ b) = None"
    by (cases p) (auto simp: strip_prefix_def)
  with Cons show ?case by simp
qed

lemma contains_char: "contains [c] s \<longleftrightarrow> c \<in> set s"
  by (induction s) (auto simp: contains_def strip_prefix_def split: option.splits)

lemma split_once_char:
  "split_once [c] s = None \<longleftrightarrow> c \<notin> set s"
  using contains_char [of c s] unfolding contains_def by blast

lemma scheme_split:
  "CHR '':'' \<notin> set scheme \<Longrightarrow> split_once ''://'' (scheme @ ''://'' @ rest) = Some (scheme, rest)"
  by (rule split_once_first) auto

lemma kind_label_no_colon: "CHR '':'' \<notin> set (artifact_kind_as_str k)"
  by (cases k) simp_all

lemma kind_label_scheme: "artifact_kind_as_str k \<noteq> ''tool''"
    "artifact_kind_as_str k = ''action'' \<longleftrightarrow> k = Kind_Action"
  by (cases k; simp)+

lemma canonical_parses:
  assumes can: "canonical_string r = Some s"
  shows "artifact_ref_from_str s = Some r"
proof -
  from can have trip: "canonical_round_trip s r = Some r"
    by (simp add: canonical_round_trip_def)
  show ?thesis
  proof (cases r)
    case (Ref_Artifact kind name)
    with can have s: "s = artifact_kind_as_str kind @ ''://'' @ name"
      and dot: "kind = Kind_Action \<Longrightarrow> CHR ''.'' \<notin> set name"
      by (auto simp: contains_char split: if_splits)
    have split: "split_once ''://'' s = Some (artifact_kind_as_str kind, name)"
      unfolding s by (rule scheme_split [OF kind_label_no_colon])
    show ?thesis
    proof (cases "kind = Kind_Action")
      case True
      with split dot trip Ref_Artifact show ?thesis
        by (simp add: artifact_ref_from_str_def split_once_char [THEN iffD2])
    next
      case False
      with split trip Ref_Artifact show ?thesis
        by (simp add: artifact_ref_from_str_def kind_label_scheme artifact_kind.from_as)
    qed
  next
    case (Ref_Action connector action)
    with can have s: "s = ''action'' @ ''://'' @ connector @ ''.'' @ action"
      and parts: "CHR ''.'' \<notin> set connector" "connector \<noteq> []" "action \<noteq> []"
      by (auto simp: contains_char validate_target_def split: if_splits)
    have "split_once ''://'' s = Some (''action'', connector @ ''.'' @ action)"
      unfolding s by (rule scheme_split) simp
    moreover have "split_once ''.'' (connector @ ''.'' @ action) = Some (connector, action)"
      using parts(1) by (intro split_once_first) auto
    ultimately show ?thesis
      using trip Ref_Action parts by (simp add: artifact_ref_from_str_def)
  next
    case (Ref_Tool name)
    with can have s: "s = ''tool'' @ ''://'' @ name"
      by (auto split: if_splits)
    have "split_once ''://'' s = Some (''tool'', name)"
      unfolding s by (rule scheme_split) simp
    with trip Ref_Tool show ?thesis by (simp add: artifact_ref_from_str_def)
  qed
qed

lemma canonical_string_inj:
  "canonical_string a = Some s \<Longrightarrow> canonical_string b = Some s \<Longrightarrow> a = b"
  by (drule canonical_parses)+ simp

section \<open>Properties\<close>

text \<open>C8: The text of a reference identifies it: whenever a reference has canonical text, parsing that
  text returns the same reference, and whenever a text parses, the parsed reference's canonical
  text is that very text, byte for byte.\<close>

theorem artifact_ref_round_trip:
  "artifact_ref_from_str s = Some r \<longleftrightarrow> canonical_string r = Some s"
proof
  assume "artifact_ref_from_str s = Some r"
  then show "canonical_string r = Some s"
    by (auto simp: artifact_ref_from_str_def canonical_round_trip_def
        split: option.splits prod.splits if_splits sum.splits)
qed (rule canonical_parses)

end
