(* ===== verification/Plan_Types.thy ===== *)
theory Plan_Types
  imports Json Estimates Artifact_Ref
begin

text \<open>
  The data of goals, plans, task outcomes and plan amendments
  (\<open>moa-artifacts/src/execution_plan.rs\<close>), one type per Rust type with its fields in order. A
  struct with a single field (\<open>ExecutionReference\<close>, \<open>CompensationInputMapping\<close>) is that field.
\<close>

section \<open>Goal contract\<close>

record execution_requirement =
  req_id :: string
  req_description :: string

record execution_deliverable =
  dlv_id :: string
  dlv_description :: string
  dlv_output_pointer :: string
  dlv_schema :: json

record coverage_requirement =
  cov_id :: string
  cov_description :: string
  cov_map_node_id :: string
  cov_expected_items :: json
  cov_require_all :: bool

record execution_constraint =
  con_id :: string
  con_description :: string

datatype completion_check_kind =
    OutputSchema
  | RequiredNodes "string list"
  | MapCoverage string
  | Citations "string list" u32
  | AgentVerifier string u32

record completion_check =
  chk_id :: string
  chk_description :: string
  chk_requirement_ids :: "string list"
  chk_constraint_ids :: "string list"
  chk_kind :: completion_check_kind

record execution_goal_contract =
  goal_objective :: string
  goal_requirements :: "execution_requirement list"
  goal_deliverables :: "execution_deliverable list"
  goal_coverage :: "coverage_requirement list"
  goal_constraints :: "execution_constraint list"
  goal_completion_checks :: "completion_check list"

section \<open>Plan\<close>

datatype execution_cancel_policy = RetainEffects | CompensateCommitted

record capability_reference =
  cap_name :: string
  cap_version :: string

datatype compensation_value_source = OriginalInput string | OriginalOutput string

record compensation_input_binding =
  cib_target_pointer :: string
  cib_source :: compensation_value_source

type_synonym compensation_input_mapping = "compensation_input_binding list"

record execution_compensation =
  comp_compensator :: capability_reference
  comp_input_mapping :: compensation_input_mapping

type_synonym execution_reference = string

datatype execution_condition =
    Cond_Exists execution_reference
  | Cond_Equals execution_reference json

record retry_policy =
  rp_max_attempts :: u32
  rp_initial_backoff_ms :: u64
  rp_max_backoff_ms :: u64

text \<open>Agent tasks carry instructions, skill references, capability references and a turn bound.\<close>

datatype map_task =
    Map_Capability capability_reference
  | Map_Agent string "artifact_ref list" "capability_reference list" u32

datatype execution_reducer =
    Red_Capability capability_reference
  | Red_Agent string "artifact_ref list" "capability_reference list" u32

datatype execution_temporal_target = At datetime | After u64

datatype execution_wait_expiry_action = FailTask | ContinueWith json

record execution_wait_policy =
  wp_expiry :: execution_temporal_target
  wp_on_expiry :: execution_wait_expiry_action

datatype execution_operation =
    Op_Capability capability_reference
  | Op_Agent string "artifact_ref list" "capability_reference list" u32
  | Op_Map (map_items: json) (map_item_key: string) (map_max_items: u64)
      (map_item_output_schema: json) (map_task_of: map_task)
  | Op_Reduce (reduce_items: json) (reduce_max_items: u64) (reduce_reducer: execution_reducer)
      (reduce_batch_size: u32)
  | Op_Review string execution_wait_policy
  | Op_WaitSignal string execution_wait_policy
  | Op_WaitUntil execution_temporal_target json
  | Op_Output json

record execution_node =
  node_id :: string
  node_requirement_ids :: "string list"
  node_depends_on :: "string list"
  node_when :: "execution_condition option"
  node_input :: json
  node_output_schema :: json
  node_operation :: execution_operation
  node_compensation :: "execution_compensation option"
  node_retry :: retry_policy
  node_budget :: "execution_budget_limit option"

record execution_plan_definition =
  plan_cancel_policy :: execution_cancel_policy
  plan_input_schema :: json
  plan_output_schema :: json
  plan_nodes :: "execution_node list"

section \<open>Task outcomes\<close>

datatype input_audience = Aud_User | Aud_TenantAdmin | Aud_ExternalSystem

datatype execution_failure_class =
    Fail_Retryable | Fail_InvalidInput | Fail_InvalidOutput | Fail_AuthorizationDenied
  | Fail_BudgetExceeded | Fail_DeadlineExceeded | Fail_Cancelled | Fail_Unsupported | Fail_Terminal

record execution_citation =
  cit_source_id :: string
  cit_uri :: "string option"
  cit_locator :: "json option"

datatype execution_task_result =
    Res_Completed json "execution_citation list"
  | Res_NeedsInput string input_audience
  | Res_NeedsReplan string json
  | Res_Cancelled string
  | Res_UnknownOutcome string
  | Res_Failed execution_failure_class string

record execution_task_outcome =
  out_schema_version :: u32
  out_usage :: execution_usage
  out_result :: execution_task_result

section \<open>Amendments and templates\<close>

datatype plan_amendment_operation =
    AddNode execution_node
  | ReplacePendingNode string execution_node
  | RemovePendingNode string

record plan_amendment =
  am_base_plan_revision :: u64
  am_reason :: string
  am_evidence :: json
  am_operations :: "plan_amendment_operation list"

record execution_goal_template =
  gt_requirements :: "execution_requirement list"
  gt_deliverables :: "execution_deliverable list"
  gt_coverage :: "coverage_requirement list"
  gt_constraints :: "execution_constraint list"
  gt_completion_checks :: "completion_check list"

record execution_plan_template =
  tpl_goal :: execution_goal_template
  tpl_plan :: execution_plan_definition

definition instantiate_goal :: "execution_plan_template \<Rightarrow> string \<Rightarrow> execution_goal_contract" where
  "instantiate_goal self objective = \<lparr>goal_objective = objective,
     goal_requirements = gt_requirements (tpl_goal self),
     goal_deliverables = gt_deliverables (tpl_goal self),
     goal_coverage = gt_coverage (tpl_goal self),
     goal_constraints = gt_constraints (tpl_goal self),
     goal_completion_checks = gt_completion_checks (tpl_goal self)\<rparr>"

section \<open>Skill references of a plan\<close>

definition index_path :: "string \<Rightarrow> nat \<Rightarrow> string" where
  "index_path path i = path @ ''['' @ show_nat i @ '']''"

definition append_skill_refs :: "string \<Rightarrow> artifact_ref list \<Rightarrow> (string \<times> artifact_ref) list" where
  "append_skill_refs path skill_refs = map (\<lambda>(i, r). (index_path path i, r)) (enumerate 0 skill_refs)"

definition node_skill_refs :: "string \<Rightarrow> execution_node \<Rightarrow> (string \<times> artifact_ref) list" where
  "node_skill_refs operation_path node =
     (case node_operation node of
        Op_Agent _ skill_refs _ _ \<Rightarrow> append_skill_refs (operation_path @ ''.skill_refs'') skill_refs
      | Op_Map _ _ _ _ (Map_Agent _ skill_refs _ _) \<Rightarrow>
          append_skill_refs (operation_path @ ''.task.skill_refs'') skill_refs
      | Op_Reduce _ _ (Red_Agent _ skill_refs _ _) _ \<Rightarrow>
          append_skill_refs (operation_path @ ''.reducer.skill_refs'') skill_refs
      | _ \<Rightarrow> [])"

definition skill_reference_paths :: "execution_plan_definition \<Rightarrow> string \<Rightarrow> (string \<times> artifact_ref) list" where
  "skill_reference_paths self root =
     concat (map (\<lambda>(i, node). node_skill_refs (index_path (root @ ''.nodes'') i @ ''.operation'') node)
       (enumerate 0 (plan_nodes self)))"

end
