(* ===== verification/State.thy ===== *)
theory State
  imports Plan_Types Labels
begin

text \<open>
  Run, node, task and compensation states, projections, logical tasks and the pure transitions
  between them (\<open>moa-execution/src/state.rs\<close>; \<open>ReplanStopReason\<close> of \<open>replan.rs\<close>).
\<close>

section \<open>Identities\<close>

text \<open>A UUID is its 16 bytes. The crate \<open>uuid\<close> supplies version 5 UUIDs and the URL namespace.\<close>

type_synonym uuid = string

record uuid_lib =
  new_v5 :: "uuid \<Rightarrow> string \<Rightarrow> uuid"
  namespace_url :: uuid

definition to_be_bytes :: "u32 \<Rightarrow> string" where
  "to_be_bytes w = [char_of (unat w div 2 ^ 24), char_of (unat w div 2 ^ 16),
     char_of (unat w div 2 ^ 8), char_of (unat w)]"

definition append_frame :: "string \<Rightarrow> string \<Rightarrow> string result" where
  "append_frame output value =
     bind_res (ok_or Err_InvalidTaskIdentity (try_from_nat (length value))) (\<lambda>len :: u32.
     Inr (output @ to_be_bytes len @ value))"

definition task_identity_name :: "uuid \<Rightarrow> string \<Rightarrow> string \<Rightarrow> string result" where
  "task_identity_name run_uid nid item_key =
     bind_res (append_frame [] run_uid) (\<lambda>name.
     bind_res (append_frame name nid) (\<lambda>name.
     append_frame name item_key))"

definition task_namespace_name :: string where
  "task_namespace_name = ''https://moa.ai/execution-task''"

definition compensation_namespace_name :: string where
  "compensation_namespace_name = ''https://moa.ai/execution-compensation''"

definition execution_task_id_derive :: "uuid_lib \<Rightarrow> uuid \<Rightarrow> string \<Rightarrow> string \<Rightarrow> uuid result" where
  "execution_task_id_derive lib run_uid nid item_key =
     (let namespace = new_v5 lib (namespace_url lib) task_namespace_name in
      bind_res (task_identity_name run_uid nid item_key) (\<lambda>name.
      Inr (new_v5 lib namespace name)))"

definition compensation_id_derive :: "uuid_lib \<Rightarrow> uuid \<Rightarrow> uuid" where
  "compensation_id_derive lib forward_task_id =
     (let namespace = new_v5 lib (namespace_url lib) compensation_namespace_name in
      new_v5 lib namespace forward_task_id)"

section \<open>Statuses and reasons\<close>

datatype execution_node_status =
    Node_Pending | Node_Running | Node_Waiting | Node_Completed | Node_Skipped | Node_Failed
  | Node_Cancelled

datatype execution_run_status =
    Run_AwaitingConfirmation | Run_Queued | Run_Running | Run_WaitingInput | Run_WaitingReview
  | Run_WaitingSignal | Run_WaitingTimer | Run_WaitingExternal | Run_WaitingReplan
  | Run_PauseRequested | Run_Pausing | Run_Paused | Run_Compensating | Run_Completed | Run_Partial
  | Run_Blocked | Run_Unsupported | Run_Failed | Run_Cancelled

fun run_status_as_str :: "execution_run_status \<Rightarrow> string" where
  "run_status_as_str Run_AwaitingConfirmation = ''awaiting_confirmation''"
| "run_status_as_str Run_Queued = ''queued''"
| "run_status_as_str Run_Running = ''running''"
| "run_status_as_str Run_WaitingInput = ''waiting_input''"
| "run_status_as_str Run_WaitingReview = ''waiting_review''"
| "run_status_as_str Run_WaitingSignal = ''waiting_signal''"
| "run_status_as_str Run_WaitingTimer = ''waiting_timer''"
| "run_status_as_str Run_WaitingExternal = ''waiting_external''"
| "run_status_as_str Run_WaitingReplan = ''waiting_replan''"
| "run_status_as_str Run_PauseRequested = ''pause_requested''"
| "run_status_as_str Run_Pausing = ''pausing''"
| "run_status_as_str Run_Paused = ''paused''"
| "run_status_as_str Run_Compensating = ''compensating''"
| "run_status_as_str Run_Completed = ''completed''"
| "run_status_as_str Run_Partial = ''partial''"
| "run_status_as_str Run_Blocked = ''blocked''"
| "run_status_as_str Run_Unsupported = ''unsupported''"
| "run_status_as_str Run_Failed = ''failed''"
| "run_status_as_str Run_Cancelled = ''cancelled''"

definition run_status_from_str :: "string \<Rightarrow> execution_run_status result" where
  "run_status_from_str = label_lookup Err_InvalidRepositoryData
     [(''awaiting_confirmation'', Run_AwaitingConfirmation), (''queued'', Run_Queued),
      (''running'', Run_Running), (''waiting_input'', Run_WaitingInput),
      (''waiting_review'', Run_WaitingReview), (''waiting_signal'', Run_WaitingSignal),
      (''waiting_timer'', Run_WaitingTimer), (''waiting_external'', Run_WaitingExternal),
      (''waiting_replan'', Run_WaitingReplan), (''pause_requested'', Run_PauseRequested),
      (''pausing'', Run_Pausing), (''paused'', Run_Paused), (''compensating'', Run_Compensating),
      (''completed'', Run_Completed), (''partial'', Run_Partial), (''blocked'', Run_Blocked),
      (''unsupported'', Run_Unsupported), (''failed'', Run_Failed), (''cancelled'', Run_Cancelled)]"

definition run_status_is_terminal :: "execution_run_status \<Rightarrow> bool" where
  "run_status_is_terminal s =
     (s \<in> {Run_Completed, Run_Partial, Run_Blocked, Run_Unsupported, Run_Failed, Run_Cancelled})"

datatype compensation_status =
    Comp_Pending | Comp_Running | Comp_Completed | Comp_Failed | Comp_UnknownOutcome

fun compensation_status_as_str :: "compensation_status \<Rightarrow> string" where
  "compensation_status_as_str Comp_Pending = ''pending''"
| "compensation_status_as_str Comp_Running = ''running''"
| "compensation_status_as_str Comp_Completed = ''completed''"
| "compensation_status_as_str Comp_Failed = ''failed''"
| "compensation_status_as_str Comp_UnknownOutcome = ''unknown_outcome''"

definition compensation_status_from_str :: "string \<Rightarrow> compensation_status result" where
  "compensation_status_from_str = label_lookup Err_InvalidRepositoryData
     [(''pending'', Comp_Pending), (''running'', Comp_Running), (''completed'', Comp_Completed),
      (''failed'', Comp_Failed), (''unknown_outcome'', Comp_UnknownOutcome)]"

definition compensation_status_is_settled :: "compensation_status \<Rightarrow> bool" where
  "compensation_status_is_settled s = (s \<in> {Comp_Completed, Comp_Failed, Comp_UnknownOutcome})"

datatype execution_source_kind = Src_GeneratedPlan | Src_SkillTemplate | Src_ExperimentTemplate

fun source_kind_as_str :: "execution_source_kind \<Rightarrow> string" where
  "source_kind_as_str Src_GeneratedPlan = ''generated_plan''"
| "source_kind_as_str Src_SkillTemplate = ''skill_template''"
| "source_kind_as_str Src_ExperimentTemplate = ''experiment_template''"

definition source_kind_from_str :: "string \<Rightarrow> execution_source_kind result" where
  "source_kind_from_str = label_lookup Err_InvalidRepositoryData
     [(''generated_plan'', Src_GeneratedPlan), (''skill_template'', Src_SkillTemplate),
      (''experiment_template'', Src_ExperimentTemplate)]"

datatype execution_terminal_reason =
    Reason_Completed | Reason_GoalIncomplete | Reason_BudgetExceeded | Reason_DeadlineExceeded
  | Reason_Cancelled | Reason_NoProgress | Reason_DuplicatePlan | Reason_DuplicateAmendment
  | Reason_RepeatedFailure | Reason_BudgetExhausted | Reason_TaskFailure | Reason_UnsupportedPlan
  | Reason_Blocked | Reason_InternalFailure | Reason_CompensationFailed

fun terminal_reason_as_str :: "execution_terminal_reason \<Rightarrow> string" where
  "terminal_reason_as_str Reason_Completed = ''completed''"
| "terminal_reason_as_str Reason_GoalIncomplete = ''goal_incomplete''"
| "terminal_reason_as_str Reason_BudgetExceeded = ''budget_exceeded''"
| "terminal_reason_as_str Reason_DeadlineExceeded = ''deadline_exceeded''"
| "terminal_reason_as_str Reason_Cancelled = ''cancelled''"
| "terminal_reason_as_str Reason_NoProgress = ''no_progress''"
| "terminal_reason_as_str Reason_DuplicatePlan = ''duplicate_plan''"
| "terminal_reason_as_str Reason_DuplicateAmendment = ''duplicate_amendment''"
| "terminal_reason_as_str Reason_RepeatedFailure = ''repeated_failure''"
| "terminal_reason_as_str Reason_BudgetExhausted = ''budget_exhausted''"
| "terminal_reason_as_str Reason_TaskFailure = ''task_failure''"
| "terminal_reason_as_str Reason_UnsupportedPlan = ''unsupported_plan''"
| "terminal_reason_as_str Reason_Blocked = ''blocked''"
| "terminal_reason_as_str Reason_InternalFailure = ''internal_failure''"
| "terminal_reason_as_str Reason_CompensationFailed = ''compensation_failed''"

definition terminal_reason_from_str :: "string \<Rightarrow> execution_terminal_reason result" where
  "terminal_reason_from_str = label_lookup Err_InvalidRepositoryData
     [(''completed'', Reason_Completed), (''goal_incomplete'', Reason_GoalIncomplete),
      (''budget_exceeded'', Reason_BudgetExceeded), (''deadline_exceeded'', Reason_DeadlineExceeded),
      (''cancelled'', Reason_Cancelled), (''no_progress'', Reason_NoProgress),
      (''duplicate_plan'', Reason_DuplicatePlan),
      (''duplicate_amendment'', Reason_DuplicateAmendment),
      (''repeated_failure'', Reason_RepeatedFailure), (''budget_exhausted'', Reason_BudgetExhausted),
      (''task_failure'', Reason_TaskFailure), (''unsupported_plan'', Reason_UnsupportedPlan),
      (''blocked'', Reason_Blocked), (''internal_failure'', Reason_InternalFailure),
      (''compensation_failed'', Reason_CompensationFailed)]"

datatype execution_task_status =
    Task_Pending | Task_Ready | Task_Reserved | Task_Dispatching | Task_Running | Task_WaitingInput
  | Task_WaitingReview | Task_WaitingSignal | Task_WaitingTimer | Task_WaitingExternal
  | Task_WaitingReplan | Task_Completed | Task_Skipped | Task_Failed | Task_UnknownOutcome
  | Task_Cancelled

fun task_status_as_str :: "execution_task_status \<Rightarrow> string" where
  "task_status_as_str Task_Pending = ''pending''"
| "task_status_as_str Task_Ready = ''ready''"
| "task_status_as_str Task_Reserved = ''reserved''"
| "task_status_as_str Task_Dispatching = ''dispatching''"
| "task_status_as_str Task_Running = ''running''"
| "task_status_as_str Task_WaitingInput = ''waiting_input''"
| "task_status_as_str Task_WaitingReview = ''waiting_review''"
| "task_status_as_str Task_WaitingSignal = ''waiting_signal''"
| "task_status_as_str Task_WaitingTimer = ''waiting_timer''"
| "task_status_as_str Task_WaitingExternal = ''waiting_external''"
| "task_status_as_str Task_WaitingReplan = ''waiting_replan''"
| "task_status_as_str Task_Completed = ''completed''"
| "task_status_as_str Task_Skipped = ''skipped''"
| "task_status_as_str Task_Failed = ''failed''"
| "task_status_as_str Task_UnknownOutcome = ''unknown_outcome''"
| "task_status_as_str Task_Cancelled = ''cancelled''"

definition task_status_from_str :: "string \<Rightarrow> execution_task_status result" where
  "task_status_from_str = label_lookup Err_InvalidRepositoryData
     [(''pending'', Task_Pending), (''ready'', Task_Ready), (''reserved'', Task_Reserved),
      (''dispatching'', Task_Dispatching), (''running'', Task_Running),
      (''waiting_input'', Task_WaitingInput), (''waiting_review'', Task_WaitingReview),
      (''waiting_signal'', Task_WaitingSignal), (''waiting_timer'', Task_WaitingTimer),
      (''waiting_external'', Task_WaitingExternal), (''waiting_replan'', Task_WaitingReplan),
      (''completed'', Task_Completed), (''skipped'', Task_Skipped), (''failed'', Task_Failed),
      (''unknown_outcome'', Task_UnknownOutcome), (''cancelled'', Task_Cancelled)]"

definition task_status_is_terminal :: "execution_task_status \<Rightarrow> bool" where
  "task_status_is_terminal s =
     (s \<in> {Task_Completed, Task_Skipped, Task_Failed, Task_UnknownOutcome, Task_Cancelled})"

section \<open>Terminal causes and compensation records\<close>

datatype execution_compensation_outcome =
    CompOut_Completed json execution_usage
  | CompOut_Failed string bool execution_usage
  | CompOut_UnknownOutcome string execution_usage

fun compensation_outcome_usage :: "execution_compensation_outcome \<Rightarrow> execution_usage" where
  "compensation_outcome_usage (CompOut_Completed _ usage) = usage"
| "compensation_outcome_usage (CompOut_Failed _ _ usage) = usage"
| "compensation_outcome_usage (CompOut_UnknownOutcome _ usage) = usage"

datatype execution_limit_stop = Limit_DeadlineExceeded | Limit_BudgetExceeded

datatype replan_stop_reason =
    Replan_DuplicatePlan | Replan_DuplicateAmendment | Replan_RepeatedFailure | Replan_NoProgress
  | Replan_DeadlineExceeded | Replan_BudgetExhausted

datatype execution_terminal_cause =
    Cause_Completion "execution_limit_stop option"
  | Cause_TaskFailure execution_failure_class
  | Cause_LimitStop execution_limit_stop
  | Cause_ReplanStop replan_stop_reason
  | Cause_Cancellation
  | Cause_InternalFailure
  | Cause_CompensationFailure execution_run_status execution_terminal_reason
      execution_terminal_cause uuid execution_compensation_outcome

record execution_terminal_evidence =
  ev_cause :: execution_terminal_cause
  ev_satisfied_requirement_count :: u64
  ev_requirement_count :: u64

record pending_execution_terminal =
  pt_status :: execution_run_status
  pt_reason :: execution_terminal_reason
  pt_terminal_evidence :: execution_terminal_evidence
  pt_completion_check_results :: "json list"
  pt_terminal_gaps :: "string list"
  pt_output :: "json option"
  pt_cancellation_reason :: "string option"

definition pending_terminal_validate :: "pending_execution_terminal \<Rightarrow> unit result" where
  "pending_terminal_validate self =
     bind_res (ensure (run_status_is_terminal (pt_status self)) Err_InvalidRepositoryInput) (\<lambda>_.
     bind_res (ensure ((pt_status self = Run_Cancelled) = (pt_cancellation_reason self \<noteq> None))
                      Err_InvalidRepositoryInput) (\<lambda>_.
     bind_res (ensure (case pt_cancellation_reason self of None \<Rightarrow> True
                       | Some reason \<Rightarrow> \<not> is_blank reason) Err_InvalidRepositoryInput) (\<lambda>_.
     ensure (ev_satisfied_requirement_count (pt_terminal_evidence self)
               \<le> ev_requirement_count (pt_terminal_evidence self)) Err_InvalidRepositoryInput)))"

record compensation_registration_projection =
  cr_compensation_id :: uuid
  cr_run_uid :: uuid
  cr_forward_task_id :: uuid
  cr_registered_sequence :: u64
  cr_forward_generation :: u64
  cr_compensator :: execution_compensation
  cr_mapped_input :: json
  cr_status :: compensation_status
  cr_attempt :: u64
  cr_generation :: u64
  cr_outcome :: "execution_compensation_outcome option"
  cr_error :: "json option"
  cr_created_at :: datetime
  cr_updated_at :: datetime
  cr_started_at :: "datetime option"
  cr_completed_at :: "datetime option"

section \<open>Projections and logical tasks\<close>

record execution_task_projection =
  tp_task_id :: uuid
  tp_node_id :: string
  tp_item_key :: string
  tp_status :: execution_task_status
  tp_attempt :: u32
  tp_generation :: u64
  tp_input :: json
  tp_outcome :: "execution_task_outcome option"

text \<open>\<open>BTreeMap\<close> values are association lists sorted by key.\<close>

record execution_projection =
  pr_plan_revision :: u64
  pr_node_statuses :: "(string \<times> execution_node_status) list"
  pr_tasks :: "execution_task_projection list"

record execution_amendment_projection =
  ap_plan_revision :: u64
  ap_node_statuses :: "(string \<times> execution_node_status) list"
  ap_started_node_ids :: "string list"
  ap_replan_tasks :: "execution_task_projection list"

datatype logical_task_kind =
    Kind_Capability capability_reference
  | Kind_TaskAgent string "artifact_ref list" "capability_reference list" u32
  | Kind_Review string execution_wait_policy
  | Kind_WaitSignal string execution_wait_policy
  | Kind_WaitUntil execution_temporal_target json
  | Kind_Output json
  | Kind_CompletionVerifier string string u32

fun logical_task_kind_as_str :: "logical_task_kind \<Rightarrow> string" where
  "logical_task_kind_as_str (Kind_Capability _) = ''capability''"
| "logical_task_kind_as_str (Kind_TaskAgent _ _ _ _) = ''agent''"
| "logical_task_kind_as_str (Kind_Review _ _) = ''review''"
| "logical_task_kind_as_str (Kind_WaitSignal _ _) = ''wait_signal''"
| "logical_task_kind_as_str (Kind_WaitUntil _ _) = ''wait_until''"
| "logical_task_kind_as_str (Kind_Output _) = ''output''"
| "logical_task_kind_as_str (Kind_CompletionVerifier _ _ _) = ''completion_verifier''"

record logical_task =
  lt_task_id :: uuid
  lt_node_id :: string
  lt_item_key :: string
  lt_requirement_ids :: "string list"
  lt_plan_revision :: u64
  lt_generation :: u64
  lt_input :: json
  lt_kind :: logical_task_kind
  lt_compensation :: "execution_compensation option"
  lt_retry :: retry_policy
  lt_reservation :: execution_estimate

datatype wait_settlement =
    TimerElapsed uuid json
  | WaitExpired uuid execution_wait_expiry_action

datatype waiting_reason =
    Wait_RunningTasks
  | Wait_Input uuid input_audience string
  | Wait_Review uuid string execution_wait_policy
  | Wait_Signal uuid string execution_wait_policy
  | Wait_Timer uuid execution_temporal_target
  | Wait_External uuid
  | Wait_Dependencies "string list"

record execution_task_failure =
  tf_class :: execution_failure_class
  tf_message :: string
  tf_capability_ref :: "capability_reference option"

datatype terminal_projection =
    Term_Completed json
  | Term_Partial "json option" "string list"
  | Term_Blocked "json option" "string list"
  | Term_Unsupported string "string list"
  | Term_Failed execution_task_failure
  | Term_Cancelled string

datatype execution_map_item_status = Item_Completed | Item_Skipped | Item_Failed | Item_Cancelled

record execution_map_item =
  mi_item_key :: string
  mi_status :: execution_map_item_status
  mi_output :: "json option"
  mi_failure :: "execution_task_failure option"
  mi_usage :: execution_usage
  mi_citations :: "execution_citation list"

record execution_map_output =
  mo_items :: "execution_map_item list"

record failure_fingerprint_input =
  ff_class :: execution_failure_class
  ff_node_id :: string
  ff_capability_ref :: "capability_reference option"
  ff_message :: string

section \<open>Transitions\<close>

definition task_status_from_outcome :: "execution_task_outcome \<Rightarrow> bool \<Rightarrow> execution_task_status" where
  "task_status_from_outcome outcome retry_scheduled =
     (case out_result outcome of
        Res_Completed _ _ \<Rightarrow> Task_Completed
      | Res_NeedsInput _ _ \<Rightarrow> Task_WaitingInput
      | Res_NeedsReplan _ _ \<Rightarrow> Task_WaitingReplan
      | Res_Cancelled _ \<Rightarrow> Task_Cancelled
      | Res_UnknownOutcome _ \<Rightarrow> Task_UnknownOutcome
      | Res_Failed class _ \<Rightarrow>
          if class = Fail_Retryable \<and> retry_scheduled then Task_Running else Task_Failed)"

definition task_outcome_is_terminal :: "execution_task_outcome \<Rightarrow> bool" where
  "task_outcome_is_terminal outcome =
     (case out_result outcome of
        Res_NeedsInput _ _ \<Rightarrow> False
      | Res_NeedsReplan _ _ \<Rightarrow> False
      | Res_Failed class _ \<Rightarrow> class \<noteq> Fail_Retryable
      | _ \<Rightarrow> True)"

definition run_status_after_task_outcome ::
  "execution_run_status \<Rightarrow> execution_task_outcome \<Rightarrow> execution_run_status" where
  "run_status_after_task_outcome current outcome =
     (if current \<in> {Run_Compensating, Run_PauseRequested, Run_Pausing, Run_Paused} then current
      else case out_result outcome of
        Res_NeedsInput _ _ \<Rightarrow> Run_WaitingInput
      | Res_NeedsReplan _ _ \<Rightarrow> Run_WaitingReplan
      | _ \<Rightarrow>
        if current \<in> {Run_WaitingInput, Run_WaitingReview, Run_WaitingSignal, Run_WaitingTimer,
                      Run_WaitingExternal}
        then Run_Running else current)"

fun run_status_from_terminal_projection :: "terminal_projection \<Rightarrow> execution_run_status" where
  "run_status_from_terminal_projection (Term_Completed _) = Run_Completed"
| "run_status_from_terminal_projection (Term_Partial _ _) = Run_Partial"
| "run_status_from_terminal_projection (Term_Blocked _ _) = Run_Blocked"
| "run_status_from_terminal_projection (Term_Unsupported _ _) = Run_Unsupported"
| "run_status_from_terminal_projection (Term_Failed _) = Run_Failed"
| "run_status_from_terminal_projection (Term_Cancelled _) = Run_Cancelled"

definition exhaust_retry_outcome ::
  "u32 \<Rightarrow> retry_policy \<Rightarrow> execution_task_outcome \<Rightarrow> execution_task_outcome" where
  "exhaust_retry_outcome attempt policy outcome =
     (case out_result outcome of
        Res_Failed class message \<Rightarrow>
          if rp_max_attempts policy \<le> attempt \<and> class = Fail_Retryable
          then outcome\<lparr>out_result := Res_Failed Fail_Terminal
                 (''retry policy exhausted after '' @ show_nat (unat attempt) @ '' attempts: '' @ message)\<rparr>
          else outcome
      | _ \<Rightarrow> outcome)"

definition retry_delay_ms :: "u32 \<Rightarrow> retry_policy \<Rightarrow> u64" where
  "retry_delay_ms attempt policy =
     (let exponent = min (saturating_sub attempt 2) 31 in
      min (saturating_mul (rp_initial_backoff_ms policy) (push_bit (unat exponent) 1))
          (rp_max_backoff_ms policy))"

definition completed_task_outcome :: "json \<Rightarrow> execution_usage \<Rightarrow> execution_task_outcome" where
  "completed_task_outcome output usage =
     \<lparr>out_schema_version = 1, out_usage = usage, out_result = Res_Completed output []\<rparr>"

definition failed_task_outcome ::
  "execution_failure_class \<Rightarrow> string \<Rightarrow> execution_usage \<Rightarrow> execution_task_outcome" where
  "failed_task_outcome class message usage =
     \<lparr>out_schema_version = 1, out_usage = usage, out_result = Res_Failed class message\<rparr>"

definition cancelled_task_outcome :: "string \<Rightarrow> execution_usage \<Rightarrow> execution_task_outcome" where
  "cancelled_task_outcome reason usage =
     \<lparr>out_schema_version = 1, out_usage = usage, out_result = Res_Cancelled reason\<rparr>"

text \<open>The two JSON parsers of \<open>serde_json::from_str\<close> are parameters; the second reports its error.\<close>

definition parse_agent_task_outcome ::
  "(string \<Rightarrow> execution_task_result option) \<Rightarrow> (string \<Rightarrow> string + json) \<Rightarrow> string \<Rightarrow>
    execution_usage \<Rightarrow> execution_task_outcome" where
  "parse_agent_task_outcome parse_result parse_value text usage =
     (case parse_result text of
        Some result \<Rightarrow> \<lparr>out_schema_version = 1, out_usage = usage, out_result = result\<rparr>
      | None \<Rightarrow>
        (case parse_value text of
           Inr output \<Rightarrow> completed_task_outcome output usage
         | Inl err \<Rightarrow> failed_task_outcome Fail_InvalidOutput
             (''agent final response is not JSON: '' @ err) usage))"

definition retry_dispatch_counters :: "u32 \<Rightarrow> u64 \<Rightarrow> (u32 \<times> u64) result" where
  "retry_dispatch_counters attempt generation =
     (if attempt = 0 \<or> generation = 0 then Inl Err_InvalidProjection
      else bind_res (ok_or (Err_ArithmeticOverflow ''execution task retry attempt'')
                           (checked_add attempt 1)) (\<lambda>attempt'.
           bind_res (ok_or (Err_ArithmeticOverflow ''execution task retry generation'')
                           (checked_add generation 1)) (\<lambda>generation'.
           Inr (attempt', generation'))))"

definition input_resume_counters :: "u32 \<Rightarrow> u64 \<Rightarrow> (u32 \<times> u64) result" where
  "input_resume_counters attempt generation =
     (if attempt = 0 \<or> generation = 0 then Inl Err_InvalidProjection
      else bind_res (ok_or (Err_ArithmeticOverflow ''execution task input-resume generation'')
                           (checked_add generation 1)) (\<lambda>generation'.
           Inr (attempt, generation')))"

definition validate_outcome_generation :: "u64 \<Rightarrow> u64 \<Rightarrow> unit result" where
  "validate_outcome_generation current received =
     (if current = 0 \<or> received = 0 then Inl Err_InvalidProjection
      else if current \<noteq> received then Inl Err_InvalidProjection
      else Inr ())"

definition supersede_waiting_replan ::
  "execution_task_projection \<Rightarrow> execution_task_projection result" where
  "supersede_waiting_replan task =
     (case tp_outcome task of
        None \<Rightarrow> Inl Err_InvalidProjection
      | Some outcome \<Rightarrow>
        if tp_status task \<noteq> Task_WaitingReplan
           \<or> (case out_result outcome of Res_NeedsReplan _ _ \<Rightarrow> False | _ \<Rightarrow> True)
        then Inl Err_InvalidProjection
        else Inr (task\<lparr>tp_status := Task_Cancelled,
               tp_outcome := Some \<lparr>out_schema_version = 1, out_usage = out_usage outcome,
                 out_result = Res_Cancelled ''superseded_by_plan_revision''\<rparr>\<rparr>))"

end
