(* ===== verification/Task_Lifecycle.thy ===== *)
theory Task_Lifecycle
  imports State
begin

text \<open>
  What the pure transitions of \<open>State\<close> guarantee: stored labels, the framing of task identities,
  outcome and status agreement, retry bounds and generation fencing. Dispatch of one logical task
  is a step relation over its attempt and generation counters: a retry happens only for an outcome
  that is still retryable after \<open>exhaust_retry_outcome\<close>, as the task workflow does before it
  schedules another attempt.
\<close>

section \<open>Stored labels\<close>

interpretation run_status: label_codec run_status_as_str run_status_from_str
  unfolding run_status_from_str_def
proof (rule label_codecI, goal_cases)
  case (1 x)
  show ?case by (cases x) simp_all
qed simp

interpretation compensation_status: label_codec compensation_status_as_str compensation_status_from_str
  unfolding compensation_status_from_str_def
proof (rule label_codecI, goal_cases)
  case (1 x)
  show ?case by (cases x) simp_all
qed simp

interpretation source_kind: label_codec source_kind_as_str source_kind_from_str
  unfolding source_kind_from_str_def
proof (rule label_codecI, goal_cases)
  case (1 x)
  show ?case by (cases x) simp_all
qed simp

interpretation terminal_reason: label_codec terminal_reason_as_str terminal_reason_from_str
  unfolding terminal_reason_from_str_def
proof (rule label_codecI, goal_cases)
  case (1 x)
  show ?case by (cases x) simp_all
qed simp

interpretation task_status: label_codec task_status_as_str task_status_from_str
  unfolding task_status_from_str_def
proof (rule label_codecI, goal_cases)
  case (1 x)
  show ?case by (cases x) simp_all
qed simp

section \<open>Framing\<close>

lemma to_be_bytes_length [simp]: "length (to_be_bytes w) = 4"
  by (simp add: to_be_bytes_def)

lemma byte_step:
  fixes m n :: nat
  assumes "m div (d * 256) = n div (d * 256)" and "(char_of (m div d) :: char) = char_of (n div d)"
  shows "m div d = n div d"
proof -
  have "m div d div 256 = n div d div 256"
    using assms(1) by (simp only: div_mult2_eq)
  moreover have "m div d mod 256 = n div d mod 256"
    using arg_cong [OF assms(2), of "of_char :: char \<Rightarrow> nat"] by simp
  ultimately show ?thesis by (metis div_mult_mod_eq)
qed

lemma to_be_bytes_inj:
  assumes "to_be_bytes v = to_be_bytes w"
  shows "v = w"
proof -
  have bytes: "(char_of (unat v div 16777216) :: char) = char_of (unat w div 16777216)"
    "(char_of (unat v div 65536) :: char) = char_of (unat w div 65536)"
    "(char_of (unat v div 256) :: char) = char_of (unat w div 256)"
    "(char_of (unat v div 1) :: char) = char_of (unat w div 1)"
    using assms by (simp_all add: to_be_bytes_def)
  have "unat x div (16777216 * 256) = 0" for x :: u32
    using unat_bound [of x] by simp
  then have "unat v div 16777216 = unat w div 16777216"
    by (intro byte_step [OF _ bytes(1)]) simp
  then have "unat v div 65536 = unat w div 65536"
    by (intro byte_step [OF _ bytes(2)]) simp
  then have "unat v div 256 = unat w div 256"
    by (intro byte_step [OF _ bytes(3)]) simp
  then have "unat v div 1 = unat w div 1"
    by (intro byte_step [OF _ bytes(4)]) simp
  then show ?thesis by (simp add: word_unat_eq_iff)
qed

lemma append_frame_ok [res_simps]:
  "append_frame out v = Inr r \<longleftrightarrow> (\<exists>n :: u32. unat n = length v \<and> r = out @ to_be_bytes n @ v)"
  by (auto simp: append_frame_def res_simps)

lemma frame_prefix_free:
  assumes "unat m = length u" and "unat n = length v"
    and "to_be_bytes m @ u @ r = to_be_bytes n @ v @ s"
  shows "u = v \<and> r = s"
proof -
  have "to_be_bytes m = to_be_bytes n" and rest: "u @ r = v @ s"
    using assms(3) by simp_all
  then have "m = n" by (intro to_be_bytes_inj)
  with assms(1, 2) have "length u = length v" by simp
  with rest show ?thesis by simp
qed

lemma task_identity_frames:
  assumes "task_identity_name run nid key = Inr name"
  obtains a b c :: u32 where "unat a = length run" "unat b = length nid" "unat c = length key"
    and "name = to_be_bytes a @ run @ (to_be_bytes b @ nid @ (to_be_bytes c @ key @ []))"
proof -
  obtain x y where "append_frame [] run = Inr x" "append_frame x nid = Inr y" "append_frame y key = Inr name"
    using assms unfolding task_identity_name_def bind_res_eq_Inr by blast
  then show thesis
    unfolding append_frame_ok using that by force
qed

section \<open>Dispatch\<close>

inductive dispatch_step :: "retry_policy \<Rightarrow> u32 \<times> u64 \<Rightarrow> u32 \<times> u64 \<Rightarrow> bool"
  for policy :: retry_policy where
  retry:
    "out_result (exhaust_retry_outcome a policy outcome) = Res_Failed Fail_Retryable message \<Longrightarrow>
     retry_dispatch_counters a g = Inr (a', g') \<Longrightarrow> dispatch_step policy (a, g) (a', g')"
| resume:
    "input_resume_counters a g = Inr (a', g') \<Longrightarrow> dispatch_step policy (a, g) (a', g')"

inductive_cases dispatch_stepE: "dispatch_step policy (a, g) (a', g')"

lemma retry_counters_ok [res_simps]:
  "retry_dispatch_counters a g = Inr (a', g') \<longleftrightarrow>
     a \<noteq> 0 \<and> g \<noteq> 0 \<and> unat a' = unat a + 1 \<and> unat g' = unat g + 1"
  by (auto simp: retry_dispatch_counters_def res_simps)

lemma resume_counters_ok [res_simps]:
  "input_resume_counters a g = Inr (a', g') \<longleftrightarrow>
     a \<noteq> 0 \<and> g \<noteq> 0 \<and> a' = a \<and> unat g' = unat g + 1"
  by (auto simp: input_resume_counters_def res_simps)

lemma exhaust_still_retryable:
  "out_result (exhaust_retry_outcome a policy outcome) = Res_Failed Fail_Retryable message \<Longrightarrow>
     unat a < unat (rp_max_attempts policy)"
  by (auto simp: exhaust_retry_outcome_def word_arith split: execution_task_result.splits if_splits)

lemma dispatch_step_generation:
  "dispatch_step policy (a, g) (a', g') \<Longrightarrow> unat g' = unat g + 1 \<and> unat g \<noteq> 0"
  by (erule dispatch_stepE) (auto simp: res_simps unat_eq_zero)

lemma dispatch_reach_bounds:
  "(dispatch_step policy)\<^sup>*\<^sup>* (1, 1) (a, g) \<Longrightarrow>
     0 < unat a \<and> unat a \<le> max 1 (unat (rp_max_attempts policy)) \<and> unat a \<le> unat g"
proof (induction "(a, g)" arbitrary: a g rule: rtranclp_induct)
  case (step y)
  obtain b h where y: "y = (b, h)" by (cases y)
  from step.hyps(2) show ?case
    using step.hyps(3) [OF y] unfolding y
    by (elim dispatch_stepE) (auto simp: res_simps dest!: exhaust_still_retryable)
qed simp

lemma dispatch_later_generation:
  "(dispatch_step policy)\<^sup>+\<^sup>+ s s' \<Longrightarrow> unat (snd s) < unat (snd s') \<and> snd s \<noteq> 0"
proof (induction rule: tranclp_induct)
  case (base y)
  then show ?case
    using dispatch_step_generation [of policy "fst s" "snd s" "fst y" "snd y"] by auto
next
  case (step y z)
  then show ?case
    using dispatch_step_generation [of policy "fst y" "snd y" "fst z" "snd z"] by auto
qed

section \<open>Backoff\<close>

lemma unat_retry_delay:
  "unat (retry_delay_ms attempt policy) =
     min (min (unat (rp_initial_backoff_ms policy) * 2 ^ min (unat attempt - 2) 31) (2 ^ 64 - 1))
         (unat (rp_max_backoff_ms policy))"
proof -
  have exp: "unat (min (saturating_sub attempt 2) 31) = min (unat attempt - 2) 31"
    by (simp add: unat_min unat_saturating_sub)
  have "unat (push_bit k 1 :: u64) = 2 ^ k" if "k \<le> 31" for k
  proof -
    have "(2::nat) ^ k < 2 ^ 64" using that by (intro power_strict_increasing) auto
    then have "unat (of_nat (2 ^ k) :: u64) = 2 ^ k"
      unfolding unat_of_nat by simp
    then show ?thesis by (simp add: push_bit_eq_mult)
  qed
  then show ?thesis
    unfolding retry_delay_ms_def Let_def unat_min unat_saturating_mul exp
    by (simp add: unat_saturating_sub)
qed

lemma clamp_mono:
  fixes i d d' top m :: nat
  assumes "i \<le> d" and "d \<le> d'" and "i \<le> top"
  shows "min i m \<le> min (min d top) m \<and> min (min d top) m \<le> min (min d' top) m
    \<and> min (min d' top) m \<le> m"
  using assms by (auto simp: min_def)

section \<open>Properties\<close>

text \<open>C9: Every stored label parses back to its variant and nothing else parses: for run statuses,
  task statuses, compensation statuses, source kinds and terminal reasons alike, parsing a text
  succeeds with a variant exactly when the text is that variant's label.\<close>

theorem stored_labels_round_trip:
  "(run_status_from_str s = Inr x1 \<longleftrightarrow> s = run_status_as_str x1)
   \<and> (task_status_from_str s = Inr x2 \<longleftrightarrow> s = task_status_as_str x2)
   \<and> (compensation_status_from_str s = Inr x3 \<longleftrightarrow> s = compensation_status_as_str x3)
   \<and> (source_kind_from_str s = Inr x4 \<longleftrightarrow> s = source_kind_as_str x4)
   \<and> (terminal_reason_from_str s = Inr x5 \<longleftrightarrow> s = terminal_reason_as_str x5)"
  by (simp only: run_status.from_str_iff task_status.from_str_iff compensation_status.from_str_iff
      source_kind.from_str_iff terminal_reason.from_str_iff simp_thms)

text \<open>C10: The name from which a task ID is hashed determines the run, the node and the item key: the
  length frames leave no way to shift bytes from one component into another.\<close>

theorem task_identity_framing:
  assumes "task_identity_name run nid key = Inr name" and "task_identity_name run' nid' key' = Inr name"
  shows "run = run' \<and> nid = nid' \<and> key = key'"
proof -
  obtain a b c where abc: "unat a = length run" "unat b = length nid" "unat c = length key"
    and name: "name = to_be_bytes a @ run @ (to_be_bytes b @ nid @ (to_be_bytes c @ key @ []))"
    by (rule task_identity_frames [OF assms(1)])
  obtain d e f where def: "unat d = length run'" "unat e = length nid'" "unat f = length key'"
    and name': "name = to_be_bytes d @ run' @ (to_be_bytes e @ nid' @ (to_be_bytes f @ key' @ []))"
    by (rule task_identity_frames [OF assms(2)])
  note 1 = frame_prefix_free [OF abc(1) def(1) trans [OF name [symmetric] name']]
  note 2 = frame_prefix_free [OF abc(2) def(2) conjunct2 [OF 1]]
  note 3 = frame_prefix_free [OF abc(3) def(3) conjunct2 [OF 2]]
  from 1 2 3 show ?thesis by blast
qed

theorem task_identity_framing_witness:
  "(case task_identity_name ''0123456789abcdef'' ''a'' ''bc'' of Inl _ \<Rightarrow> False | Inr name \<Rightarrow>
      task_identity_name ''0123456789abcdef'' ''ab'' ''c'' \<noteq> Inr name)"
proof (cases "task_identity_name ''0123456789abcdef'' ''a'' ''bc''")
  case (Inl e)
  then show ?thesis
    by (simp add: task_identity_name_def append_frame_def try_from_nat_def)
next
  case (Inr name)
  have "task_identity_name ''0123456789abcdef'' ''ab'' ''c'' \<noteq> Inr name"
  proof
    assume "task_identity_name ''0123456789abcdef'' ''ab'' ''c'' = Inr name"
    from task_identity_framing [OF Inr this] show False by simp
  qed
  with Inr show ?thesis by (simp only: sum.case simp_thms)
qed


definition sample_policy :: retry_policy where
  "sample_policy = \<lparr>rp_max_attempts = 3, rp_initial_backoff_ms = 100, rp_max_backoff_ms = 1000\<rparr>"

definition sample_retryable :: execution_task_outcome where
  "sample_retryable = \<lparr>out_schema_version = 1, out_usage = \<lparr>use_cost_microusd = 1, use_tokens = 2,
     use_tool_calls = 0, use_retrieved_bytes = 0\<rparr>, out_result = Res_Failed Fail_Retryable ''busy''\<rparr>"




text \<open>C13: The backoff before a retry never exceeds the policy's maximum, never falls below the smaller
  of the initial and the maximal backoff, and never decreases from one attempt to the next; the
  exponent is capped, so no shift or product can wrap.\<close>

theorem retry_delay_bounds:
  assumes "attempt \<le> attempt'"
  shows "min (rp_initial_backoff_ms policy) (rp_max_backoff_ms policy) \<le> retry_delay_ms attempt policy
    \<and> retry_delay_ms attempt policy \<le> retry_delay_ms attempt' policy
    \<and> retry_delay_ms attempt' policy \<le> rp_max_backoff_ms policy"
proof -
  let ?i = "unat (rp_initial_backoff_ms policy)"
  have "min (unat attempt - 2) 31 \<le> min (unat attempt' - 2) 31"
    using assms by (simp add: word_le_nat_alt)
  then have mono: "?i * 2 ^ min (unat attempt - 2) 31 \<le> ?i * 2 ^ min (unat attempt' - 2) 31"
    by (intro mult_left_mono power_increasing) auto
  have low: "?i \<le> ?i * 2 ^ min (unat attempt - 2) 31" by simp
  have top: "?i \<le> 2 ^ 64 - 1" using unat_bound [of "rp_initial_backoff_ms policy"] by simp
  show ?thesis
    unfolding word_le_nat_alt unat_retry_delay unat_min by (rule clamp_mono [OF low mono top])
qed

theorem retry_delay_bounds_witness:
  "retry_delay_ms 3 sample_policy \<le> retry_delay_ms 9 sample_policy"
  using retry_delay_bounds [of 3 9 sample_policy] by simp

end
