(* ===== verification/Capability.thy ===== *)
theory Capability
  imports State
begin

text \<open>
  Capability catalogs, authorization envelopes, policy contexts and domain-separated hashes
  (\<open>moa-execution/src/capability.rs\<close>, with the policy enums of \<open>moa-core/src/types\<close>). What other
  crates supply is the record \<open>exec_lib\<close>: the JSON printer, BLAKE3, the derived encoders of the
  larger structures (\<open>None\<close> when serialization fails) and the JSON Schema validator.
\<close>

section \<open>Hashes\<close>

unbundle bit_operations_syntax

text \<open>An \<open>ExecutionHash\<close> is its 32 digest bytes.\<close>

type_synonym execution_hash = "u8 list"

definition hex_digit :: "u8 \<Rightarrow> char" where
  "hex_digit n = ''0123456789abcdef'' ! unat n"

definition encode_hex :: "execution_hash \<Rightarrow> string" where
  "encode_hex bytes = concat (map (\<lambda>byte. [hex_digit (drop_bit 4 byte), hex_digit (byte AND 0x0f)]) bytes)"

definition hash_to_string :: "execution_hash \<Rightarrow> string" where
  "hash_to_string h = encode_hex h"

definition is_hex_byte :: "char \<Rightarrow> bool" where
  "is_hex_byte c = (CHR ''0'' \<le> c \<and> c \<le> CHR ''9'' \<or> CHR ''a'' \<le> c \<and> c \<le> CHR ''f'')"

definition decode_hex_nibble :: "char \<Rightarrow> u8 option" where
  "decode_hex_nibble c =
     (if CHR ''0'' \<le> c \<and> c \<le> CHR ''9'' then Some (of_nat (of_char c - 48))
      else if CHR ''a'' \<le> c \<and> c \<le> CHR ''f'' then Some (of_nat (of_char c - 97 + 10))
      else None)"

fun decode_hex_pairs :: "string \<Rightarrow> execution_hash result" where
  "decode_hex_pairs (a # b # rest) =
     bind_res (ok_or Err_InvalidHash (decode_hex_nibble a)) (\<lambda>high.
     bind_res (ok_or Err_InvalidHash (decode_hex_nibble b)) (\<lambda>low.
     bind_res (decode_hex_pairs rest) (\<lambda>bytes.
     Inr (((push_bit 4 high) OR low) # bytes))))"
| "decode_hex_pairs _ = Inr []"

definition hash_from_str :: "string \<Rightarrow> execution_hash result" where
  "hash_from_str value =
     (if length value \<noteq> 64 \<or> (\<exists>c\<in>set value. \<not> is_hex_byte c) then Inl Err_InvalidHash
      else decode_hex_pairs value)"

section \<open>Capabilities\<close>

datatype action_class =
    Act_Read | Act_LocalWrite | Act_CommandExecution | Act_ExternalWrite | Act_DataExport
  | Act_Destructive | Act_PermissionChange | Act_Deployment | Act_MoneyMovement

datatype risk_level = Risk_Low | Risk_Medium | Risk_High

datatype action_policy_effect = Effect_Allow | Effect_Deny | Effect_AdminReview

datatype idempotency_class = Idempotent | NonIdempotent

datatype tool_async_mode = SynchronousOnly | MayReturnExternalJob string

datatype execution_class = Class_Data | Class_Compute | Class_Model | Class_External

record installed_connector_action =
  ica_connector_ref :: artifact_ref
  ica_connection_id :: uuid
  ica_binding_id :: uuid
  ica_connection_generation :: u64
  ica_definition_artifact_uid :: uuid
  ica_definition_revision_uid :: uuid
  ica_action_id :: string
  ica_contract_hash :: string
  ica_governed_contract_revision :: string
  ica_minimum_effect :: action_policy_effect
  ica_tool_name :: string

datatype capability_source =
    Source_BuiltInTool string
  | Source_HandTool string
  | Source_McpTool string string string
  | Source_ActionArtifact artifact_ref uuid string
  | Source_ConnectorAction artifact_ref uuid string string
  | Source_InstalledConnectorAction installed_connector_action
  | Source_SkillAction artifact_ref uuid string string
  | Source_SkillCode artifact_ref uuid string
  | Source_Memory string string
  | Source_Knowledge string
  | Source_Model

fun model_visible_tool_name :: "capability_source \<Rightarrow> string option" where
  "model_visible_tool_name (Source_BuiltInTool name) = Some name"
| "model_visible_tool_name (Source_HandTool name) = Some name"
| "model_visible_tool_name (Source_McpTool _ tool_name _) = Some tool_name"
| "model_visible_tool_name (Source_ActionArtifact _ _ tool_name) = Some tool_name"
| "model_visible_tool_name (Source_ConnectorAction _ _ _ tool_name) = Some tool_name"
| "model_visible_tool_name (Source_InstalledConnectorAction a) = Some (ica_tool_name a)"
| "model_visible_tool_name (Source_SkillAction _ _ _ tool_name) = Some tool_name"
| "model_visible_tool_name (Source_Memory _ tool_name) = Some tool_name"
| "model_visible_tool_name (Source_SkillCode _ _ _) = None"
| "model_visible_tool_name (Source_Knowledge _) = None"
| "model_visible_tool_name Source_Model = None"

record capability_policy_context =
  pc_source :: capability_source
  pc_canonical_action_ref :: "artifact_ref option"
  pc_artifact_uid :: "uuid option"
  pc_revision_uid :: "uuid option"
  pc_minimum_effect :: action_policy_effect

record capability_rollback_contract =
  rb_compensator :: capability_reference
  rb_input_mapping :: compensation_input_mapping

record execution_capability =
  ec_reference :: capability_reference
  ec_contract_revision :: string
  ec_description :: string
  ec_input_schema :: json
  ec_output_schema :: json
  ec_action_class :: action_class
  ec_risk_level :: risk_level
  ec_default_effect :: action_policy_effect
  ec_idempotency_class :: idempotency_class
  ec_async_mode :: tool_async_mode
  ec_execution_class :: execution_class
  ec_requires_sandbox :: bool
  ec_source :: capability_source
  ec_policy_context :: capability_policy_context
  ec_estimate :: execution_estimate
  ec_rollback :: "capability_rollback_contract option"

record execution_authorization_envelope =
  env_capability_refs :: "capability_reference list"
  env_skill_refs :: "artifact_ref list"

record execution_capability_catalog =
  cat_capabilities :: "execution_capability list"
  cat_catalog_hash :: execution_hash

record exec_lib =
  xl_serde :: serde_lib
  xl_blake3 :: "string \<Rightarrow> execution_hash"
  xl_capabilities_json :: "execution_capability list \<Rightarrow> json option"
  xl_plan_json :: "execution_plan_definition \<Rightarrow> json option"
  xl_amendment_json :: "plan_amendment \<Rightarrow> json option"
  xl_operations_json :: "plan_amendment_operation list \<Rightarrow> json option"
  xl_schema_builds :: "json \<Rightarrow> bool"
  xl_schema_first_error :: "json \<Rightarrow> json \<Rightarrow> string option"

definition rollback_matches :: "capability_rollback_contract \<Rightarrow> execution_compensation \<Rightarrow> bool" where
  "rollback_matches self compensation =
     (rb_compensator self = comp_compensator compensation
      \<and> rb_input_mapping self = comp_input_mapping compensation)"

definition is_trimmed_nonempty :: "string \<Rightarrow> bool" where
  "is_trimmed_nonempty value = (value \<noteq> [] \<and> trim value = value)"

definition is_canonical_digest :: "string \<Rightarrow> bool" where
  "is_canonical_digest value = (length value = 64 \<and> list_all is_hex_byte value)"

definition is_nil_uuid :: "uuid \<Rightarrow> bool" where
  "is_nil_uuid u = (u = replicate 16 (char_of (0 :: nat)))"

definition policy_context_registered :: "capability_source \<Rightarrow> capability_policy_context" where
  "policy_context_registered source = \<lparr>pc_source = source, pc_canonical_action_ref = None,
     pc_artifact_uid = None, pc_revision_uid = None, pc_minimum_effect = Effect_Allow\<rparr>"

definition policy_context_artifact ::
  "capability_source \<Rightarrow> artifact_ref option \<Rightarrow> uuid \<Rightarrow> uuid \<Rightarrow> action_policy_effect
    \<Rightarrow> capability_policy_context" where
  "policy_context_artifact source action_ref artifact_uid revision_uid effect =
     \<lparr>pc_source = source, pc_canonical_action_ref = action_ref, pc_artifact_uid = Some artifact_uid,
      pc_revision_uid = Some revision_uid, pc_minimum_effect = effect\<rparr>"

text \<open>The guards of one match arm of \<open>validate_for_source\<close>, in order; all raise the same error.\<close>

definition installed_pins_complete :: "installed_connector_action \<Rightarrow> bool" where
  "installed_pins_complete a =
     (\<not> (is_nil_uuid (ica_connection_id a) \<or> is_nil_uuid (ica_binding_id a)
       \<or> ica_connection_generation a = 0 \<or> is_nil_uuid (ica_definition_artifact_uid a)
       \<or> is_nil_uuid (ica_definition_revision_uid a) \<or> \<not> is_trimmed_nonempty (ica_action_id a)
       \<or> \<not> is_canonical_digest (ica_contract_hash a)
       \<or> \<not> is_trimmed_nonempty (ica_governed_contract_revision a)
       \<or> \<not> is_trimmed_nonempty (ica_tool_name a)))"

definition validate_for_source ::
  "capability_policy_context \<Rightarrow> capability_source \<Rightarrow> unit result" where
  "validate_for_source self source =
     (case source of
        Source_ActionArtifact action_ref revision_uid _ \<Rightarrow>
          bind_res (ensure (pc_canonical_action_ref self = Some action_ref) Err_InvalidProjection) (\<lambda>_.
          ensure (pc_artifact_uid self \<noteq> None \<and> pc_revision_uid self = Some revision_uid)
                 Err_InvalidProjection)
      | Source_ConnectorAction connector_ref revision_uid action_id _ \<Rightarrow>
          bind_res (ensure (pc_canonical_action_ref self
                      = Some (Ref_Action (target_name connector_ref) action_id))
                      Err_InvalidProjection) (\<lambda>_.
          ensure (pc_artifact_uid self \<noteq> None \<and> pc_revision_uid self = Some revision_uid)
                 Err_InvalidProjection)
      | Source_InstalledConnectorAction a \<Rightarrow>
          bind_res (ensure (artifact_kind_of (ica_connector_ref a) = Some Kind_Connector)
                      Err_InvalidProjection) (\<lambda>_.
          bind_res (ensure (pc_canonical_action_ref self
                      = Some (Ref_Action (target_name (ica_connector_ref a)) (ica_action_id a)))
                      Err_InvalidProjection) (\<lambda>_.
          bind_res (ensure (pc_artifact_uid self = Some (ica_definition_artifact_uid a)
                      \<and> pc_revision_uid self = Some (ica_definition_revision_uid a))
                      Err_InvalidProjection) (\<lambda>_.
          bind_res (ensure (pc_minimum_effect self = ica_minimum_effect a) Err_InvalidProjection) (\<lambda>_.
          ensure (installed_pins_complete a) Err_InvalidProjection))))
      | Source_SkillAction _ revision_uid _ _ \<Rightarrow>
          ensure (pc_artifact_uid self \<noteq> None \<and> pc_revision_uid self = Some revision_uid)
                 Err_InvalidProjection
      | Source_SkillCode _ revision_uid _ \<Rightarrow>
          ensure (pc_artifact_uid self \<noteq> None \<and> pc_revision_uid self = Some revision_uid)
                 Err_InvalidProjection
      | _ \<Rightarrow>
          ensure (pc_canonical_action_ref self = None \<and> pc_artifact_uid self = None
                  \<and> pc_revision_uid self = None \<and> pc_minimum_effect self = Effect_Allow)
                 Err_InvalidProjection)"

definition validate_policy_context :: "execution_capability \<Rightarrow> unit result" where
  "validate_policy_context self =
     bind_res (ensure (case ec_source self of
                  Source_HandTool _ \<Rightarrow> ec_requires_sandbox self
                | Source_SkillCode _ _ _ \<Rightarrow> ec_requires_sandbox self
                | _ \<Rightarrow> True) Err_InvalidProjection) (\<lambda>_.
     bind_res (ensure (case ec_async_mode self of
                  MayReturnExternalJob provider \<Rightarrow> \<not> is_blank provider
                | SynchronousOnly \<Rightarrow> True) Err_InvalidProjection) (\<lambda>_.
     bind_res (ensure (pc_source (ec_policy_context self) = ec_source self)
                      Err_InvalidProjection) (\<lambda>_.
     bind_res (ensure (case ec_source self of
                  Source_InstalledConnectorAction a \<Rightarrow>
                    ec_contract_revision self = ica_governed_contract_revision a
                | _ \<Rightarrow> True) Err_InvalidProjection) (\<lambda>_.
     validate_for_source (ec_policy_context self) (ec_source self)))))"

section \<open>Catalog and hashes\<close>

definition capability_reference_json :: "capability_reference \<Rightarrow> json" where
  "capability_reference_json r =
     JObject [(''name'', JString (cap_name r)), (''version'', JString (cap_version r))]"

definition reference_sort_key :: "exec_lib \<Rightarrow> capability_reference \<Rightarrow> string" where
  "reference_sort_key lib r = canonical_json_bytes (xl_serde lib) (capability_reference_json r)"

definition hash_preimage :: "exec_lib \<Rightarrow> string \<Rightarrow> json \<Rightarrow> string" where
  "hash_preimage lib domain value =
     domain @ [char_of (0 :: nat)] @ canonical_json_bytes (xl_serde lib) value"

definition hash_serializable :: "exec_lib \<Rightarrow> string \<Rightarrow> json option \<Rightarrow> execution_hash result" where
  "hash_serializable lib domain value =
     bind_res (ok_or Err_CanonicalJson value) (\<lambda>v. Inr (xl_blake3 lib (hash_preimage lib domain v)))"

definition catalog_hash :: "exec_lib \<Rightarrow> execution_capability list \<Rightarrow> execution_hash result" where
  "catalog_hash lib capabilities =
     hash_serializable lib ''moa.execution.catalog'' (xl_capabilities_json lib capabilities)"

definition plan_hash :: "exec_lib \<Rightarrow> execution_plan_definition \<Rightarrow> execution_hash result" where
  "plan_hash lib plan =
     hash_serializable lib ''moa.execution.plan''
       (xl_plan_json lib (plan\<lparr>plan_nodes := sort_key node_id (plan_nodes plan)\<rparr>))"

definition amendment_hash :: "exec_lib \<Rightarrow> plan_amendment \<Rightarrow> execution_hash result" where
  "amendment_hash lib amendment =
     hash_serializable lib ''moa.execution.amendment'' (xl_amendment_json lib amendment)"

definition amendment_operations_fingerprint :: "exec_lib \<Rightarrow> plan_amendment \<Rightarrow> execution_hash result" where
  "amendment_operations_fingerprint lib amendment =
     hash_serializable lib ''moa.execution.amendment-operations''
       (map_option (\<lambda>ops. JObject [(''operations'', ops)]) (xl_operations_json lib (am_operations amendment)))"

definition task_output_hash :: "exec_lib \<Rightarrow> json \<Rightarrow> execution_hash result" where
  "task_output_hash lib output = hash_serializable lib ''moa.execution.task-output'' (Some output)"

definition node_output_hash :: "exec_lib \<Rightarrow> json \<Rightarrow> execution_hash result" where
  "node_output_hash lib output = hash_serializable lib ''moa.execution.node-output'' (Some output)"

definition capability_version_of :: "exec_lib \<Rightarrow> string \<Rightarrow> json \<Rightarrow> string result" where
  "capability_version_of lib domain metadata =
     bind_res (hash_serializable lib domain (Some metadata)) (\<lambda>h. Inr (hash_to_string h))"

fun first_duplicate :: "(string \<times> execution_capability) list \<Rightarrow> execution_capability option" where
  "first_duplicate (a # b # rest) = (if fst a = fst b then Some (snd a) else first_duplicate (b # rest))"
| "first_duplicate _ = None"

definition catalog_build :: "exec_lib \<Rightarrow> execution_capability list \<Rightarrow> execution_capability_catalog result" where
  "catalog_build lib capabilities =
     bind_res (map_res (\<lambda>capability.
         bind_res (validate_policy_context capability) (\<lambda>_.
         Inr (reference_sort_key lib (ec_reference capability), capability))) capabilities) (\<lambda>keyed.
     let keyed = sort_key fst keyed in
     case first_duplicate keyed of
       Some c \<Rightarrow> Inl (Err_DuplicateCapabilityReference (cap_name (ec_reference c))
                       (cap_version (ec_reference c)))
     | None \<Rightarrow>
       let capabilities = map snd keyed in
       bind_res (catalog_hash lib capabilities) (\<lambda>h.
       Inr \<lparr>cat_capabilities = capabilities, cat_catalog_hash = h\<rparr>))"

text \<open>The scheduler's check of a catalog (\<open>interpreter/catalog.rs\<close>).\<close>

fun validate_catalog_entries :: "exec_lib \<Rightarrow> string option \<Rightarrow> execution_capability list \<Rightarrow> unit result" where
  "validate_catalog_entries lib previous [] = Inr ()"
| "validate_catalog_entries lib previous (capability # rest) =
     (if est_tasks (ec_estimate capability) \<noteq> 1 then Inl Err_InvalidProjection
      else let key = reference_sort_key lib (ec_reference capability) in
        if (case previous of None \<Rightarrow> False | Some p \<Rightarrow> key \<le> p) then Inl Err_InvalidProjection
        else validate_catalog_entries lib (Some key) rest)"

definition validate_scheduler_catalog :: "exec_lib \<Rightarrow> execution_capability_catalog \<Rightarrow> unit result" where
  "validate_scheduler_catalog lib catalog = validate_catalog_entries lib None (cat_capabilities catalog)"

end
