(* ===== verification/Schema.thy ===== *)
theory Schema
  imports Capability
begin

text \<open>
  JSON Schema validation with external retrieval disabled (\<open>moa-execution/src/schema.rs\<close>). The
  Draft 2020-12 validator belongs to another crate: \<open>xl_schema_builds\<close> says whether it accepts a
  schema, and \<open>xl_schema_first_error\<close> is the instance path of its first complaint, if any.
\<close>

fun is_object :: "json \<Rightarrow> bool" where
  "is_object (JObject _) = True"
| "is_object _ = False"

definition is_reference_key :: "string \<Rightarrow> bool" where
  "is_reference_key key = (key = ''$ref'' \<or> key = ''$dynamicRef'' \<or> key = ''$recursiveRef'')"

definition check_reference_entry :: "string \<Rightarrow> json \<Rightarrow> string \<Rightarrow> unit result" where
  "check_reference_entry key value child_path =
     (if is_reference_key key then
        bind_res (ok_or (Err_Schema child_path) (as_str value)) (\<lambda>reference.
        ensure (starts_with ''#'' reference) (Err_Schema child_path))
      else Inr ())"

fun reject_external_references :: "json \<Rightarrow> string \<Rightarrow> unit result"
  and reject_in_array :: "json list \<Rightarrow> nat \<Rightarrow> string \<Rightarrow> unit result"
  and reject_in_object :: "(string \<times> json) list \<Rightarrow> string \<Rightarrow> unit result" where
  "reject_external_references (JArray values) path = reject_in_array values 0 path"
| "reject_external_references (JObject obj) path = reject_in_object obj path"
| "reject_external_references JNull path = Inr ()"
| "reject_external_references (JBool _) path = Inr ()"
| "reject_external_references (JNumber _) path = Inr ()"
| "reject_external_references (JString _) path = Inr ()"
| "reject_in_array [] index path = Inr ()"
| "reject_in_array (value # values) index path =
     bind_res (reject_external_references value (path @ ''/'' @ show_nat index)) (\<lambda>_.
     reject_in_array values (Suc index) path)"
| "reject_in_object [] path = Inr ()"
| "reject_in_object ((key, value) # entries) path =
     bind_res (check_reference_entry key value (path @ ''/'' @ key)) (\<lambda>_.
     bind_res (reject_external_references value (path @ ''/'' @ key)) (\<lambda>_.
     reject_in_object entries path))"

definition build_validator :: "exec_lib \<Rightarrow> json \<Rightarrow> string \<Rightarrow> unit result" where
  "build_validator lib schema path = ensure (xl_schema_builds lib schema) (Err_Schema path)"

definition build_validator_checked :: "exec_lib \<Rightarrow> json \<Rightarrow> string \<Rightarrow> unit result" where
  "build_validator_checked lib schema path =
     bind_res (ensure (is_object schema) (Err_Schema path)) (\<lambda>_.
     bind_res (reject_external_references schema path) (\<lambda>_.
     build_validator lib schema path))"

definition validate_schema :: "exec_lib \<Rightarrow> json \<Rightarrow> string \<Rightarrow> unit result" where
  "validate_schema lib schema path =
     bind_res (ensure (is_object schema) (Err_Schema path)) (\<lambda>_.
     bind_res (reject_external_references schema path) (\<lambda>_.
     build_validator lib schema path))"

definition validate_instance :: "exec_lib \<Rightarrow> json \<Rightarrow> json \<Rightarrow> string \<Rightarrow> unit result" where
  "validate_instance lib schema inst path =
     bind_res (build_validator_checked lib schema path) (\<lambda>_.
     case xl_schema_first_error lib schema inst of
       Some instance_path \<Rightarrow> Inl (Err_Schema (path @ instance_path))
     | None \<Rightarrow> Inr ())"

section \<open>Laws\<close>

text \<open>Every reference at any depth is a string that starts with \<open>#\<close>.\<close>

definition local_reference :: "json \<Rightarrow> bool" where
  "local_reference value = (case as_str value of None \<Rightarrow> False | Some s \<Rightarrow> starts_with ''#'' s)"

fun references_local :: "json \<Rightarrow> bool" where
  "references_local (JArray values) = list_all references_local values"
| "references_local (JObject obj) =
     list_all (\<lambda>(key, value). (is_reference_key key \<longrightarrow> local_reference value) \<and> references_local value) obj"
| "references_local _ = True"

lemma check_reference_entry_ok:
  "check_reference_entry key value p = Inr u \<longleftrightarrow> (is_reference_key key \<longrightarrow> local_reference value)"
  by (auto simp: check_reference_entry_def local_reference_def res_simps split: option.splits)

lemma reject_external_references_ok:
  "reject_external_references v path = Inr u \<longleftrightarrow> references_local v"
  "reject_in_array vs i path = Inr u \<longleftrightarrow> list_all references_local vs"
  "reject_in_object kvs path = Inr u \<longleftrightarrow> references_local (JObject kvs)"
  by (induction v path and vs i path and kvs path
      rule: reject_external_references_reject_in_array_reject_in_object.induct)
    (auto simp: bind_res_eq_Inr check_reference_entry_ok)

lemma validate_instance_ok:
  "validate_instance lib schema inst path = Inr u \<longleftrightarrow>
     validate_schema lib schema path = Inr () \<and> xl_schema_first_error lib schema inst = None"
  by (auto simp: validate_instance_def validate_schema_def build_validator_checked_def res_simps
      split: option.splits)

lemma validate_schema_ok:
  "validate_schema lib schema path = Inr u \<longleftrightarrow>
     is_object schema \<and> xl_schema_builds lib schema
     \<and> references_local schema"
  by (auto simp: validate_schema_def build_validator_def bind_res_eq_Inr ensure_eq_Inr
      reject_external_references_ok)

end
