(* ===== verification/Execution_Config.thy ===== *)
theory Execution_Config
  imports Moa_Prelude
begin

text \<open>
  Run resource and planner settings (\<open>moa-config/src/execution.rs\<close>): the settings record, its
  defaults and its validation. A configuration error keeps the names of the settings that its
  message names; \<open>usize\<close> settings are natural numbers.
\<close>

section \<open>Settings\<close>

datatype config_error =
    Config_TooLarge string
  | Config_NotPositive string
  | Config_Exceeds string string
  | Config_AboveBound string
  | Config_BelowBound string

record execution_config =
  cfg_planner_repair_attempts :: u32
  cfg_repeated_failure_limit :: u32
  cfg_max_in_flight_tasks :: nat
  cfg_maximum_horizon_seconds :: u64
  cfg_maximum_activation_steps :: nat
  cfg_dispatch_batch_size :: nat
  cfg_active_attempt_timeout_seconds :: u64
  cfg_attempt_heartbeat_staleness_seconds :: u64
  cfg_max_tenant_active_runs :: u32
  cfg_max_fleet_active_runs :: u32
  cfg_max_tenant_active_tasks :: u32
  cfg_max_fleet_active_tasks :: u32
  cfg_max_tenant_parked_runs :: u32
  cfg_max_fleet_parked_runs :: u32
  cfg_max_tenant_scheduled_triggers :: u32
  cfg_max_fleet_scheduled_triggers :: u32
  cfg_max_tenant_external_jobs :: u32
  cfg_max_fleet_external_jobs :: u32
  cfg_trigger_reconciliation_cadence_seconds :: u64
  cfg_terminal_detail_retention_days :: u64
  cfg_max_tasks :: u64
  cfg_max_tokens :: u64
  cfg_max_tool_calls :: u64
  cfg_max_retrieved_bytes :: u64
  cfg_max_cost_microusd :: u64
  cfg_unattended_max_cost_microusd :: u64
  cfg_agent_turn_cost_microusd :: u64
  cfg_agent_turn_tokens :: u64
  cfg_agent_turn_tool_calls :: u64
  cfg_agent_turn_retrieved_bytes :: u64
  cfg_verifier_turn_cost_microusd :: u64
  cfg_verifier_turn_tokens :: u64
  cfg_verifier_turn_tool_calls :: u64
  cfg_verifier_turn_retrieved_bytes :: u64

definition default_max_in_flight_tasks :: nat where
  "default_max_in_flight_tasks = 64"

definition max_terminal_drain_page_tasks :: nat where
  "max_terminal_drain_page_tasks = 1000"

definition execution_config_default :: execution_config where
  "execution_config_default = \<lparr>cfg_planner_repair_attempts = 1,
     cfg_repeated_failure_limit = 3, cfg_max_in_flight_tasks = default_max_in_flight_tasks,
     cfg_maximum_horizon_seconds = 30 * 24 * 60 * 60, cfg_maximum_activation_steps = 128,
     cfg_dispatch_batch_size = default_max_in_flight_tasks,
     cfg_active_attempt_timeout_seconds = 10 * 60,
     cfg_attempt_heartbeat_staleness_seconds = 2 * 60, cfg_max_tenant_active_runs = 100,
     cfg_max_fleet_active_runs = 1000, cfg_max_tenant_active_tasks = 256,
     cfg_max_fleet_active_tasks = 4096, cfg_max_tenant_parked_runs = 10000,
     cfg_max_fleet_parked_runs = 100000, cfg_max_tenant_scheduled_triggers = 50000,
     cfg_max_fleet_scheduled_triggers = 500000, cfg_max_tenant_external_jobs = 1000,
     cfg_max_fleet_external_jobs = 10000, cfg_trigger_reconciliation_cadence_seconds = 60,
     cfg_terminal_detail_retention_days = 30, cfg_max_tasks = 10000, cfg_max_tokens = 10000000,
     cfg_max_tool_calls = 100000, cfg_max_retrieved_bytes = 10000000000,
     cfg_max_cost_microusd = 100000000, cfg_unattended_max_cost_microusd = 5000000,
     cfg_agent_turn_cost_microusd = 100000, cfg_agent_turn_tokens = 8000,
     cfg_agent_turn_tool_calls = 8, cfg_agent_turn_retrieved_bytes = 10000000,
     cfg_verifier_turn_cost_microusd = 200000, cfg_verifier_turn_tokens = 16000,
     cfg_verifier_turn_tool_calls = 4, cfg_verifier_turn_retrieved_bytes = 1000000\<rparr>"

section \<open>Validation\<close>

definition require_positive_limit :: "string \<Rightarrow> u64 \<Rightarrow> config_error + unit" where
  "require_positive_limit name value = ensure (value \<noteq> 0) (Config_NotPositive name)"

definition usize_as_u64 :: "string \<Rightarrow> nat \<Rightarrow> config_error + u64" where
  "usize_as_u64 name value = ok_or (Config_TooLarge name) (try_from_nat value)"

text \<open>The limits in the order of the array literal; its elements are evaluated before the loop starts.\<close>

definition config_limits :: "execution_config \<Rightarrow> config_error + (string \<times> u64) list" where
  "config_limits self =
     bind_res (usize_as_u64 ''execution.max_in_flight_tasks'' (cfg_max_in_flight_tasks self)) (\<lambda>u_max_in_flight_tasks.
     bind_res (usize_as_u64 ''execution.maximum_activation_steps'' (cfg_maximum_activation_steps self)) (\<lambda>u_maximum_activation_steps.
     bind_res (usize_as_u64 ''execution.dispatch_batch_size'' (cfg_dispatch_batch_size self)) (\<lambda>u_dispatch_batch_size.
     Inr [(''execution.repeated_failure_limit'', ucast (cfg_repeated_failure_limit self)),
       (''execution.max_in_flight_tasks'', u_max_in_flight_tasks),
       (''execution.maximum_horizon_seconds'', cfg_maximum_horizon_seconds self),
       (''execution.maximum_activation_steps'', u_maximum_activation_steps),
       (''execution.dispatch_batch_size'', u_dispatch_batch_size),
       (''execution.active_attempt_timeout_seconds'', cfg_active_attempt_timeout_seconds self),
       (''execution.attempt_heartbeat_staleness_seconds'', cfg_attempt_heartbeat_staleness_seconds self),
       (''execution.max_tenant_active_runs'', ucast (cfg_max_tenant_active_runs self)),
       (''execution.max_fleet_active_runs'', ucast (cfg_max_fleet_active_runs self)),
       (''execution.max_tenant_active_tasks'', ucast (cfg_max_tenant_active_tasks self)),
       (''execution.max_fleet_active_tasks'', ucast (cfg_max_fleet_active_tasks self)),
       (''execution.max_tenant_parked_runs'', ucast (cfg_max_tenant_parked_runs self)),
       (''execution.max_fleet_parked_runs'', ucast (cfg_max_fleet_parked_runs self)),
       (''execution.max_tenant_scheduled_triggers'', ucast (cfg_max_tenant_scheduled_triggers self)),
       (''execution.max_fleet_scheduled_triggers'', ucast (cfg_max_fleet_scheduled_triggers self)),
       (''execution.max_tenant_external_jobs'', ucast (cfg_max_tenant_external_jobs self)),
       (''execution.max_fleet_external_jobs'', ucast (cfg_max_fleet_external_jobs self)),
       (''execution.trigger_reconciliation_cadence_seconds'', cfg_trigger_reconciliation_cadence_seconds self),
       (''execution.terminal_detail_retention_days'', cfg_terminal_detail_retention_days self),
       (''execution.max_tasks'', cfg_max_tasks self),
       (''execution.max_tokens'', cfg_max_tokens self),
       (''execution.max_tool_calls'', cfg_max_tool_calls self),
       (''execution.max_retrieved_bytes'', cfg_max_retrieved_bytes self),
       (''execution.max_cost_microusd'', cfg_max_cost_microusd self),
       (''execution.agent_turn_cost_microusd'', cfg_agent_turn_cost_microusd self),
       (''execution.agent_turn_tokens'', cfg_agent_turn_tokens self),
       (''execution.agent_turn_tool_calls'', cfg_agent_turn_tool_calls self),
       (''execution.agent_turn_retrieved_bytes'', cfg_agent_turn_retrieved_bytes self),
       (''execution.verifier_turn_cost_microusd'', cfg_verifier_turn_cost_microusd self),
       (''execution.verifier_turn_tokens'', cfg_verifier_turn_tokens self),
       (''execution.verifier_turn_tool_calls'', cfg_verifier_turn_tool_calls self),
       (''execution.verifier_turn_retrieved_bytes'', cfg_verifier_turn_retrieved_bytes self)])))"

text \<open>Tenant capacities against fleet capacities.\<close>

definition config_capacities :: "execution_config \<Rightarrow> (string \<times> u32 \<times> string \<times> u32) list" where
  "config_capacities self =
     [(''execution.max_tenant_active_runs'', cfg_max_tenant_active_runs self,
       ''execution.max_fleet_active_runs'', cfg_max_fleet_active_runs self),
      (''execution.max_tenant_active_tasks'', cfg_max_tenant_active_tasks self,
       ''execution.max_fleet_active_tasks'', cfg_max_fleet_active_tasks self),
      (''execution.max_tenant_parked_runs'', cfg_max_tenant_parked_runs self,
       ''execution.max_fleet_parked_runs'', cfg_max_fleet_parked_runs self),
      (''execution.max_tenant_scheduled_triggers'', cfg_max_tenant_scheduled_triggers self,
       ''execution.max_fleet_scheduled_triggers'', cfg_max_fleet_scheduled_triggers self),
      (''execution.max_tenant_external_jobs'', cfg_max_tenant_external_jobs self,
       ''execution.max_fleet_external_jobs'', cfg_max_fleet_external_jobs self)]"

definition config_validate :: "execution_config \<Rightarrow> config_error + unit" where
  "config_validate self =
     bind_res (config_limits self) (\<lambda>limits.
     bind_res (fold_res (\<lambda>(name, value) _. require_positive_limit name value) limits ()) (\<lambda>_.
     bind_res (ensure (cfg_dispatch_batch_size self \<le> cfg_max_in_flight_tasks self)
       (Config_Exceeds ''execution.dispatch_batch_size'' ''execution.max_in_flight_tasks'')) (\<lambda>_.
     bind_res (ensure (cfg_max_in_flight_tasks self \<le> max_terminal_drain_page_tasks)
       (Config_AboveBound ''execution.max_in_flight_tasks'')) (\<lambda>_.
     bind_res (ensure (3 \<le> cfg_dispatch_batch_size self)
       (Config_BelowBound ''execution.dispatch_batch_size'')) (\<lambda>_.
     bind_res (ensure (cfg_active_attempt_timeout_seconds self \<le> cfg_maximum_horizon_seconds self)
       (Config_Exceeds ''execution.active_attempt_timeout_seconds''
          ''execution.maximum_horizon_seconds'')) (\<lambda>_.
     bind_res (ensure (cfg_attempt_heartbeat_staleness_seconds self < cfg_active_attempt_timeout_seconds self)
       (Config_Exceeds ''execution.attempt_heartbeat_staleness_seconds''
          ''execution.active_attempt_timeout_seconds'')) (\<lambda>_.
     bind_res (ensure (cfg_trigger_reconciliation_cadence_seconds self \<le> cfg_active_attempt_timeout_seconds self)
       (Config_Exceeds ''execution.trigger_reconciliation_cadence_seconds''
          ''execution.active_attempt_timeout_seconds'')) (\<lambda>_.
     bind_res (fold_res (\<lambda>(tenant_name, tenant, fleet_name, fleet) _.
         ensure (tenant \<le> fleet) (Config_Exceeds tenant_name fleet_name)) (config_capacities self) ()) (\<lambda>_.
     bind_res (ensure (cfg_max_tenant_active_runs self \<le> cfg_max_tenant_parked_runs self)
       (Config_Exceeds ''execution.max_tenant_active_runs'' ''execution.max_tenant_parked_runs'')) (\<lambda>_.
     ensure (cfg_max_fleet_active_runs self \<le> cfg_max_fleet_parked_runs self)
       (Config_Exceeds ''execution.max_fleet_active_runs'' ''execution.max_fleet_parked_runs'')))))))))))"

section \<open>Laws\<close>

lemma fold_res_ensure:
  "fold_res f xs () = Inr () \<longleftrightarrow> (\<forall>x\<in>set xs. f x () = Inr ())"
  by (induction xs) (auto simp: res_simps)

lemma default_config_valid: "config_validate execution_config_default = Inr ()"
  by code_simp

lemma config_limits_positive:
  assumes "config_validate c = Inr ()"
  shows "\<exists>limits. config_limits c = Inr limits \<and> (\<forall>(name, value)\<in>set limits. value \<noteq> 0)"
  using assms
  by (auto simp: config_validate_def bind_res_eq_Inr fold_res_ensure case_prod_beta
      require_positive_limit_def ensure_eq_Inr)



end
