(* ===== verification/Compiler_Types.thy ===== *)
theory Compiler_Types
  imports Schema Execution_Config Budget
begin

text \<open>
  Requests, reports and results of the plan compiler (\<open>moa-execution/src/compiler/mod.rs\<close>). A
  validation issue keeps its severity, code and path; the message is diagnostic text. Passes append
  issues to the report that they receive.
\<close>

datatype validation_severity = Sev_Error | Sev_Warning

record validation_issue =
  iss_severity :: validation_severity
  iss_code :: string
  iss_path :: string

type_synonym report = "validation_issue list"

definition has_errors :: "report \<Rightarrow> bool" where
  "has_errors issues = (\<exists>issue\<in>set issues. iss_severity issue = Sev_Error)"

definition report_error :: "string \<Rightarrow> string \<Rightarrow> report \<Rightarrow> report" where
  "report_error code path issues =
     issues @ [\<lparr>iss_severity = Sev_Error, iss_code = code, iss_path = path\<rparr>]"

record canonical_execution_plan =
  cp_definition :: execution_plan_definition
  cp_plan_hash :: execution_hash
  cp_catalog_hash :: execution_hash
  cp_estimate :: execution_estimate
  cp_report :: report

record compiled_execution =
  ce_goal :: execution_goal_contract
  ce_plan :: canonical_execution_plan

record compile_request =
  cq_goal :: execution_goal_contract
  cq_plan :: execution_plan_definition
  cq_run_input :: json
  cq_catalog :: execution_capability_catalog
  cq_authorization :: execution_authorization_envelope
  cq_approved_budget :: execution_budget_limit
  cq_config :: execution_config
  cq_now :: datetime

record validate_amendment_request =
  vq_goal :: execution_goal_contract
  vq_active_plan :: canonical_execution_plan
  vq_amendment :: plan_amendment
  vq_projection :: execution_amendment_projection
  vq_catalog :: execution_capability_catalog
  vq_authorization :: execution_authorization_envelope
  vq_remaining_budget :: execution_budget_limit
  vq_config :: execution_config
  vq_now :: datetime

record compile_outcome =
  co_compiled :: "compiled_execution option"
  co_report :: report

record amendment_outcome =
  ao_plan :: "canonical_execution_plan option"
  ao_remaining_estimate :: "execution_estimate option"
  ao_report :: report

section \<open>Reports\<close>

lemma report_error_errors [simp]: "has_errors (report_error code path r)"
  by (simp add: has_errors_def report_error_def)

lemma has_errors_append [simp]: "has_errors (r @ s) \<longleftrightarrow> has_errors r \<or> has_errors s"
  by (auto simp: has_errors_def)

lemma has_errors_Nil [simp]: "\<not> has_errors []"
  by (simp add: has_errors_def)

text \<open>The contract of a validation pass: it only appends, and what it appends are errors.\<close>

definition error_only :: "report \<Rightarrow> bool" where
  "error_only r = list_all (\<lambda>issue. iss_severity issue = Sev_Error) r"

locale validation_pass =
  fixes pass :: "report \<Rightarrow> report"
  assumes appends: "\<exists>new. error_only new \<and> pass r = r @ new"
begin

lemma pass_clean_iff: "\<not> has_errors (pass r) \<longleftrightarrow> \<not> has_errors r \<and> pass r = r"
proof -
  obtain new where new: "error_only new" "pass r = r @ new" using appends by blast
  then have "\<not> has_errors new \<longleftrightarrow> new = []"
    by (cases new) (auto simp: has_errors_def error_only_def)
  with new show ?thesis by auto
qed

lemma pass_keeps: "has_errors r \<Longrightarrow> has_errors (pass r)"
  using pass_clean_iff by blast

end

lemma validation_pass_comp:
  assumes "validation_pass f" and "validation_pass g"
  shows "validation_pass (\<lambda>r. g (f r))"
proof
  fix r
  obtain a where a: "error_only a" "f r = r @ a"
    using validation_pass.appends [OF assms(1)] by blast
  obtain b where "error_only b" "g (r @ a) = (r @ a) @ b"
    using validation_pass.appends [OF assms(2)] by blast
  with a show "\<exists>new. error_only new \<and> g (f r) = r @ new"
    by (auto simp: error_only_def intro!: exI [of _ "a @ b"])
qed

lemma validation_pass_id: "validation_pass (\<lambda>r. r)"
  by unfold_locales (auto simp: error_only_def)

lemma validation_pass_error: "validation_pass (report_error code path)"
  by unfold_locales (auto simp: error_only_def report_error_def)

lemma validation_pass_if:
  "validation_pass f \<Longrightarrow> validation_pass g \<Longrightarrow> validation_pass (\<lambda>r. if b then f r else g r)"
  by (cases b) auto

lemma validation_pass_fold:
  "(\<And>x. x \<in> set xs \<Longrightarrow> validation_pass (f x)) \<Longrightarrow> validation_pass (fold f xs)"
proof (induction xs)
  case Nil
  then show ?case by (simp add: id_def validation_pass_id)
next
  case (Cons x xs)
  then have "validation_pass (f x)" and "validation_pass (fold f xs)" by simp_all
  from validation_pass_comp [OF this] show ?case by (simp add: comp_def)
qed

text \<open>A sequence of passes leaves a report clean exactly when each pass does on its own.\<close>

lemma pass_comp_clean:
  assumes "validation_pass f" and "validation_pass g"
  shows "\<not> has_errors (g (f r)) \<longleftrightarrow> \<not> has_errors (f r) \<and> \<not> has_errors (g r)"
  using validation_pass.pass_clean_iff [OF assms(1)] validation_pass.pass_clean_iff [OF assms(2)] by metis

lemma pass_fold_clean:
  "(\<And>x. x \<in> set xs \<Longrightarrow> validation_pass (f x)) \<Longrightarrow>
   \<not> has_errors (fold f xs r) \<longleftrightarrow> \<not> has_errors r \<and> (\<forall>x\<in>set xs. \<not> has_errors (f x r))"
proof (induction xs arbitrary: r)
  case (Cons x xs)
  have x: "\<not> has_errors (f x r) \<longleftrightarrow> \<not> has_errors r \<and> f x r = r"
    using validation_pass.pass_clean_iff Cons.prems by simp
  from Cons have IH: "\<not> has_errors (fold f xs (f x r)) \<longleftrightarrow>
      \<not> has_errors (f x r) \<and> (\<forall>y\<in>set xs. \<not> has_errors (f y (f x r)))"
    by simp
  then show ?case using x by auto
qed simp

lemma enumerate_members: "(\<forall>p\<in>set (enumerate 0 xs). P p) \<longleftrightarrow> (\<forall>i<length xs. P (i, xs ! i))"
  by (auto simp: in_set_enumerate_eq)

end
