(* ===== verification/Reservation.thy ===== *)
theory Reservation
  imports Compiler_Types
begin

text \<open>
  Worst-case reservations and capability input checks of the scheduler
  (\<open>moa-execution/src/interpreter/reservation.rs\<close> and the request type of
  \<open>interpreter/mod.rs\<close>).
\<close>

section \<open>Requests\<close>

record schedule_request =
  sq_run_uid :: uuid
  sq_goal :: execution_goal_contract
  sq_plan :: canonical_execution_plan
  sq_catalog :: execution_capability_catalog
  sq_run_input :: json
  sq_projection :: execution_projection
  sq_config :: execution_config
  sq_budget_ledger :: budget_ledger
  sq_now :: datetime

section \<open>Reservations\<close>

definition find_capability ::
  "execution_capability_catalog \<Rightarrow> capability_reference \<Rightarrow> execution_capability result" where
  "find_capability catalog reference =
     ok_or Err_InvalidProjection
       (find (\<lambda>capability. ec_reference capability = reference) (cat_capabilities catalog))"

definition turn_reservation :: "execution_config \<Rightarrow> u32 \<Rightarrow> u32 \<Rightarrow> bool \<Rightarrow> execution_estimate result" where
  "turn_reservation config max_turns attempts verifier =
     (let estimate =
        (if verifier then
           \<lparr>est_cost_microusd = cfg_verifier_turn_cost_microusd config,
            est_tokens = cfg_verifier_turn_tokens config,
            est_tool_calls = cfg_verifier_turn_tool_calls config,
            est_retrieved_bytes = cfg_verifier_turn_retrieved_bytes config, est_tasks = 1\<rparr>
         else
           \<lparr>est_cost_microusd = cfg_agent_turn_cost_microusd config,
            est_tokens = cfg_agent_turn_tokens config,
            est_tool_calls = cfg_agent_turn_tool_calls config,
            est_retrieved_bytes = cfg_agent_turn_retrieved_bytes config, est_tasks = 1\<rparr>)
      in bind_res (estimate_multiply_resources estimate (ucast max_turns) ''task turns'') (\<lambda>e.
         estimate_multiply_resources e (ucast attempts) ''task retries''))"

definition verifier_turn_reservation :: "execution_config \<Rightarrow> u32 \<Rightarrow> execution_estimate result" where
  "verifier_turn_reservation config max_turns = turn_reservation config max_turns 1 True"

definition capability_reservation ::
  "schedule_request \<Rightarrow> capability_reference \<Rightarrow> u32 \<Rightarrow> execution_estimate result" where
  "capability_reservation request reference attempts =
     bind_res (find_capability (sq_catalog request) reference) (\<lambda>capability.
     estimate_multiply_resources (ec_estimate capability) (ucast attempts)
       ''capability retry reservation'')"

definition operation_reservation ::
  "schedule_request \<Rightarrow> execution_operation \<Rightarrow> u32 \<Rightarrow> execution_estimate result" where
  "operation_reservation request operation attempts =
     (case operation of
        Op_Agent _ _ _ max_turns \<Rightarrow> turn_reservation (sq_config request) max_turns attempts False
      | Op_Capability reference \<Rightarrow> capability_reservation request reference attempts
      | Op_Review _ _ \<Rightarrow> Inr (estimate_default\<lparr>est_tasks := 1\<rparr>)
      | Op_WaitSignal _ _ \<Rightarrow> Inr (estimate_default\<lparr>est_tasks := 1\<rparr>)
      | Op_WaitUntil _ _ \<Rightarrow> Inr (estimate_default\<lparr>est_tasks := 1\<rparr>)
      | Op_Output _ \<Rightarrow> Inr (estimate_default\<lparr>est_tasks := 1\<rparr>)
      | Op_Map _ _ _ _ _ \<Rightarrow> Inl Err_InvalidProjection
      | Op_Reduce _ _ _ _ \<Rightarrow> Inl Err_InvalidProjection)"

definition map_task_reservation ::
  "schedule_request \<Rightarrow> map_task \<Rightarrow> u32 \<Rightarrow> execution_estimate result" where
  "map_task_reservation request task attempts =
     (case task of
        Map_Capability reference \<Rightarrow> capability_reservation request reference attempts
      | Map_Agent _ _ _ max_turns \<Rightarrow> turn_reservation (sq_config request) max_turns attempts False)"

definition reducer_reservation ::
  "schedule_request \<Rightarrow> execution_reducer \<Rightarrow> u32 \<Rightarrow> execution_estimate result" where
  "reducer_reservation request reducer attempts =
     (case reducer of
        Red_Capability reference \<Rightarrow> capability_reservation request reference attempts
      | Red_Agent _ _ _ max_turns \<Rightarrow> turn_reservation (sq_config request) max_turns attempts False)"

section \<open>Capability inputs\<close>

definition validate_input_of ::
  "exec_lib \<Rightarrow> schedule_request \<Rightarrow> capability_reference \<Rightarrow> json \<Rightarrow> string \<Rightarrow> unit result" where
  "validate_input_of lib request reference input path =
     bind_res (find_capability (sq_catalog request) reference) (\<lambda>capability.
     validate_instance lib (ec_input_schema capability) input path)"

definition validate_capability_input ::
  "exec_lib \<Rightarrow> schedule_request \<Rightarrow> execution_operation \<Rightarrow> json \<Rightarrow> unit result" where
  "validate_capability_input lib request operation input =
     (case operation of
        Op_Capability reference \<Rightarrow> validate_input_of lib request reference input ''logical_task.input''
      | _ \<Rightarrow> Inr ())"

definition validate_map_capability_input ::
  "exec_lib \<Rightarrow> schedule_request \<Rightarrow> map_task \<Rightarrow> json \<Rightarrow> unit result" where
  "validate_map_capability_input lib request task input =
     (case task of
        Map_Capability reference \<Rightarrow> validate_input_of lib request reference input ''logical_map_task.input''
      | _ \<Rightarrow> Inr ())"

definition validate_reducer_capability_input ::
  "exec_lib \<Rightarrow> schedule_request \<Rightarrow> execution_reducer \<Rightarrow> json \<Rightarrow> unit result" where
  "validate_reducer_capability_input lib request reducer input =
     (case reducer of
        Red_Capability reference \<Rightarrow>
          validate_input_of lib request reference input ''logical_reducer_task.input''
      | _ \<Rightarrow> Inr ())"

section \<open>Laws\<close>

text \<open>Every reservation covers exactly one logical task when catalog entries do.\<close>

definition catalog_single_tasks :: "execution_capability_catalog \<Rightarrow> bool" where
  "catalog_single_tasks catalog = list_all (\<lambda>c. est_tasks (ec_estimate c) = 1) (cat_capabilities catalog)"

lemma find_capability_ok:
  "find_capability catalog reference = Inr c \<Longrightarrow>
     c \<in> set (cat_capabilities catalog) \<and> ec_reference c = reference"
  by (auto simp: find_capability_def res_simps find_Some_iff)

lemma multiply_resources_tasks:
  "estimate_multiply_resources a f c = Inr r \<Longrightarrow> est_tasks r = est_tasks a"
  by (auto simp: estimate_multiply_resources_def bind_res_eq_Inr)

lemma turn_reservation_tasks: "turn_reservation config n a v = Inr e \<Longrightarrow> est_tasks e = 1"
  by (auto simp: turn_reservation_def Let_def bind_res_eq_Inr dest!: multiply_resources_tasks
      split: if_splits)

lemma capability_reservation_tasks:
  assumes "catalog_single_tasks (sq_catalog request)" and "capability_reservation request r a = Inr e"
  shows "est_tasks e = 1"
proof -
  from assms(2) obtain c where c: "find_capability (sq_catalog request) r = Inr c"
    and "est_tasks e = est_tasks (ec_estimate c)"
    by (auto simp: capability_reservation_def bind_res_eq_Inr dest!: multiply_resources_tasks)
  with assms(1) find_capability_ok [OF c] show ?thesis
    by (auto simp: catalog_single_tasks_def list_all_iff)
qed

lemma reservation_tasks:
  assumes "catalog_single_tasks (sq_catalog request)"
  shows "operation_reservation request operation a = Inr e \<Longrightarrow> est_tasks e = 1"
    and "map_task_reservation request task a = Inr e \<Longrightarrow> est_tasks e = 1"
    and "reducer_reservation request reducer a = Inr e \<Longrightarrow> est_tasks e = 1"
  by (auto simp: operation_reservation_def map_task_reservation_def reducer_reservation_def
      turn_reservation_tasks capability_reservation_tasks [OF assms]
      split: execution_operation.splits map_task.splits execution_reducer.splits)

end
