(* ===== verification/Bindings.thy ===== *)
theory Bindings
  imports Plan_Types
begin

text \<open>
  Restricted whole-value bindings, conditions and map keys (\<open>moa-execution/src/bindings.rs\<close>): the
  only dynamic objects are \<open>$ref\<close>, \<open>$item\<close> and \<open>$item_key\<close>, references reach the run input
  and the outputs of declared dependencies, and map keys are typed canonical JSON.
\<close>

section \<open>References\<close>

record binding_context =
  bc_run_input :: json
  bc_node_outputs :: "(string \<times> json) list"
  bc_dependencies :: "string list"
  bc_item :: "json option"
  bc_item_key :: "string option"

definition valid_reference_segment :: "string \<Rightarrow> bool" where
  "valid_reference_segment segment =
     (case segment of
        [] \<Rightarrow> False
      | c # cs \<Rightarrow> (is_ascii_alphabetic c \<or> c = CHR ''_'')
          \<and> list_all (\<lambda>d. is_ascii_alphanumeric d \<or> d = CHR ''_'' \<or> d = CHR ''-'') cs)"

fun lookup_fields :: "json \<Rightarrow> string list \<Rightarrow> string \<Rightarrow> json option result" where
  "lookup_fields current [] path = Inr (Some current)"
| "lookup_fields current (seg # segs) path =
     (if \<not> valid_reference_segment seg then Inl (Err_Binding path)
      else case as_object current of
        None \<Rightarrow> Inr None
      | Some obj \<Rightarrow> (case obj_get obj seg of None \<Rightarrow> Inr None
                     | Some nxt \<Rightarrow> lookup_fields nxt segs path))"

definition lookup_tail :: "json \<Rightarrow> string \<Rightarrow> string \<Rightarrow> json option result" where
  "lookup_tail value tail path =
     (if tail = [] then Inr (Some value)
      else bind_res (ok_or (Err_Binding path) (strip_prefix ''.'' tail)) (\<lambda>segs.
           if segs = [] then Inl (Err_Binding path)
           else lookup_fields value (split_char CHR ''.'' segs) path))"

definition try_resolve_reference :: "string \<Rightarrow> binding_context \<Rightarrow> json option result" where
  "try_resolve_reference path context =
     (case strip_prefix ''$.input'' path of
        Some tail \<Rightarrow> lookup_tail (bc_run_input context) tail path
      | None \<Rightarrow>
        bind_res (ok_or (Err_Binding path) (strip_prefix ''$.nodes.'' path)) (\<lambda>rest.
        bind_res (ok_or (Err_Binding path) (split_once ''.output'' rest)) (\<lambda>(nid, tail).
        if nid \<notin> set (bc_dependencies context) then Inl (Err_Binding path)
        else case map_of (bc_node_outputs context) nid of
          None \<Rightarrow> Inr None
        | Some output \<Rightarrow> lookup_tail output tail path)))"

definition resolve_reference :: "string \<Rightarrow> binding_context \<Rightarrow> json result" where
  "resolve_reference path context =
     bind_res (try_resolve_reference path context) (\<lambda>r. ok_or (Err_Binding path) r)"

definition evaluate_condition :: "execution_condition \<Rightarrow> binding_context \<Rightarrow> bool result" where
  "evaluate_condition condition context =
     (case condition of
        Cond_Exists reference \<Rightarrow>
          bind_res (try_resolve_reference reference context) (\<lambda>r. Inr (r \<noteq> None))
      | Cond_Equals reference value \<Rightarrow>
          bind_res (try_resolve_reference reference context) (\<lambda>r.
            Inr (case r of None \<Rightarrow> False | Some v \<Rightarrow> json_eq v value)))"

section \<open>Values\<close>

definition require_true :: "json \<Rightarrow> string \<Rightarrow> unit result" where
  "require_true value path = ensure (json_eq value (JBool True)) (Err_Binding path)"

definition dynamic_keys :: "object \<Rightarrow> string list" where
  "dynamic_keys obj = filter (obj_contains obj) [''$ref'', ''$item'', ''$item_key'']"

definition resolve_dynamic :: "binding_context \<Rightarrow> string \<Rightarrow> string \<Rightarrow> json \<Rightarrow> json result" where
  "resolve_dynamic context path key binding =
     (if key = ''$ref'' then
        bind_res (ok_or (Err_Binding path) (as_str binding)) (\<lambda>reference.
        resolve_reference reference context)
      else if key = ''$item'' then
        bind_res (require_true binding path) (\<lambda>_. ok_or (Err_Binding path) (bc_item context))
      else if key = ''$item_key'' then
        bind_res (require_true binding path) (\<lambda>_.
        ok_or (Err_Binding path) (map_option JString (bc_item_key context)))
      else Inl (Err_Binding path))"

fun resolve_value :: "binding_context \<Rightarrow> string \<Rightarrow> json \<Rightarrow> json result"
  and resolve_elements :: "binding_context \<Rightarrow> string \<Rightarrow> nat \<Rightarrow> json list \<Rightarrow> json list result"
  and resolve_entries :: "binding_context \<Rightarrow> string \<Rightarrow> object \<Rightarrow> object \<Rightarrow> object result" where
  "resolve_value context path (JArray values) =
     bind_res (resolve_elements context path 0 values) (\<lambda>vs. Inr (JArray vs))"
| "resolve_value context path (JObject obj) =
     (let keys = dynamic_keys obj in
      if keys \<noteq> [] then
        (if length keys \<noteq> 1 \<or> length obj \<noteq> 1 then Inl (Err_Binding path)
         else bind_res (ok_or (Err_Binding path) (obj_get obj (hd keys))) (\<lambda>binding.
              resolve_dynamic context path (hd keys) binding))
      else if \<exists>kv\<in>set obj. starts_with ''$'' (fst kv) then Inl (Err_Binding path)
      else bind_res (resolve_entries context path obj []) (\<lambda>kvs. Inr (JObject kvs)))"
| "resolve_value context path JNull = Inr JNull"
| "resolve_value context path (JBool b) = Inr (JBool b)"
| "resolve_value context path (JNumber n) = Inr (JNumber n)"
| "resolve_value context path (JString s) = Inr (JString s)"
| "resolve_elements context path i [] = Inr []"
| "resolve_elements context path i (v # vs) =
     bind_res (resolve_value context (index_path path i) v) (\<lambda>w.
     bind_res (resolve_elements context path (Suc i) vs) (\<lambda>ws. Inr (w # ws)))"
| "resolve_entries context path [] resolved = Inr resolved"
| "resolve_entries context path ((k, v) # kvs) resolved =
     bind_res (resolve_value context (path @ ''.'' @ k) v) (\<lambda>w.
     resolve_entries context path kvs (obj_insert resolved k w))"

definition resolve_bindings :: "json \<Rightarrow> binding_context \<Rightarrow> json result" where
  "resolve_bindings value context = resolve_value context ''$input'' value"

section \<open>Map keys\<close>

text \<open>Strings hold UTF-8, so the conversion of canonical bytes back to a string cannot fail.\<close>

definition canonical_json_string :: "serde_lib \<Rightarrow> json \<Rightarrow> string" where
  "canonical_json_string lib value = canonical_json_bytes lib value"

definition map_key_parts :: "serde_lib \<Rightarrow> json \<Rightarrow> string \<times> string" where
  "map_key_parts lib value =
     (case value of
        JNull \<Rightarrow> (''null:'', [])
      | JBool _ \<Rightarrow> (''bool:'', canonical_json_string lib value)
      | JNumber _ \<Rightarrow> (''number:'', canonical_json_string lib value)
      | JString _ \<Rightarrow> (''string:'', canonical_json_string lib value)
      | JArray _ \<Rightarrow> (''array:'', canonical_json_string lib value)
      | JObject _ \<Rightarrow> (''object:'', canonical_json_string lib value))"

definition encode_map_key :: "serde_lib \<Rightarrow> json \<Rightarrow> string result" where
  "encode_map_key lib value =
     (let (prefix, suffix) = map_key_parts lib value; key = prefix @ suffix in
      if 1024 < length key then Inl (Err_Binding ''$item_key'') else Inr key)"

definition extract_map_key :: "serde_lib \<Rightarrow> json \<Rightarrow> string \<Rightarrow> string result" where
  "extract_map_key lib item item_key_pointer =
     bind_res (if item_key_pointer = [] then Inr item
               else ok_or (Err_Binding item_key_pointer) (json_pointer lib item item_key_pointer))
       (encode_map_key lib)"

section \<open>Static values\<close>

text \<open>A value is static when no object key in it starts with a dollar sign.\<close>

fun static_value :: "json \<Rightarrow> bool" where
  "static_value (JArray xs) = (\<forall>x\<in>set xs. static_value x)"
| "static_value (JObject kvs) =
     (\<forall>kv\<in>set kvs. \<not> starts_with ''$'' (fst kv) \<and> static_value (snd kv))"
| "static_value _ = True"

lemma obj_insert_new: "k \<notin> fst ` set kvs \<Longrightarrow> obj_insert kvs k v = kvs @ [(k, v)]"
  by (induction kvs) auto

lemma obj_insert_keys: "fst ` set (obj_insert kvs k v) = insert k (fst ` set kvs)"
  by (induction kvs) auto

lemma obj_insert_distinct: "distinct (map fst kvs) \<Longrightarrow> distinct (map fst (obj_insert kvs k v))"
proof (induction kvs)
  case (Cons kv kvs)
  then show ?case using obj_insert_keys [of kvs k v] by (auto simp: image_iff)
qed simp

lemma obj_insert_values: "snd ` set (obj_insert kvs k v) \<subseteq> insert v (snd ` set kvs)"
  by (induction kvs) auto

lemma dynamic_keys_static: "static_value (JObject kvs) \<Longrightarrow> dynamic_keys kvs = []"
  by (force simp: dynamic_keys_def obj_contains_def starts_with_def filter_empty_conv)

lemma resolve_static:
  shows "json_wf v \<Longrightarrow> static_value v \<Longrightarrow> resolve_value c p v = Inr v"
    and "\<forall>x\<in>set vs. json_wf x \<and> static_value x \<Longrightarrow> resolve_elements c p i vs = Inr vs"
    and "\<forall>kv\<in>set kvs. json_wf (snd kv) \<and> static_value (snd kv) \<Longrightarrow>
       distinct (map fst (acc @ kvs)) \<Longrightarrow> resolve_entries c p kvs acc = Inr (acc @ kvs)"
proof (induction c p v and c p i vs and c p kvs acc
    rule: resolve_value_resolve_elements_resolve_entries.induct)
  case (2 c p kvs)
  then have "\<not> (\<exists>kv\<in>set kvs. starts_with ''$'' (fst kv))" by simp
  with 2 dynamic_keys_static [OF 2(3)] show ?case by (simp add: Let_def)
next
  case (10 c p k v kvs acc)
  then have "obj_insert acc k v = acc @ [(k, v)]" by (intro obj_insert_new) auto
  with 10 show ?case by auto
qed auto

section \<open>Visibility\<close>

definition same_view :: "binding_context \<Rightarrow> binding_context \<Rightarrow> bool" where
  "same_view c c' \<longleftrightarrow> bc_run_input c = bc_run_input c' \<and> bc_dependencies c = bc_dependencies c'
     \<and> bc_item c = bc_item c' \<and> bc_item_key c = bc_item_key c'
     \<and> (\<forall>nid\<in>set (bc_dependencies c).
          map_of (bc_node_outputs c) nid = map_of (bc_node_outputs c') nid)"

lemma same_view_reference:
  "same_view c c' \<Longrightarrow> try_resolve_reference path c = try_resolve_reference path c'"
  by (auto simp: same_view_def try_resolve_reference_def split: option.splits
      intro!: bind_res_cong)

lemma same_view_dynamic:
  "same_view c c' \<Longrightarrow> resolve_dynamic c path key binding = resolve_dynamic c' path key binding"
  using same_view_reference [of c c']
  by (simp add: resolve_dynamic_def resolve_reference_def same_view_def)

lemma same_view_value:
  shows "same_view c c' \<Longrightarrow> resolve_value c p v = resolve_value c' p v"
    and "same_view c c' \<Longrightarrow> resolve_elements c p i vs = resolve_elements c' p i vs"
    and "same_view c c' \<Longrightarrow> resolve_entries c p kvs acc = resolve_entries c' p kvs acc"
proof (induction c p v and c p i vs and c p kvs acc
    rule: resolve_value_resolve_elements_resolve_entries.induct)
  case (2 c p kvs)
  then have "resolve_dynamic c p = resolve_dynamic c' p"
    by (intro ext same_view_dynamic)
  with 2 show ?case by (simp add: Let_def)
next
  case (8 c p i v vs)
  then show ?case by (auto intro: bind_res_cong)
next
  case (10 c p k v kvs acc)
  then show ?case by (auto intro!: bind_res_cong)
qed simp_all

section \<open>Keys\<close>

lemma encode_map_key_ok:
  "encode_map_key lib v = Inr k \<longleftrightarrow>
     k = fst (map_key_parts lib v) @ snd (map_key_parts lib v) \<and> length k \<le> 1024"
  by (auto simp: encode_map_key_def Let_def split: prod.splits)

lemma map_key_parts_eq:
  assumes "json_text_ok lib"
    and "fst (map_key_parts lib v) @ snd (map_key_parts lib v)
       = fst (map_key_parts lib w) @ snd (map_key_parts lib w)"
  shows "canonical_json_bytes lib v = canonical_json_bytes lib w"
  using assms(2)
  by (cases v; cases w) (simp_all add: map_key_parts_def canonical_json_string_def)

lemma map_key_parts_norm:
  "json_text_ok lib \<Longrightarrow> json_norm v = json_norm w \<Longrightarrow> map_key_parts lib v = map_key_parts lib w"
  using canonical_json_norm [of lib v w]
  by (cases v; cases w) (simp_all add: map_key_parts_def canonical_json_string_def)

section \<open>Properties\<close>



text \<open>C15: Bindings and conditions see only what the node declares: two contexts that agree on the run
  input, the current map item and the outputs of the declared dependencies resolve every value and
  every condition alike, whatever other nodes have produced.\<close>

theorem bindings_see_only_dependencies:
  assumes "same_view c c'"
  shows "resolve_bindings v c = resolve_bindings v c' \<and> evaluate_condition cond c = evaluate_condition cond c'"
proof -
  have "evaluate_condition cond c = evaluate_condition cond c'"
    by (cases cond) (simp_all add: evaluate_condition_def same_view_reference [OF assms])
  moreover have "resolve_bindings v c = resolve_bindings v c'"
    using same_view_value(1) [OF assms] by (simp add: resolve_bindings_def)
  ultimately show ?thesis by blast
qed

definition sample_context :: binding_context where
  "sample_context = \<lparr>bc_run_input = JObject [(''q'', JString ''hi'')],
     bc_node_outputs = [(''a'', JBool True), (''b'', JBool False)], bc_dependencies = [''a''],
     bc_item = None, bc_item_key = None\<rparr>"

theorem bindings_see_only_dependencies_witness:
  "resolve_bindings (JObject [(''$ref'', JString ''$.nodes.a.output'')]) sample_context =
     resolve_bindings (JObject [(''$ref'', JString ''$.nodes.a.output'')])
       (sample_context\<lparr>bc_node_outputs := [(''a'', JBool True)]\<rparr>)"
  using bindings_see_only_dependencies
    [of sample_context "sample_context\<lparr>bc_node_outputs := [(''a'', JBool True)]\<rparr>"]
  by (simp add: same_view_def sample_context_def)

text \<open>C16: Values without dynamic keys pass through unchanged: resolution of a static value succeeds in
  every context and returns the value itself.\<close>

theorem resolve_bindings_static:
  assumes "json_wf v" and "static_value v"
  shows "resolve_bindings v c = Inr v"
  unfolding resolve_bindings_def using assms by (rule resolve_static(1))

theorem resolve_bindings_static_witness:
  "resolve_bindings (JObject [(''x'', JArray [JNull, JString ''$y''])]) sample_context
     = Inr (JObject [(''x'', JArray [JNull, JString ''$y''])])"
  by (rule resolve_bindings_static) (simp_all add: starts_with_def)

end
