(* ===== verification/Materialize.thy ===== *)
theory Materialize
  imports Reservation Bindings
begin

text \<open>
  Bounded logical-task materialization (\<open>moa-execution/src/interpreter/mod.rs\<close> and
  \<open>interpreter/materialize.rs\<close>): one page of tasks for one eligible node, the map and reduce
  paging with their cursors, and the output contract check of a settled task. \<open>usize\<close> is 64 bits
  wide; collection lengths are natural numbers converted with the checks that the code makes.
\<close>

section \<open>Pages\<close>

record reduce_cursor =
  rc_round :: u64
  rc_batch_cursor :: u64
  rc_round_input_count :: u64

record node_page =
  np_tasks :: "logical_task list"
  np_next_cursor :: u64
  np_source_exhausted :: bool
  np_reduce_cursor :: "reduce_cursor option"
  np_terminal_output :: "json option"
  np_condition_skipped :: bool

record reduce_page_input =
  ri_round :: u64
  ri_batch_cursor :: u64
  ri_round_input_count :: "u64 option"
  ri_page_inputs :: "json list"

text \<open>\<open>slice::chunks\<close> for a positive chunk size.\<close>

function chunks :: "nat \<Rightarrow> 'a list \<Rightarrow> 'a list list" where
  "chunks n xs = (if xs = [] \<or> n = 0 then [] else take n xs # chunks n (drop n xs))"
  by pat_completeness auto
termination by (relation "measure (length \<circ> snd)") auto

declare chunks.simps [simp del]

definition node_context :: "schedule_request \<Rightarrow> execution_node \<Rightarrow> (string \<times> json) list \<Rightarrow> binding_context" where
  "node_context request node outputs = \<lparr>bc_run_input = sq_run_input request, bc_node_outputs = outputs,
     bc_dependencies = node_depends_on node, bc_item = None, bc_item_key = None\<rparr>"

section \<open>Task construction\<close>

definition logical_task_of ::
  "uuid_lib \<Rightarrow> schedule_request \<Rightarrow> execution_node \<Rightarrow> string \<Rightarrow> json \<Rightarrow> logical_task_kind
    \<Rightarrow> execution_estimate \<Rightarrow> logical_task result" where
  "logical_task_of ulib request node item_key input kind reservation =
     (let compensation = (if item_key = [] \<and> (case node_operation node of Op_Capability _ \<Rightarrow> True | _ \<Rightarrow> False)
                          then node_compensation node else None) in
      bind_res (execution_task_id_derive ulib (sq_run_uid request) (node_id node) item_key) (\<lambda>task_id.
      Inr \<lparr>lt_task_id = task_id, lt_node_id = node_id node, lt_item_key = item_key,
        lt_requirement_ids = node_requirement_ids node,
        lt_plan_revision = pr_plan_revision (sq_projection request), lt_generation = 1,
        lt_input = input, lt_kind = kind, lt_compensation = compensation,
        lt_retry = node_retry node, lt_reservation = reservation\<rparr>))"

definition logical_kind :: "execution_operation \<Rightarrow> binding_context \<Rightarrow> logical_task_kind result" where
  "logical_kind operation context =
     (case operation of
        Op_Capability reference \<Rightarrow> Inr (Kind_Capability reference)
      | Op_Agent instructions skill_refs capability_refs max_turns \<Rightarrow>
          Inr (Kind_TaskAgent instructions skill_refs capability_refs max_turns)
      | Op_Review prompt wait_policy \<Rightarrow> Inr (Kind_Review prompt wait_policy)
      | Op_WaitSignal signal_name wait_policy \<Rightarrow> Inr (Kind_WaitSignal signal_name wait_policy)
      | Op_WaitUntil wake res \<Rightarrow>
          bind_res (resolve_bindings res context) (\<lambda>r. Inr (Kind_WaitUntil wake r))
      | Op_Output value \<Rightarrow> bind_res (resolve_bindings value context) (\<lambda>v. Inr (Kind_Output v))
      | Op_Map _ _ _ _ _ \<Rightarrow> Inl Err_InvalidProjection
      | Op_Reduce _ _ _ _ \<Rightarrow> Inl Err_InvalidProjection)"

fun map_kind :: "map_task \<Rightarrow> logical_task_kind" where
  "map_kind (Map_Capability reference) = Kind_Capability reference"
| "map_kind (Map_Agent instructions skill_refs capability_refs max_turns) =
     Kind_TaskAgent instructions skill_refs capability_refs max_turns"

fun reducer_kind :: "execution_reducer \<Rightarrow> logical_task_kind" where
  "reducer_kind (Red_Capability reference) = Kind_Capability reference"
| "reducer_kind (Red_Agent instructions skill_refs capability_refs max_turns) =
     Kind_TaskAgent instructions skill_refs capability_refs max_turns"

section \<open>Single tasks\<close>

definition output_path :: "execution_node \<Rightarrow> string" where
  "output_path node = ''node.'' @ node_id node @ ''.output''"

definition materialize_single_task ::
  "exec_lib \<Rightarrow> uuid_lib \<Rightarrow> schedule_request \<Rightarrow> execution_node \<Rightarrow> (string \<times> json) list
    \<Rightarrow> logical_task list result" where
  "materialize_single_task lib ulib request node outputs =
     (if \<exists>task\<in>set (pr_tasks (sq_projection request)). tp_node_id task = node_id node \<and> tp_item_key task = []
      then Inr []
      else
        let context = node_context request node outputs in
        bind_res (resolve_bindings (node_input node) context) (\<lambda>input.
        bind_res (logical_kind (node_operation node) context) (\<lambda>kind.
        bind_res (validate_capability_input lib request (node_operation node) input) (\<lambda>_.
        bind_res (case kind of
            Kind_Output value \<Rightarrow>
              bind_res (validate_instance lib (node_output_schema node) value (output_path node)) (\<lambda>_.
              validate_instance lib (plan_output_schema (cp_definition (sq_plan request))) value ''plan.output'')
          | _ \<Rightarrow> Inr ()) (\<lambda>_.
        bind_res (operation_reservation request (node_operation node) (rp_max_attempts (node_retry node))) (\<lambda>reservation.
        bind_res (logical_task_of ulib request node [] input kind reservation) (\<lambda>task.
        Inr [task])))))))"

section \<open>Map pages\<close>

text \<open>The loop over item keys: a \<open>BTreeSet\<close> insertion that finds the key present is an error.\<close>

fun check_item_keys :: "exec_lib \<Rightarrow> string \<Rightarrow> string list \<Rightarrow> json list \<Rightarrow> unit result" where
  "check_item_keys lib pointer seen [] = Inr ()"
| "check_item_keys lib pointer seen (item # items) =
     bind_res (extract_map_key (xl_serde lib) item pointer) (\<lambda>key.
     if key \<in> set seen then Inl Err_InvalidProjection
     else check_item_keys lib pointer (key # seen) items)"

definition map_item_task ::
  "exec_lib \<Rightarrow> uuid_lib \<Rightarrow> schedule_request \<Rightarrow> execution_node \<Rightarrow> (string \<times> json) list \<Rightarrow> map_task
    \<Rightarrow> json \<Rightarrow> string \<Rightarrow> logical_task result" where
  "map_item_task lib ulib request node outputs task item key =
     (let context = (node_context request node outputs)\<lparr>bc_item := Some item, bc_item_key := Some key\<rparr> in
      bind_res (resolve_bindings (node_input node) context) (\<lambda>input.
      bind_res (validate_map_capability_input lib request task input) (\<lambda>_.
      bind_res (map_task_reservation request task (rp_max_attempts (node_retry node))) (\<lambda>reservation.
      logical_task_of ulib request node key input (map_kind task) reservation))))"

fun map_page_tasks ::
  "exec_lib \<Rightarrow> uuid_lib \<Rightarrow> schedule_request \<Rightarrow> execution_node \<Rightarrow> (string \<times> json) list \<Rightarrow> map_task
    \<Rightarrow> string \<Rightarrow> string list \<Rightarrow> json list \<Rightarrow> logical_task list result" where
  "map_page_tasks lib ulib request node outputs task pointer page_keys [] = Inr []"
| "map_page_tasks lib ulib request node outputs task pointer page_keys (item # items) =
     bind_res (extract_map_key (xl_serde lib) item pointer) (\<lambda>key.
     if key \<in> set page_keys then Inl Err_InvalidProjection
     else
       bind_res (map_item_task lib ulib request node outputs task item key) (\<lambda>t.
       bind_res (map_page_tasks lib ulib request node outputs task pointer (key # page_keys) items) (\<lambda>ts.
       Inr (t # ts))))"

text \<open>The page of a non-empty source.\<close>

definition map_page_from ::
  "exec_lib \<Rightarrow> uuid_lib \<Rightarrow> schedule_request \<Rightarrow> execution_node \<Rightarrow> (string \<times> json) list \<Rightarrow> string
    \<Rightarrow> map_task \<Rightarrow> u64 \<Rightarrow> u32 \<Rightarrow> json list \<Rightarrow> u64 \<Rightarrow> node_page result" where
  "map_page_from lib ulib request node outputs pointer task cursor limit values count =
     bind_res (if cursor = 0 then check_item_keys lib pointer [] values else Inr ()) (\<lambda>_.
     let end_cursor = min (saturating_add cursor (ucast limit)) count;
         page = take (unat end_cursor - unat cursor) (drop (unat cursor) values) in
     bind_res (map_page_tasks lib ulib request node outputs task pointer [] page) (\<lambda>tasks.
     Inr \<lparr>np_tasks = tasks, np_next_cursor = end_cursor, np_source_exhausted = (end_cursor = count),
       np_reduce_cursor = None, np_terminal_output = None, np_condition_skipped = False\<rparr>))"

definition materialize_map_page ::
  "exec_lib \<Rightarrow> uuid_lib \<Rightarrow> schedule_request \<Rightarrow> execution_node \<Rightarrow> (string \<times> json) list \<Rightarrow> json \<Rightarrow> string
    \<Rightarrow> u64 \<Rightarrow> map_task \<Rightarrow> u64 \<Rightarrow> u32 \<Rightarrow> node_page result" where
  "materialize_map_page lib ulib request node outputs items pointer max_items task cursor limit =
     bind_res (resolve_bindings items (node_context request node outputs)) (\<lambda>resolved.
     bind_res (ok_or (Err_Binding (''node.'' @ node_id node @ ''.operation.items'')) (as_array resolved)) (\<lambda>values.
     bind_res (ok_or (Err_ArithmeticOverflow (''map '' @ node_id node @ '' item count''))
                (try_from_nat (length values))) (\<lambda>count.
     bind_res (ensure (count \<le> max_items) Err_InvalidProjection) (\<lambda>_.
     bind_res (ensure (cursor \<le> count) Err_InvalidProjection) (\<lambda>_.
     if values = [] then
       (let output = JObject [(''items'', JArray [])] in
        bind_res (validate_instance lib (node_output_schema node) output (output_path node)) (\<lambda>_.
        Inr \<lparr>np_tasks = [], np_next_cursor = cursor, np_source_exhausted = True,
          np_reduce_cursor = None, np_terminal_output = Some output, np_condition_skipped = False\<rparr>))
     else map_page_from lib ulib request node outputs pointer task cursor limit values count)))))"

section \<open>Reduce pages\<close>

text \<open>
  The source of one reduce page: either the finished page of a single round-one item, or the slice
  of inputs with the number of inputs of the round.
\<close>

definition reduce_single_page :: "reduce_page_input \<Rightarrow> u64 \<Rightarrow> json \<Rightarrow> node_page" where
  "reduce_single_page cursor actual_count output =
     \<lparr>np_tasks = [], np_next_cursor = ri_batch_cursor cursor, np_source_exhausted = True,
      np_reduce_cursor = Some \<lparr>rc_round = ri_round cursor, rc_batch_cursor = ri_batch_cursor cursor,
        rc_round_input_count = actual_count\<rparr>,
      np_terminal_output = Some output, np_condition_skipped = False\<rparr>"

definition reduce_round_one ::
  "exec_lib \<Rightarrow> schedule_request \<Rightarrow> execution_node \<Rightarrow> (string \<times> json) list \<Rightarrow> json \<Rightarrow> u64 \<Rightarrow> u64
    \<Rightarrow> u64 \<Rightarrow> reduce_page_input \<Rightarrow> (node_page + json list \<times> u64) result" where
  "reduce_round_one lib request node outputs items max_items batch_size limit cursor =
     bind_res (ensure (ri_page_inputs cursor = []) Err_InvalidProjection) (\<lambda>_.
     bind_res (resolve_bindings items (node_context request node outputs)) (\<lambda>resolved.
     bind_res (ok_or (Err_Binding (''node.'' @ node_id node @ ''.operation.items'')) (as_array resolved)) (\<lambda>owned.
     bind_res (ok_or (Err_ArithmeticOverflow (''reduce '' @ node_id node @ '' round-one input count''))
                (try_from_nat (length owned))) (\<lambda>actual_count.
     bind_res (ensure (actual_count \<noteq> 0) Err_InvalidProjection) (\<lambda>_.
     bind_res (ensure (\<not> ((case ri_round_input_count cursor of None \<Rightarrow> False | Some p \<Rightarrow> p \<noteq> actual_count)
                          \<or> max_items < actual_count)) Err_InvalidProjection) (\<lambda>_.
     if actual_count = 1 then
       bind_res (validate_instance lib (node_output_schema node) (hd owned) (output_path node)) (\<lambda>_.
       Inr (Inl (reduce_single_page cursor actual_count (hd owned))))
     else
       bind_res (ok_or (Err_ArithmeticOverflow (''reduce '' @ node_id node @ '' round-one page start''))
                  (checked_mul (ri_batch_cursor cursor) batch_size)) (\<lambda>start.
       bind_res (ok_or (Err_ArithmeticOverflow (''reduce '' @ node_id node @ '' round-one page length''))
                  (checked_mul limit batch_size)) (\<lambda>requested_items.
       let finish = min (saturating_add start requested_items) actual_count in
       bind_res (ensure (start \<le> finish) Err_InvalidProjection) (\<lambda>_.
       Inr (Inr (take (unat finish - unat start) (drop (unat start) owned), actual_count)))))))))))"

definition reduce_later_round ::
  "execution_node \<Rightarrow> u64 \<Rightarrow> u64 \<Rightarrow> reduce_page_input \<Rightarrow> (json list \<times> u64) result" where
  "reduce_later_round node batch_size limit cursor =
     bind_res (ok_or Err_InvalidProjection (ri_round_input_count cursor)) (\<lambda>round_input_count.
     bind_res (ok_or (Err_ArithmeticOverflow (''reduce '' @ node_id node @ '' page input offset''))
                (checked_mul (ri_batch_cursor cursor) batch_size)) (\<lambda>start.
     let remaining = saturating_sub round_input_count start in
     bind_res (ok_or (Err_ArithmeticOverflow (''reduce '' @ node_id node @ '' page input length''))
                (checked_mul limit batch_size)) (\<lambda>page_length.
     let expected = min remaining page_length in
     bind_res (ok_or (Err_ArithmeticOverflow (''reduce '' @ node_id node @ '' page input count''))
                (try_from_nat (length (ri_page_inputs cursor)))) (\<lambda>got.
     bind_res (ensure (got = expected) Err_InvalidProjection) (\<lambda>_.
     Inr (ri_page_inputs cursor, round_input_count))))))"

definition batch_key :: "u64 \<Rightarrow> u64 \<Rightarrow> string" where
  "batch_key round batch_index = ''r'' @ show_nat (unat round) @ '':b'' @ show_nat (unat batch_index)"

definition reduce_batch_task ::
  "exec_lib \<Rightarrow> uuid_lib \<Rightarrow> schedule_request \<Rightarrow> execution_node \<Rightarrow> execution_reducer \<Rightarrow> u64 \<Rightarrow> u64
    \<Rightarrow> json list \<Rightarrow> logical_task result" where
  "reduce_batch_task lib ulib request node reducer round batch_index batch =
     (let input = JObject [(''round'', JNumber (PosInt round)),
                           (''batch_index'', JNumber (PosInt batch_index)), (''items'', JArray batch)] in
      bind_res (validate_reducer_capability_input lib request reducer input) (\<lambda>_.
      bind_res (reducer_reservation request reducer (rp_max_attempts (node_retry node))) (\<lambda>reservation.
      logical_task_of ulib request node (batch_key round batch_index) input (reducer_kind reducer) reservation)))"

fun reduce_page_tasks ::
  "exec_lib \<Rightarrow> uuid_lib \<Rightarrow> schedule_request \<Rightarrow> execution_node \<Rightarrow> execution_reducer \<Rightarrow> reduce_page_input
    \<Rightarrow> nat \<Rightarrow> json list list \<Rightarrow> logical_task list result" where
  "reduce_page_tasks lib ulib request node reducer cursor page_batch [] = Inr []"
| "reduce_page_tasks lib ulib request node reducer cursor page_batch (batch # batches) =
     bind_res (ok_or (Err_ArithmeticOverflow (''reduce '' @ node_id node @ '' page batch index''))
                (try_from_nat page_batch)) (\<lambda>offset.
     bind_res (ok_or (Err_ArithmeticOverflow (''reduce '' @ node_id node @ '' batch index''))
                (checked_add (ri_batch_cursor cursor) offset)) (\<lambda>batch_index.
     bind_res (reduce_batch_task lib ulib request node reducer (ri_round cursor) batch_index batch) (\<lambda>t.
     bind_res (reduce_page_tasks lib ulib request node reducer cursor (Suc page_batch) batches) (\<lambda>ts.
     Inr (t # ts)))))"

text \<open>\<open>u64::div_ceil\<close>.\<close>

definition div_ceil :: "u64 \<Rightarrow> u64 \<Rightarrow> u64" where
  "div_ceil a b = (if a mod b > 0 then a div b + 1 else a div b)"

definition reduce_page_of ::
  "exec_lib \<Rightarrow> uuid_lib \<Rightarrow> schedule_request \<Rightarrow> execution_node \<Rightarrow> execution_reducer \<Rightarrow> u64
    \<Rightarrow> reduce_page_input \<Rightarrow> json list \<Rightarrow> u64 \<Rightarrow> node_page result" where
  "reduce_page_of lib ulib request node reducer batch_size cursor page_inputs round_input_count =
     (if batch_size = 0 then Inl Panic
      else
        bind_res (reduce_page_tasks lib ulib request node reducer cursor 0
                    (chunks (unat batch_size) page_inputs)) (\<lambda>tasks.
        bind_res (ok_or (Err_ArithmeticOverflow (''reduce '' @ node_id node @ '' materialized batch count''))
                   (try_from_nat (length tasks))) (\<lambda>materialized.
        bind_res (ok_or (Err_ArithmeticOverflow (''reduce '' @ node_id node @ '' next batch cursor''))
                   (checked_add (ri_batch_cursor cursor) materialized)) (\<lambda>next_cursor.
        Inr \<lparr>np_tasks = tasks, np_next_cursor = next_cursor,
          np_source_exhausted = (next_cursor = div_ceil round_input_count batch_size),
          np_reduce_cursor = Some \<lparr>rc_round = ri_round cursor, rc_batch_cursor = ri_batch_cursor cursor,
            rc_round_input_count = round_input_count\<rparr>,
          np_terminal_output = None, np_condition_skipped = False\<rparr>))))"

definition materialize_reduce_page ::
  "exec_lib \<Rightarrow> uuid_lib \<Rightarrow> schedule_request \<Rightarrow> execution_node \<Rightarrow> (string \<times> json) list \<Rightarrow> json \<Rightarrow> u64
    \<Rightarrow> execution_reducer \<Rightarrow> u32 \<Rightarrow> u32 \<Rightarrow> reduce_page_input \<Rightarrow> node_page result" where
  "materialize_reduce_page lib ulib request node outputs items max_items reducer batch_size limit cursor =
     bind_res (ensure (ri_round cursor \<noteq> 0) Err_InvalidProjection) (\<lambda>_.
     if ri_round cursor = 1 then
       bind_res (reduce_round_one lib request node outputs items max_items (ucast batch_size) (ucast limit) cursor) (\<lambda>s.
       case s of
         Inl page \<Rightarrow> Inr page
       | Inr (page_inputs, count) \<Rightarrow>
           reduce_page_of lib ulib request node reducer (ucast batch_size) cursor page_inputs count)
     else
       bind_res (reduce_later_round node (ucast batch_size) (ucast limit) cursor) (\<lambda>(page_inputs, count).
       reduce_page_of lib ulib request node reducer (ucast batch_size) cursor page_inputs count))"

section \<open>Node pages\<close>

definition empty_page :: "u64 \<Rightarrow> bool \<Rightarrow> node_page" where
  "empty_page cursor skipped = \<lparr>np_tasks = [], np_next_cursor = cursor, np_source_exhausted = True,
     np_reduce_cursor = None, np_terminal_output = None, np_condition_skipped = skipped\<rparr>"

definition materialize_page_of ::
  "exec_lib \<Rightarrow> uuid_lib \<Rightarrow> schedule_request \<Rightarrow> execution_node \<Rightarrow> (string \<times> json) list \<Rightarrow> u64 \<Rightarrow> u32
    \<Rightarrow> reduce_page_input option \<Rightarrow> node_page result" where
  "materialize_page_of lib ulib request node outputs cursor limit reduce =
     (case node_operation node of
        Op_Map items pointer max_items _ task \<Rightarrow>
          materialize_map_page lib ulib request node outputs items pointer max_items task cursor limit
      | Op_Reduce items max_items reducer batch_size \<Rightarrow>
          bind_res (ok_or Err_InvalidProjection reduce) (\<lambda>r.
          materialize_reduce_page lib ulib request node outputs items max_items reducer batch_size limit r)
      | _ \<Rightarrow>
          if reduce \<noteq> None then Inl Err_InvalidProjection
          else if cursor > 0 then Inr (empty_page cursor False)
          else
            bind_res (materialize_single_task lib ulib request node outputs) (\<lambda>tasks.
            let page = take (unat limit) tasks in
            bind_res (ok_or (Err_ArithmeticOverflow (''node '' @ node_id node @ '' materialization page cursor''))
                       (try_from_nat (length page))) (\<lambda>next_cursor.
            Inr \<lparr>np_tasks = page, np_next_cursor = next_cursor,
              np_source_exhausted = (length tasks \<le> unat limit), np_reduce_cursor = None,
              np_terminal_output = None, np_condition_skipped = False\<rparr>)))"

definition materialize_node_page ::
  "exec_lib \<Rightarrow> uuid_lib \<Rightarrow> schedule_request \<Rightarrow> string \<Rightarrow> (string \<times> json) list \<Rightarrow> u64 \<Rightarrow> u32
    \<Rightarrow> reduce_page_input option \<Rightarrow> node_page result" where
  "materialize_node_page lib ulib request nid outputs cursor limit reduce =
     bind_res (ensure (\<not> (limit = 0 \<or> limit > 1000)) Err_InvalidProjection) (\<lambda>_.
     bind_res (validate_scheduler_catalog lib (sq_catalog request)) (\<lambda>_.
     bind_res (ok_or Err_InvalidProjection
                (find (\<lambda>node. node_id node = nid) (plan_nodes (cp_definition (sq_plan request))))) (\<lambda>node.
     bind_res (ensure (\<not> (\<exists>dependency\<in>set (node_depends_on node). map_of outputs dependency = None))
                Err_InvalidProjection) (\<lambda>_.
     case (if cursor = 0 then node_when node else None) of
       None \<Rightarrow> materialize_page_of lib ulib request node outputs cursor limit reduce
     | Some condition \<Rightarrow>
         bind_res (evaluate_condition condition (node_context request node outputs)) (\<lambda>holds.
         if \<not> holds then Inr (empty_page 0 True)
         else materialize_page_of lib ulib request node outputs cursor limit reduce)))))"

section \<open>Settled outputs\<close>

fun task_output_schema :: "execution_node \<Rightarrow> json" where
  "task_output_schema node =
     (case node_operation node of
        Op_Map _ _ _ item_output_schema _ \<Rightarrow> item_output_schema
      | _ \<Rightarrow> node_output_schema node)"

definition verifier_output_valid :: "json \<Rightarrow> bool" where
  "verifier_output_valid output =
     (case as_object output of
        None \<Rightarrow> False
      | Some obj \<Rightarrow> length obj = 2
          \<and> (case obj_get obj ''passed'' of None \<Rightarrow> False | Some v \<Rightarrow> as_bool v \<noteq> None)
          \<and> obj_contains obj ''evidence'')"

text \<open>
  The check of one output: \<open>None\<close> when it is valid, otherwise the failure message;
  \<open>schema_text\<close> renders the validator's complaint about an output.
\<close>

definition output_complaint ::
  "exec_lib \<Rightarrow> (json \<Rightarrow> json \<Rightarrow> string) \<Rightarrow> canonical_execution_plan \<Rightarrow> string \<Rightarrow> logical_task_kind \<Rightarrow> json
    \<Rightarrow> string option" where
  "output_complaint lib schema_text plan nid kind output =
     (case kind of
        Kind_CompletionVerifier _ _ _ \<Rightarrow>
          if verifier_output_valid output then None
          else Some ''completion verifier output must contain exactly boolean `passed` and `evidence`''
      | _ \<Rightarrow> (case find (\<lambda>node. node_id node = nid) (plan_nodes (cp_definition plan)) of
                None \<Rightarrow> Some (''active plan has no node `'' @ nid @ ''`'')
              | Some node \<Rightarrow>
                  (case validate_instance lib (task_output_schema node) output ''execution_task.node_output'' of
                     Inl _ \<Rightarrow> Some (schema_text (task_output_schema node) output)
                   | Inr _ \<Rightarrow> None)))"

definition validate_task_outcome ::
  "exec_lib \<Rightarrow> (json \<Rightarrow> json \<Rightarrow> string) \<Rightarrow> canonical_execution_plan \<Rightarrow> string \<Rightarrow> logical_task_kind
    \<Rightarrow> execution_task_outcome \<Rightarrow> execution_task_outcome" where
  "validate_task_outcome lib schema_text plan nid kind outcome =
     (case out_result outcome of
        Res_Completed output _ \<Rightarrow>
          (case output_complaint lib schema_text plan nid kind output of
             None \<Rightarrow> outcome
           | Some message \<Rightarrow> outcome\<lparr>out_result := Res_Failed Fail_InvalidOutput message\<rparr>)
      | _ \<Rightarrow> outcome)"

end
