(* ===== verification/Catalog_Laws.thy ===== *)
theory Catalog_Laws
  imports Capability "HOL-Library.Multiset"
begin

text \<open>
  What \<open>capability.rs\<close> promises to its callers: hash texts round-trip, hash preimages separate
  domains and values, a plan hash does not depend on the order of the nodes, and a built catalog
  is strictly ordered by reference, free of duplicates and independent of the input order.
\<close>

unbundle bit_operations_syntax

section \<open>Hash text\<close>

lemma nibble_table:
  "k < 16 \<Longrightarrow> is_hex_byte (''0123456789abcdef'' ! k) \<and> decode_hex_nibble (''0123456789abcdef'' ! k) = Some (of_nat k)"
proof -
  have "\<forall>k\<in>set [0..<16]. is_hex_byte (''0123456789abcdef'' ! k) \<and> decode_hex_nibble (''0123456789abcdef'' ! k) = Some (of_nat k)"
    by code_simp
  then show "k < 16 \<Longrightarrow> ?thesis" by (auto simp del: upt_rec_numeral)
qed

lemma hex_digit_decodes:
  "n < 16 \<Longrightarrow> is_hex_byte (hex_digit n) \<and> decode_hex_nibble (hex_digit n) = Some n"
  using nibble_table [of "unat n"] by (simp add: hex_digit_def word_less_nat_alt)

lemma hex_code_table:
  "\<forall>k\<in>set ([48..<58] @ [97..<103]). \<exists>n\<in>set (map of_nat [0..<16]). decode_hex_nibble (char_of (k::nat)) = Some (n :: u8) \<and> hex_digit n = char_of k"
  by code_simp

lemma low_nibble: "b AND 0x0f = take_bit 4 (b :: u8)"
  by (simp add: take_bit_eq_mask mask_eq_exp_minus_1)

lemma byte_of_nibbles: "(push_bit 4 (drop_bit 4 b)) OR (b AND 0x0f) = (b :: u8)"
  by (rule bit_word_eqI) (auto simp: low_nibble bit_simps)

lemma nibbles_of_byte:
  assumes "hi < 16" "lo < (16 :: u8)"
  shows "drop_bit 4 (push_bit 4 hi OR lo) = hi" "(push_bit 4 hi OR lo) AND 0x0f = lo"
proof -
  have *: "take_bit 4 hi = hi" "take_bit 4 lo = lo" using assms
    by (simp_all add: take_bit_eq_mod word_unat_eq_iff unat_mod word_less_nat_alt)
  show "drop_bit 4 (push_bit 4 hi OR lo) = hi"
    apply (subst (2) *(1) [symmetric], subst *(2) [symmetric])
    apply (rule bit_word_eqI) apply (auto simp: bit_simps) done
  show "(push_bit 4 hi OR lo) AND 0x0f = lo"
    unfolding low_nibble
    apply (subst (2) *(2) [symmetric])
    apply (rule bit_word_eqI) apply (auto simp: bit_simps) done
qed
lemma decode_hex_nibble_Some:
  assumes "decode_hex_nibble c = Some n"
  shows "n < 16" and "hex_digit n = c"
proof -
  let ?k = "of_char c :: nat"
  have "?k \<in> set ([48..<58] @ [97..<103])"
    using assms
    by (auto simp: decode_hex_nibble_def less_eq_char_def split: if_splits simp del: upt_rec_numeral)
  then obtain m where m: "m \<in> set (map of_nat [0..<16])"
    and dec: "decode_hex_nibble (char_of ?k) = Some (m :: u8)" "hex_digit m = char_of ?k"
    using hex_code_table by blast
  from dec assms have "m = n" by simp
  moreover from m have "m < 16"
    by (auto simp: word_less_nat_alt unat_of_nat simp del: upt_rec_numeral)
  ultimately show "n < 16" and "hex_digit n = c" using dec by simp_all
qed

lemma nibble_bounds: "drop_bit 4 b < (16 :: u8)" "b AND 0x0f < (16 :: u8)" for b :: u8
proof -
  show "drop_bit 4 b < (16 :: u8)"
    using unat_bound [of b] by (simp add: word_less_nat_alt drop_bit_eq_div unat_div less_mult_imp_div_less)
  show "b AND 0x0f < (16 :: u8)"
    by (simp add: low_nibble word_less_nat_alt take_bit_eq_mod unat_mod)
qed

lemma encode_hex_Cons:
  "encode_hex (b # bs) = hex_digit (drop_bit 4 b) # hex_digit (b AND 0x0f) # encode_hex bs"
  by (simp add: encode_hex_def)

lemma encode_hex_Nil [simp]: "encode_hex [] = []"
  by (simp add: encode_hex_def)

lemma encode_hex_shape: "length (encode_hex bs) = 2 * length bs" "c \<in> set (encode_hex bs) \<Longrightarrow> is_hex_byte c"
  by (induction bs) (auto simp: encode_hex_Cons hex_digit_decodes nibble_bounds)

lemma decode_encode: "decode_hex_pairs (encode_hex bs) = Inr bs"
proof (induction bs)
  case (Cons b bs)
  then show ?case
    using byte_of_nibbles [of b] by (simp add: encode_hex_Cons hex_digit_decodes nibble_bounds)
qed simp

lemma decode_hex_pairs_Inr:
  "even (length s) \<Longrightarrow> decode_hex_pairs s = Inr bs \<Longrightarrow> s = encode_hex bs"
proof (induction s arbitrary: bs rule: decode_hex_pairs.induct)
  case (1 a b rest)
  from 1(3) obtain hi lo bs' where d: "decode_hex_nibble a = Some hi" "decode_hex_nibble b = Some lo"
    and rest: "decode_hex_pairs rest = Inr bs'" and bs: "bs = (push_bit 4 hi OR lo) # bs'"
    by (auto simp: res_simps)
  have "rest = encode_hex bs'"
    using 1(1) [of hi lo bs'] 1(2) d rest by simp
  then show ?case
    using decode_hex_nibble_Some [OF d(1)] decode_hex_nibble_Some [OF d(2)]
    by (simp add: bs encode_hex_Cons nibbles_of_byte del: drop_bit_or)
qed auto

text \<open>C17: Hash text is canonical: a text parses to a digest if and only if it is the 64-digit lowercase
  text of that 32-byte digest, so upper case, other lengths and foreign characters are rejected and
  a stored hash never has two spellings.\<close>

theorem hash_text_round_trip:
  "hash_from_str s = Inr h \<longleftrightarrow> length h = 32 \<and> s = hash_to_string h"
proof
  assume parsed: "hash_from_str s = Inr h"
  then have "length s = 64" and dec: "decode_hex_pairs s = Inr h"
    by (auto simp: hash_from_str_def split: if_splits)
  then have "s = encode_hex h" by (intro decode_hex_pairs_Inr) simp_all
  with \<open>length s = 64\<close> show "length h = 32 \<and> s = hash_to_string h"
    using encode_hex_shape(1) [of h] by (simp add: hash_to_string_def)
next
  assume "length h = 32 \<and> s = hash_to_string h"
  then show "hash_from_str s = Inr h"
    by (auto simp: hash_from_str_def hash_to_string_def decode_encode encode_hex_shape)
qed


section \<open>Hash preimages\<close>

lemma reference_sort_key_inj:
  assumes "json_text_ok (xl_serde lib)"
  shows "reference_sort_key lib a = reference_sort_key lib b \<longleftrightarrow> a = b"
proof -
  have "json_norm (capability_reference_json a) = json_norm (capability_reference_json b) \<longleftrightarrow> a = b"
    by (auto simp: capability_reference_json_def insort_key.simps)
  then show ?thesis
    unfolding reference_sort_key_def canonical_json_norm [OF assms] .
qed

lemma nul_split:
  assumes "z \<notin> set d" and "z \<notin> set d'" and "d @ [z] @ xs = d' @ [z] @ ys"
  shows "d = d' \<and> xs = ys"
  using assms by (induction d arbitrary: d') (auto simp: Cons_eq_append_conv append_eq_Cons_conv)

lemma sort_key_mset_unique:
  fixes f :: "'a \<Rightarrow> 'k :: linorder"
  assumes "distinct (map f ns)" and "mset ms = mset ns"
  shows "sort_key f ms = sort_key f ns"
proof (rule map_sorted_distinct_set_unique [of f])
  have sets: "set ms = set ns" using assms(2) by (rule mset_eq_setD)
  show "inj_on f (set (sort_key f ms) \<union> set (sort_key f ns))"
    using assms(1) by (simp add: sets distinct_map)
  have ms: "distinct (map f ms)"
    using assms by (metis mset_eq_imp_distinct_iff mset_map)
  show "distinct (map f (sort_key f ms))" "distinct (map f (sort_key f ns))"
    using assms(1) ms by (simp_all add: distinct_map)
  show "set (sort_key f ms) = set (sort_key f ns)" by (simp add: sets)
qed simp_all

text \<open>C18: Hash inputs are separated: for domains without a zero byte, two preimages are the same bytes
  if and only if the domains are the same and the values are equal JSON values (entry order aside,
  without a negative zero). A digest of one domain can therefore only equal a digest of another
  through a collision of the hash function itself.\<close>

theorem hash_preimage_separates:
  assumes "json_text_ok (xl_serde lib)" and "char_of (0 :: nat) \<notin> set d" and "char_of (0 :: nat) \<notin> set d'"
    and "json_wf v" and "json_wf w" and "no_negative_zero v" and "no_negative_zero w"
  shows "hash_preimage lib d v = hash_preimage lib d' w \<longleftrightarrow> d = d' \<and> json_eq v w"
proof -
  have "hash_preimage lib d v = hash_preimage lib d' w \<longleftrightarrow>
      d = d' \<and> canonical_json_bytes (xl_serde lib) v = canonical_json_bytes (xl_serde lib) w"
    unfolding hash_preimage_def using nul_split [OF assms(2, 3)] by auto
  also have "\<dots> \<longleftrightarrow> d = d' \<and> json_norm v = json_norm w"
    by (simp add: canonical_json_norm [OF assms(1)])
  also have "\<dots> \<longleftrightarrow> d = d' \<and> json_eq v w"
    using norm_imp_json_eq [OF assms(4, 5)] json_eq_imp_norm [OF assms(4-7)] by blast
  finally show ?thesis .
qed

text \<open>C19: A plan hash identifies the plan and not its layout: reordering the nodes of a plan with
  distinct node IDs never changes its hash.\<close>

theorem plan_hash_node_order:
  assumes "distinct (map node_id (plan_nodes plan))" and "mset ns = mset (plan_nodes plan)"
  shows "plan_hash lib (plan\<lparr>plan_nodes := ns\<rparr>) = plan_hash lib plan"
  by (simp add: plan_hash_def sort_key_mset_unique [OF assms])


section \<open>Catalogs\<close>

lemma first_duplicate_None:
  "sorted (map fst xs) \<Longrightarrow> first_duplicate xs = None \<longleftrightarrow> sorted_wrt (<) (map fst xs)"
proof (induction xs rule: first_duplicate.induct)
  case (1 a b rest)
  then show ?case by (auto simp: less_le)
qed auto

lemma validate_catalog_entries_ok:
  "sorted_wrt (<) (map (\<lambda>c. reference_sort_key lib (ec_reference c)) cs) \<Longrightarrow>
   list_all (\<lambda>c. est_tasks (ec_estimate c) = 1) cs \<Longrightarrow>
   (\<forall>p. prev = Some p \<longrightarrow> (\<forall>c\<in>set cs. p < reference_sort_key lib (ec_reference c))) \<Longrightarrow>
   validate_catalog_entries lib prev cs = Inr ()"
  by (induction cs arbitrary: prev) (auto simp: Let_def not_le [symmetric] split: option.splits)

definition keyed_capability :: "exec_lib \<Rightarrow> execution_capability \<Rightarrow> string \<times> execution_capability" where
  "keyed_capability lib c = (reference_sort_key lib (ec_reference c), c)"

lemma keyed_collect:
  "map_res (\<lambda>c. bind_res (validate_policy_context c) (\<lambda>_. Inr (keyed_capability lib c))) cs = Inr keyed \<longleftrightarrow>
     keyed = map (keyed_capability lib) cs \<and> list_all (\<lambda>c. is_ok (validate_policy_context c)) cs"
  by (induction cs arbitrary: keyed) (auto simp: res_simps is_ok_iff)

lemma catalog_build_eq_Inr:
  "catalog_build lib cs = Inr cat \<longleftrightarrow>
     list_all (\<lambda>c. is_ok (validate_policy_context c)) cs
     \<and> sorted_wrt (<) (map fst (sort_key fst (map (keyed_capability lib) cs)))
     \<and> cat_capabilities cat = map snd (sort_key fst (map (keyed_capability lib) cs))
     \<and> catalog_hash lib (cat_capabilities cat) = Inr (cat_catalog_hash cat)"
proof -
  have *: "first_duplicate (sort_key fst (map (keyed_capability lib) cs)) = None \<longleftrightarrow>
      sorted_wrt (<) (map fst (sort_key fst (map (keyed_capability lib) cs)))"
    by (rule first_duplicate_None) simp
  show ?thesis
    unfolding catalog_build_def keyed_capability_def [symmetric] using *
    by (cases cat, cases "first_duplicate (sort_key fst (map (keyed_capability lib) cs))")
      (auto simp: bind_res_eq_Inr keyed_collect Let_def)
qed


lemma keyed_capability_simps [simp]:
  "fst (keyed_capability lib c) = reference_sort_key lib (ec_reference c)"
  "snd (keyed_capability lib c) = c"
  by (simp_all add: keyed_capability_def)

lemma catalog_build_order:
  assumes "catalog_build lib cs = Inr cat" and "mset cs' = mset cs"
  shows "catalog_build lib cs' = Inr cat"
proof -
  let ?k = "keyed_capability lib"
  have "distinct (map fst (map ?k cs))"
    using assms(1) by (auto simp: catalog_build_eq_Inr strict_sorted_iff distinct_map intro: comp_inj_on)
  then have "sort_key fst (map ?k cs') = sort_key fst (map ?k cs)"
    by (rule sort_key_mset_unique) (simp add: assms(2))
  moreover have "set cs' = set cs" using assms(2) by (rule mset_eq_setD)
  ultimately show ?thesis
    using assms(1) unfolding catalog_build_eq_Inr list_all_iff by auto
qed

lemma catalog_build_sorted:
  assumes "catalog_build lib cs = Inr cat"
  shows "mset (cat_capabilities cat) = mset cs"
    and "sorted_wrt (<) (map (\<lambda>c. reference_sort_key lib (ec_reference c)) (cat_capabilities cat))"
proof -
  let ?k = "keyed_capability lib"
  let ?s = "sort_key fst (map ?k cs)"
  have caps: "cat_capabilities cat = map snd ?s" and sorted: "sorted_wrt (<) (map fst ?s)"
    using assms by (simp_all add: catalog_build_eq_Inr)
  have "mset (map snd ?s) = image_mset snd (mset (map ?k cs))" by simp
  also have "\<dots> = mset cs" by (simp add: image_mset.compositionality comp_def)
  finally show "mset (cat_capabilities cat) = mset cs" by (simp add: caps)
  have "map (\<lambda>c. reference_sort_key lib (ec_reference c)) (cat_capabilities cat) = map fst ?s"
    by (auto simp: caps image_iff)
  then show "sorted_wrt (<) (map (\<lambda>c. reference_sort_key lib (ec_reference c)) (cat_capabilities cat))"
    by (simp only: sorted)
qed

lemma strict_keys_distinct:
  fixes f :: "'a \<Rightarrow> 'k :: linorder"
  shows "sorted_wrt (<) (map (\<lambda>c. f (g c)) cs) \<Longrightarrow> distinct (map g cs)"
  by (auto simp: strict_sorted_iff distinct_map inj_on_def)

text \<open>C20: A built catalog is canonical: it holds exactly the given capabilities, each with a valid
  policy context, strictly ordered by the canonical bytes of their references and hence without two
  entries of one reference; its hash is the hash of that order; every permutation of the input
  builds the same catalog; and the scheduler accepts it when each entry reserves one task.\<close>

theorem catalog_build_canonical:
  assumes "catalog_build lib cs = Inr cat"
  shows "mset (cat_capabilities cat) = mset cs
    \<and> list_all (\<lambda>c. is_ok (validate_policy_context c)) cs
    \<and> sorted_wrt (<) (map (\<lambda>c. reference_sort_key lib (ec_reference c)) (cat_capabilities cat))
    \<and> distinct (map ec_reference (cat_capabilities cat))
    \<and> catalog_hash lib (cat_capabilities cat) = Inr (cat_catalog_hash cat)
    \<and> (\<forall>cs'. mset cs' = mset cs \<longrightarrow> catalog_build lib cs' = Inr cat)
    \<and> (list_all (\<lambda>c. est_tasks (ec_estimate c) = 1) cs \<longrightarrow> validate_scheduler_catalog lib cat = Inr ())"
proof -
  note sorted = catalog_build_sorted [OF assms]
  have sets: "set (cat_capabilities cat) = set cs" using sorted(1) by (rule mset_eq_setD)
  have "distinct (map ec_reference (cat_capabilities cat))"
    using sorted(2) by (rule strict_keys_distinct)
  moreover have "validate_scheduler_catalog lib cat = Inr ()"
    if "list_all (\<lambda>c. est_tasks (ec_estimate c) = 1) cs"
    unfolding validate_scheduler_catalog_def
    by (rule validate_catalog_entries_ok) (use that sorted sets in \<open>simp_all add: list_all_iff\<close>)
  moreover have "list_all (\<lambda>c. is_ok (validate_policy_context c)) cs"
    "catalog_hash lib (cat_capabilities cat) = Inr (cat_catalog_hash cat)"
    using assms unfolding catalog_build_eq_Inr by blast+
  ultimately show ?thesis
    using sorted catalog_build_order [OF assms] by blast
qed


section \<open>A concrete catalog\<close>

definition sample_exec_lib :: exec_lib where
  "sample_exec_lib = \<lparr>xl_serde = sample_lib, xl_blake3 = (\<lambda>_. replicate 32 0),
     xl_capabilities_json = (\<lambda>_. Some JNull), xl_plan_json = (\<lambda>_. Some JNull),
     xl_amendment_json = (\<lambda>_. Some JNull), xl_operations_json = (\<lambda>_. Some JNull),
     xl_schema_builds = (\<lambda>_. True), xl_schema_first_error = (\<lambda>_ _. None)\<rparr>"

definition sample_capability :: "string \<Rightarrow> execution_capability" where
  "sample_capability name = \<lparr>ec_reference = \<lparr>cap_name = name, cap_version = ''1''\<rparr>,
     ec_contract_revision = ''r1'', ec_description = ''search'', ec_input_schema = JObject [],
     ec_output_schema = JObject [], ec_action_class = Act_Read, ec_risk_level = Risk_Low,
     ec_default_effect = Effect_Allow, ec_idempotency_class = Idempotent,
     ec_async_mode = SynchronousOnly, ec_execution_class = Class_Data, ec_requires_sandbox = False,
     ec_source = Source_BuiltInTool name,
     ec_policy_context = policy_context_registered (Source_BuiltInTool name),
     ec_estimate = estimate_default\<lparr>est_tasks := 1\<rparr>, ec_rollback = None\<rparr>"

definition sample_catalog :: execution_capability_catalog where
  "sample_catalog = \<lparr>cat_capabilities = [sample_capability ''a'', sample_capability ''b''],
     cat_catalog_hash = replicate 32 0\<rparr>"

lemma sample_exec_lib_simps [simp]: "xl_serde sample_exec_lib = sample_lib"
  "xl_schema_builds sample_exec_lib = (\<lambda>_. True)" "xl_schema_first_error sample_exec_lib = (\<lambda>_ _. None)"
  by (simp_all add: sample_exec_lib_def)

lemma sample_catalog_built:
  "catalog_build sample_exec_lib [sample_capability ''b'', sample_capability ''a''] = Inr sample_catalog"
  by code_simp

theorem hash_preimage_separates_witness:
  "hash_preimage sample_exec_lib ''moa.execution.plan'' JNull
     \<noteq> hash_preimage sample_exec_lib ''moa.execution.catalog'' JNull"
proof -
  have "char_of (0 :: nat) \<notin> set ''moa.execution.plan''" "char_of (0 :: nat) \<notin> set ''moa.execution.catalog''"
    by code_simp+
  then show ?thesis
    using hash_preimage_separates
      [of sample_exec_lib "''moa.execution.plan''" "''moa.execution.catalog''" JNull JNull]
    by (simp add: sample_lib_ok)
qed

theorem catalog_build_canonical_witness:
  "catalog_build sample_exec_lib [sample_capability ''a'', sample_capability ''b''] = Inr sample_catalog
   \<and> validate_scheduler_catalog sample_exec_lib sample_catalog = Inr ()"
  using catalog_build_canonical [OF sample_catalog_built] by (simp add: sample_capability_def)


definition sample_node :: "string \<Rightarrow> string list \<Rightarrow> execution_operation \<Rightarrow> execution_node" where
  "sample_node nid deps operation = \<lparr>node_id = nid, node_requirement_ids = [], node_depends_on = deps,
     node_when = None, node_input = JObject [], node_output_schema = JObject [],
     node_operation = operation, node_compensation = None,
     node_retry = \<lparr>rp_max_attempts = 1, rp_initial_backoff_ms = 0, rp_max_backoff_ms = 0\<rparr>,
     node_budget = None\<rparr>"

definition sample_plan :: execution_plan_definition where
  "sample_plan = \<lparr>plan_cancel_policy = RetainEffects, plan_input_schema = JObject [],
     plan_output_schema = JObject [],
     plan_nodes = [sample_node ''a'' [] (Op_Capability \<lparr>cap_name = ''a'', cap_version = ''1''\<rparr>),
       sample_node ''b'' [''a''] (Op_Output JNull)]\<rparr>"

theorem plan_hash_node_order_witness:
  "plan_hash sample_exec_lib (sample_plan\<lparr>plan_nodes := rev (plan_nodes sample_plan)\<rparr>)
     = plan_hash sample_exec_lib sample_plan"
  by (rule plan_hash_node_order) (simp_all add: sample_plan_def sample_node_def)

end
