(* ===== verification/Paging.thy ===== *)
theory Paging
  imports Materialize Catalog_Laws
begin

text \<open>
  Correctness of page-wise materialization: the contract of a cursor-driven pager as a locale, its
  consequences for a complete run of pages, and the map and reduce pagers as its instances.
\<close>

section \<open>Runs of a pager\<close>

text \<open>The controller asks for a page, commits its tasks and continues at the returned cursor.\<close>

inductive paging_run :: "(u64 \<Rightarrow> node_page result) \<Rightarrow> u64 \<Rightarrow> logical_task list \<Rightarrow> bool"
  for page :: "u64 \<Rightarrow> node_page result" where
  last: "page c = Inr p \<Longrightarrow> np_source_exhausted p \<Longrightarrow> paging_run page c (np_tasks p)"
| more: "page c = Inr p \<Longrightarrow> \<not> np_source_exhausted p \<Longrightarrow> paging_run page (np_next_cursor p) ts \<Longrightarrow>
     paging_run page c (np_tasks p @ ts)"

lemma map_res_append:
  "map_res f (xs @ ys) = Inr zs \<longleftrightarrow> (\<exists>us vs. map_res f xs = Inr us \<and> map_res f ys = Inr vs \<and> zs = us @ vs)"
  unfolding map_res_eq_Inr list_all2_append1 by (metis list_all2_lengthD)

lemma map_res_ok_iff: "(\<exists>ys. map_res f xs = Inr ys) \<longleftrightarrow> (\<forall>x\<in>set xs. \<exists>y. f x = Inr y)"
  by (induction xs) (auto simp: bind_res_eq_Inr)

locale bounded_pager =
  fixes page :: "u64 \<Rightarrow> node_page result"
    and task_at :: "nat \<Rightarrow> logical_task result"
    and total :: nat
    and limit :: nat
    and admissible :: bool
    and ready :: bool
  assumes page_ok: "admissible \<Longrightarrow> unat c < total \<or> total = 0 \<and> c = 0 \<Longrightarrow> page c = Inr p \<Longrightarrow>
      unat (np_next_cursor p) = min (unat c + limit) total
      \<and> map_res task_at [unat c..<unat (np_next_cursor p)] = Inr (np_tasks p)
      \<and> (np_source_exhausted p \<longleftrightarrow> unat (np_next_cursor p) = total)"
    and ready_admissible: "ready \<Longrightarrow> admissible"
    and page_ready: "ready \<Longrightarrow> unat c < total \<or> total = 0 \<and> c = 0 \<Longrightarrow> \<exists>p. page c = Inr p"
begin

lemma run_covers:
  assumes admissible
  shows "paging_run page c ts \<Longrightarrow> unat c < total \<or> total = 0 \<and> c = 0 \<Longrightarrow>
    map_res task_at [unat c..<total] = Inr ts"
proof (induction rule: paging_run.induct)
  case (last c p)
  from page_ok [OF assms last.prems last.hyps(1)] last.hyps(2) show ?case by metis
next
  case (more c p ts)
  let ?n = "unat (np_next_cursor p)"
  have n: "?n < total" "unat c \<le> ?n" "map_res task_at [unat c..<?n] = Inr (np_tasks p)"
    using page_ok [OF assms more.prems more.hyps(1)] more.prems more.hyps(2) by auto
  have "[unat c..<total] = [unat c..<?n] @ [?n..<total]"
    using n(1, 2) by (metis le_Suc_ex less_imp_le upt_add_eq_append)
  then show ?case using n more.IH by (auto simp: map_res_append)
qed

lemma run_exists:
  assumes ready and "0 < limit"
  shows "unat c < total \<or> total = 0 \<and> c = 0 \<Longrightarrow> \<exists>ts. paging_run page c ts"
proof (induction "total - unat c" arbitrary: c rule: less_induct)
  case less
  then obtain p where p: "page c = Inr p" using page_ready [OF assms(1)] by blast
  show ?case
  proof (cases "np_source_exhausted p")
    case True
    with p show ?thesis by (blast intro: paging_run.last)
  next
    case False
    let ?n = "unat (np_next_cursor p)"
    from page_ok [OF ready_admissible [OF assms(1)] less.prems p] False have "?n = min (unat c + limit) total" "?n \<noteq> total" by auto
    with assms(2) have "?n < total" "total - ?n < total - unat c" by auto
    then obtain ts where "paging_run page (np_next_cursor p) ts" using less.hyps by blast
    with p False show ?thesis by (blast intro: paging_run.more)
  qed
qed

lemma run_exact:
  assumes ready and "0 < limit"
  shows "paging_run page 0 ts \<longleftrightarrow> map_res task_at [0..<total] = Inr ts"
proof -
  obtain us where us: "paging_run page 0 us"
    using run_exists [OF assms, of 0] by auto
  have "paging_run page 0 ts \<Longrightarrow> map_res task_at [0..<total] = Inr ts" for ts
    using run_covers [OF ready_admissible [OF assms(1)], of 0 ts] by auto
  with us show ?thesis by fastforce
qed

end

section \<open>Chunks\<close>

lemma chunks_Nil [simp]: "chunks n [] = []"
  by (simp add: chunks.simps)

lemma chunks_Cons: "0 < n \<Longrightarrow> xs \<noteq> [] \<Longrightarrow> chunks n xs = take n xs # chunks n (drop n xs)"
  by (subst chunks.simps) simp

lemma chunks_drop: "0 < n \<Longrightarrow> chunks n (drop (k * n) xs) = drop k (chunks n xs)"
proof (induction k arbitrary: xs)
  case (Suc k)
  show ?case
  proof (cases "xs = []")
    case False
    with Suc.IH [of "drop n xs"] Suc.prems show ?thesis by (simp add: chunks_Cons [of n xs] add.commute)
  qed simp
qed simp

lemma chunks_take: "0 < n \<Longrightarrow> chunks n (take (k * n) xs) = take k (chunks n xs)"
proof (induction k arbitrary: xs)
  case (Suc k)
  show ?case
  proof (cases "xs = []")
    case False
    moreover have "take (n + k * n) xs \<noteq> []" using False Suc.prems by simp
    ultimately show ?thesis
      using Suc.IH [of "drop n xs"] Suc.prems
      by (simp add: chunks_Cons [of n xs] chunks_Cons [of n "take (n + k * n) xs"] drop_take)
  qed simp
qed simp

lemma length_chunks: "0 < n \<Longrightarrow> length (chunks n xs) = (length xs + n - 1) div n"
proof (induction n xs rule: chunks.induct)
  case (1 n xs)
  show ?case
  proof (cases "xs = []")
    case True
    with 1(2) show ?thesis by simp
  next
    case False
    then have len: "1 \<le> length xs" by (simp add: Suc_le_eq)
    then have "(length xs + n - 1) div n = Suc ((length xs - 1) div n)"
      using 1(2) le_div_geq [of n "length xs + n - 1"] by simp
    moreover have "(length xs - n + n - 1) div n = (length xs - 1) div n"
      using 1(2) by (cases "n \<le> length xs") auto
    ultimately show ?thesis using 1 False by (simp add: chunks_Cons)
  qed
qed

lemma nth_chunks: "0 < n \<Longrightarrow> i < length (chunks n xs) \<Longrightarrow> chunks n xs ! i = take n (drop (i * n) xs)"
proof (induction i arbitrary: xs)
  case 0
  then have "xs \<noteq> []" by auto
  with 0 show ?case by (simp add: chunks_Cons)
next
  case (Suc i)
  then have "xs \<noteq> []" by auto
  with Suc show ?case by (simp add: chunks_Cons add.commute)
qed

section \<open>The map pager\<close>

lemma unat_of_nat_64: "n < 2 ^ 64 \<Longrightarrow> unat (of_nat n :: u64) = n"
  by (simp add: unat_of_nat)

lemma unat_ucast_32_64 [simp]: "unat (ucast x :: u64) = unat (x :: u32)"
  using unat_bound [of x] by (simp add: unsigned_ucast_eq take_bit_nat_eq_self)

lemma logical_task_of_ok:
  assumes "logical_task_of ulib request node key input kind reservation = Inr t"
  shows "lt_item_key t = key" "lt_node_id t = node_id node" "lt_generation t = 1"
    "lt_reservation t = reservation" "lt_plan_revision t = pr_plan_revision (sq_projection request)"
    "execution_task_id_derive ulib (sq_run_uid request) (node_id node) key = Inr (lt_task_id t)"
    "lt_compensation t \<noteq> None \<Longrightarrow> key = [] \<and> (\<exists>r. node_operation node = Op_Capability r)"
  using assms by (auto simp: logical_task_of_def Let_def bind_res_eq_Inr
      split: if_splits execution_operation.splits)

definition map_step ::
  "exec_lib \<Rightarrow> uuid_lib \<Rightarrow> schedule_request \<Rightarrow> execution_node \<Rightarrow> (string \<times> json) list \<Rightarrow> map_task
    \<Rightarrow> string \<Rightarrow> json \<Rightarrow> logical_task result" where
  "map_step lib ulib request node outputs task pointer item =
     bind_res (extract_map_key (xl_serde lib) item pointer) (map_item_task lib ulib request node outputs task item)"

lemma map_item_task_key:
  "map_item_task lib ulib request node outputs task item key = Inr t \<Longrightarrow> lt_item_key t = key"
  by (auto simp: map_item_task_def Let_def bind_res_eq_Inr dest: logical_task_of_ok(1))

lemma map_step_key:
  "map_step lib ulib request node outputs task pointer item = Inr t \<Longrightarrow>
     extract_map_key (xl_serde lib) item pointer = Inr (lt_item_key t)"
  by (auto simp: map_step_def bind_res_eq_Inr dest: map_item_task_key)

lemma map_page_tasks_iff:
  "map_page_tasks lib ulib request node outputs task pointer keys page = Inr ts \<longleftrightarrow>
     map_res (map_step lib ulib request node outputs task pointer) page = Inr ts
     \<and> distinct (map lt_item_key ts) \<and> set (map lt_item_key ts) \<inter> set keys = {}"
proof (induction page arbitrary: keys ts)
  case (Cons item items)
  show ?case (is "?l = ?r")
  proof
    assume ?l
    then obtain key t us where key: "extract_map_key (xl_serde lib) item pointer = Inr key" "key \<notin> set keys"
      and t: "map_item_task lib ulib request node outputs task item key = Inr t"
      and us: "map_page_tasks lib ulib request node outputs task pointer (key # keys) items = Inr us"
      and ts: "ts = t # us"
      by (auto simp: bind_res_eq_Inr split: if_splits)
    from us map_item_task_key [OF t] key t show ?r
      by (auto simp: ts Cons.IH map_step_def)
  next
    assume ?r
    then obtain t us where ts: "ts = t # us"
      and t: "map_step lib ulib request node outputs task pointer item = Inr t"
      and us: "map_res (map_step lib ulib request node outputs task pointer) items = Inr us"
      by (auto simp: bind_res_eq_Inr)
    with \<open>?r\<close> map_step_key [OF t] show ?l
      by (auto simp: Cons.IH map_step_def bind_res_eq_Inr)
  qed
qed auto

lemma check_item_keys_iff:
  "check_item_keys lib pointer seen items = Inr u \<longleftrightarrow>
     (\<exists>ks. map_res (\<lambda>item. extract_map_key (xl_serde lib) item pointer) items = Inr ks
       \<and> distinct ks \<and> set ks \<inter> set seen = {})"
proof (induction items arbitrary: seen)
  case (Cons item items)
  then show ?case
    by (cases "extract_map_key (xl_serde lib) item pointer") (auto simp: bind_res_eq_Inr)
qed simp

lemma map_res_imp:
  "map_res f xs = Inr ys \<Longrightarrow> (\<And>x y. x \<in> set xs \<Longrightarrow> f x = Inr y \<Longrightarrow> g x = Inr (h y)) \<Longrightarrow>
     map_res g xs = Inr (map h ys)"
  by (induction xs arbitrary: ys) (auto simp: bind_res_eq_Inr)

lemma map_step_keys:
  "map_res (map_step lib ulib request node outputs task pointer) items = Inr ts \<Longrightarrow>
     map_res (\<lambda>item. extract_map_key (xl_serde lib) item pointer) items = Inr (map lt_item_key ts)"
  by (erule map_res_imp) (rule map_step_key)

lemma map_res_map: "map_res f (map g xs) = map_res (\<lambda>x. f (g x)) xs"
  by (induction xs) auto

lemma slice_upt:
  "j \<le> length xs \<Longrightarrow> map ((!) xs) [i..<j] = take (j - i) (drop i xs)"
  by (rule nth_equalityI) auto

lemma map_res_upt:
  "j \<le> length xs \<Longrightarrow> map_res (\<lambda>k. f (xs ! k)) [i..<j] = map_res f (take (j - i) (drop i xs))"
  by (simp add: map_res_map flip: slice_upt)

definition map_values ::
  "schedule_request \<Rightarrow> execution_node \<Rightarrow> (string \<times> json) list \<Rightarrow> json \<Rightarrow> json list" where
  "map_values request node outputs items =
     (case resolve_bindings items (node_context request node outputs) of Inr (JArray vs) \<Rightarrow> vs | _ \<Rightarrow> [])"


lemma as_array_eq [res_simps]: "as_array v = Some vs \<longleftrightarrow> v = JArray vs"
  by (cases v) auto

lemma map_page_from_eq:
  fixes limit :: u32
  assumes "unat cnt = length vs" and "c \<le> cnt"
  defines "n \<equiv> min (unat c + unat limit) (length vs)"
  shows "map_page_from lib ulib request node outputs pointer task c limit vs cnt = Inr p \<longleftrightarrow>
     (c = 0 \<longrightarrow> (\<exists>ks. map_res (\<lambda>item. extract_map_key (xl_serde lib) item pointer) vs = Inr ks \<and> distinct ks))
     \<and> map_res (\<lambda>i. map_step lib ulib request node outputs task pointer (vs ! i)) [unat c..<n] = Inr (np_tasks p)
     \<and> distinct (map lt_item_key (np_tasks p))
     \<and> unat (np_next_cursor p) = n \<and> (np_source_exhausted p \<longleftrightarrow> n = length vs)
     \<and> np_reduce_cursor p = None \<and> np_terminal_output p = None \<and> \<not> np_condition_skipped p"
proof -
  let ?stop = "min (saturating_add c (ucast limit)) cnt"
  have fin: "unat ?stop = n"
    using assms(1) unat_bound [of cnt] by (auto simp: unat_min unat_saturating_add n_def)
  then have exh: "?stop = cnt \<longleftrightarrow> n = length vs"
    using assms(1) by (metis word_unat_eq_iff)
  have page: "map_res (map_step lib ulib request node outputs task pointer) (take (n - unat c) (drop (unat c) vs))
      = map_res (\<lambda>i. map_step lib ulib request node outputs task pointer (vs ! i)) [unat c..<n]"
    by (rule map_res_upt [symmetric]) (simp add: n_def)
  have cursor: "np_next_cursor p = ?stop \<longleftrightarrow> unat (np_next_cursor p) = n"
    using fin by (metis word_unat_eq_iff)
  show ?thesis
    unfolding map_page_from_def Let_def fin exh cursor [symmetric] page [symmetric]
    by (cases p) (auto simp: bind_res_eq_Inr check_item_keys_iff map_page_tasks_iff)
qed


lemma materialize_map_page_eq:
  "materialize_map_page lib ulib request node outputs items pointer max_items task c limit = Inr p \<longleftrightarrow>
     (\<exists>vs cnt. resolve_bindings items (node_context request node outputs) = Inr (JArray vs)
        \<and> unat cnt = length vs \<and> cnt \<le> max_items \<and> c \<le> cnt
        \<and> (if vs = [] then
             is_ok (validate_instance lib (node_output_schema node) (JObject [(''items'', JArray [])]) (output_path node))
             \<and> p = (empty_page c False)\<lparr>np_terminal_output := Some (JObject [(''items'', JArray [])])\<rparr>
           else map_page_from lib ulib request node outputs pointer task c limit vs cnt = Inr p))"
  unfolding materialize_map_page_def
  by (auto simp: bind_res_eq_Inr ok_or_eq_Inr ensure_eq_Inr as_array_eq try_from_nat_eq_Some Let_def
      is_ok_iff empty_page_def split: if_splits)

definition map_ready ::
  "exec_lib \<Rightarrow> uuid_lib \<Rightarrow> schedule_request \<Rightarrow> execution_node \<Rightarrow> (string \<times> json) list \<Rightarrow> json \<Rightarrow> string
    \<Rightarrow> u64 \<Rightarrow> map_task \<Rightarrow> bool" where
  "map_ready lib ulib request node outputs items pointer max_items task \<longleftrightarrow>
     (let vs = map_values request node outputs items in
      resolve_bindings items (node_context request node outputs) = Inr (JArray vs)
      \<and> vs \<noteq> [] \<and> length vs \<le> unat max_items
      \<and> (\<exists>ts. map_res (map_step lib ulib request node outputs task pointer) vs = Inr ts
              \<and> distinct (map lt_item_key ts)))"

lemma map_res_all_upt: "map_res (\<lambda>i. f (xs ! i)) [0..<length xs] = map_res f xs"
  using map_res_upt [of "length xs" xs f 0] by simp

lemma map_res_sub:
  assumes "map_res f xs = Inr ys" and "i \<le> j" and "j \<le> length xs"
  shows "map_res (\<lambda>k. f (xs ! k)) [i..<j] = Inr (take (j - i) (drop i ys))"
proof -
  have "list_all2 (\<lambda>x y. f x = Inr y) (take (j - i) (drop i xs)) (take (j - i) (drop i ys))"
    using assms(1) by (simp add: map_res_eq_Inr list_all2_takeI list_all2_dropI)
  then show ?thesis using assms(3) by (simp add: map_res_upt map_res_eq_Inr)
qed

interpretation map_pager: bounded_pager
  "\<lambda>c. materialize_map_page lib ulib request node outputs items pointer max_items task c limit"
  "\<lambda>i. map_step lib ulib request node outputs task pointer (map_values request node outputs items ! i)"
  "length (map_values request node outputs items)" "unat limit" True
  "map_ready lib ulib request node outputs items pointer max_items task"
  for lib ulib request node outputs items pointer max_items task and limit :: u32
proof (unfold_locales, goal_cases)
  case (1 c p)
  from 1(3) obtain vs cnt where "resolve_bindings items (node_context request node outputs) = Inr (JArray vs)"
    and cnt: "unat cnt = length vs" "c \<le> cnt"
    and rest: "if vs = [] then p = (empty_page c False)\<lparr>np_terminal_output := Some (JObject [(''items'', JArray [])])\<rparr>
       else map_page_from lib ulib request node outputs pointer task c limit vs cnt = Inr p"
    unfolding materialize_map_page_eq by (auto split: if_splits)
  then have vs: "map_values request node outputs items = vs" by (simp add: map_values_def)
  show ?case
  proof (cases "vs = []")
    case True
    with rest 1(2) show ?thesis by (auto simp: vs empty_page_def)
  next
    case False
    with rest show ?thesis unfolding vs using map_page_from_eq [OF cnt] by simp
  qed
next
  case (3 c)
  let ?vs = "map_values request node outputs items"
  from 3(1) obtain ts where vs: "resolve_bindings items (node_context request node outputs) = Inr (JArray ?vs)"
    "?vs \<noteq> []" "length ?vs \<le> unat max_items"
    and ts: "map_res (map_step lib ulib request node outputs task pointer) ?vs = Inr ts" "distinct (map lt_item_key ts)"
    by (auto simp: map_ready_def Let_def)
  let ?cnt = "of_nat (length ?vs) :: u64"
  have "length ?vs < 2 ^ 64" using vs(3) unat_bound [of max_items] by simp
  then have cnt: "unat ?cnt = length ?vs" by (simp add: unat_of_nat)
  with 3(2) vs(2) have c: "c \<le> ?cnt" by (auto simp: word_le_nat_alt)
  let ?n = "min (unat c + unat limit) (length ?vs)"
  let ?p = "\<lparr>np_tasks = take (?n - unat c) (drop (unat c) ts), np_next_cursor = of_nat ?n,
     np_source_exhausted = (?n = length ?vs), np_reduce_cursor = None, np_terminal_output = None,
     np_condition_skipped = False\<rparr>"
  have "unat (of_nat ?n :: u64) = ?n" using cnt by (metis min.cobounded2 le_unat_uoi)
  moreover have "distinct (map lt_item_key (take (?n - unat c) (drop (unat c) ts)))"
    using ts(2) by (simp flip: take_map drop_map)
  ultimately have "map_page_from lib ulib request node outputs pointer task c limit ?vs ?cnt = Inr ?p"
    unfolding map_page_from_eq [OF cnt c]
    using ts map_step_keys [OF ts(1)] map_res_sub [OF ts(1), of "unat c" ?n] c cnt
    by (auto simp: word_le_nat_alt)
  with vs cnt c have "materialize_map_page lib ulib request node outputs items pointer max_items task c limit = Inr ?p"
    unfolding materialize_map_page_eq
    by (intro exI [of _ ?vs] exI [of _ ?cnt]) (simp add: word_le_nat_alt)
  then show ?case by blast
qed simp


lemma paging_run_first: "paging_run page c ts \<Longrightarrow> \<exists>p. page c = Inr p"
  by (cases rule: paging_run.cases) auto

text \<open>C21: Map paging is exact and ends: for a non-empty item array and any positive page limit, asking for
  pages from cursor zero until the source is exhausted succeeds with a list of tasks if and only if
  the array respects the item bound, every item yields a task and no two items share a key; the
  tasks are then those of the items in order, whatever the page limit is.\<close>

theorem map_paging_exact:
  assumes "resolve_bindings items (node_context request node outputs) = Inr (JArray vs)"
    and "vs \<noteq> []" and "0 < limit"
  shows "paging_run (\<lambda>c. materialize_map_page lib ulib request node outputs items pointer max_items task c limit) 0 ts \<longleftrightarrow>
    length vs \<le> unat max_items
    \<and> map_res (map_step lib ulib request node outputs task pointer) vs = Inr ts
    \<and> distinct (map lt_item_key ts)"
    (is "?run ts \<longleftrightarrow> ?spec ts")
proof
  have vs: "map_values request node outputs items = vs" using assms(1) by (simp add: map_values_def)
  have lim: "0 < unat limit" using assms(3) by (simp add: word_less_nat_alt)
  {
    assume run: "?run ts"
    from paging_run_first [OF run] obtain p cnt where "unat cnt = length vs" "cnt \<le> max_items"
      "map_page_from lib ulib request node outputs pointer task 0 limit vs cnt = Inr p"
      using assms(1, 2) unfolding materialize_map_page_eq by auto
    moreover from this obtain ks where "map_res (\<lambda>item. extract_map_key (xl_serde lib) item pointer) vs = Inr ks"
      "distinct ks"
      by (auto simp: map_page_from_def bind_res_eq_Inr check_item_keys_iff)
    moreover have "map_res (map_step lib ulib request node outputs task pointer) vs = Inr ts"
      using map_pager.run_covers [OF TrueI run] assms(2) by (simp add: vs map_res_all_upt)
    ultimately show "?spec ts"
      using map_step_keys [of lib ulib request node outputs task pointer vs ts]
      by (auto simp: word_le_nat_alt)
  }
  assume "?spec ts"
  moreover from this assms have "map_ready lib ulib request node outputs items pointer max_items task"
    by (auto simp: map_ready_def vs)
  from map_pager.run_exact [OF this lim] have "?run ts \<longleftrightarrow>
      map_res (map_step lib ulib request node outputs task pointer) vs = Inr ts"
    by (simp add: vs map_res_all_upt)
  ultimately show "?run ts" by blast
qed


section \<open>The reduce pager\<close>

text \<open>
  The input of one page of a reduce round over \<open>xs\<close>: round one reads the plan's items, a later
  round the contiguous slice of the persisted results of the round before.
\<close>

definition reduce_slice :: "json list \<Rightarrow> nat \<Rightarrow> nat \<Rightarrow> nat \<Rightarrow> json list" where
  "reduce_slice xs width limit c = take (limit * width) (drop (c * width) xs)"

definition reduce_input :: "u64 \<Rightarrow> json list \<Rightarrow> u32 \<Rightarrow> u32 \<Rightarrow> u64 \<Rightarrow> reduce_page_input" where
  "reduce_input round xs width limit c =
     \<lparr>ri_round = round, ri_batch_cursor = c,
      ri_round_input_count = (if round = 1 \<and> c = 0 then None else Some (of_nat (length xs))),
      ri_page_inputs = (if round = 1 then [] else reduce_slice xs (unat width) (unat limit) (unat c))\<rparr>"

lemma reduce_input_simps [simp]:
  "ri_round (reduce_input round xs width limit c) = round"
  "ri_batch_cursor (reduce_input round xs width limit c) = c"
  by (simp_all add: reduce_input_def)

definition reduce_task_at ::
  "exec_lib \<Rightarrow> uuid_lib \<Rightarrow> schedule_request \<Rightarrow> execution_node \<Rightarrow> execution_reducer \<Rightarrow> u64 \<Rightarrow> u32
    \<Rightarrow> json list \<Rightarrow> nat \<Rightarrow> logical_task result" where
  "reduce_task_at lib ulib request node reducer round width xs i =
     reduce_batch_task lib ulib request node reducer round (of_nat i) (chunks (unat width) xs ! i)"

lemma reduce_page_tasks_eq:
  assumes "unat (ri_batch_cursor cursor) + k + length batches < 2 ^ 64"
    and "batches = map ((!) (chunks (unat width) xs)) [unat (ri_batch_cursor cursor) + k
           ..<unat (ri_batch_cursor cursor) + k + length batches]"
  shows "reduce_page_tasks lib ulib request node reducer cursor k batches =
     map_res (reduce_task_at lib ulib request node reducer (ri_round cursor) width xs)
       [unat (ri_batch_cursor cursor) + k ..<unat (ri_batch_cursor cursor) + k + length batches]"
  using assms
proof (induction batches arbitrary: k)
  case (Cons b bs)
  let ?c = "unat (ri_batch_cursor cursor)"
  have upt: "[?c + k..<?c + k + length (b # bs)] = (?c + k) # [?c + Suc k..<?c + Suc k + length bs]"
    using upt_conv_Cons [of "?c + k" "?c + k + length (b # bs)"] by (simp del: upt_Suc)
  from Cons.prems(2) have b: "b = chunks (unat width) xs ! (?c + k)"
    and bs: "bs = map ((!) (chunks (unat width) xs)) [?c + Suc k..<?c + Suc k + length bs]"
    unfolding upt by simp_all
  have "unat (of_nat k :: u64) = k" using Cons.prems(1) by (simp add: unat_of_nat)
  then have k: "try_from_nat k = Some (of_nat k :: u64)"
    "checked_add (ri_batch_cursor cursor) (of_nat k) = Some (of_nat (?c + k))"
    using Cons.prems(1) by (simp_all add: try_from_nat_def checked_add_def)
  show ?case
    unfolding upt using Cons.IH [of "Suc k", OF _ bs] Cons.prems(1)
    by (simp add: k reduce_task_at_def b)
qed simp

lemma ceil_div: "0 < n \<Longrightarrow> (m + n - 1) div n = m div n + (if m mod n > 0 then 1 else 0)" for m n :: nat
proof -
  assume n: "0 < n"
  have "m + n - 1 = m div n * n + (m mod n + n - 1)"
    using n div_mult_mod_eq [of m n] by linarith
  then have "(m + n - 1) div n = m div n + (m mod n + n - 1) div n"
    using n by (metis add.commute div_mult_self1 less_irrefl)
  also have "(m mod n + n - 1) div n = (if m mod n > 0 then 1 else 0)"
  proof (cases "m mod n > 0")
    case True
    then have "m mod n + n - 1 = (m mod n - 1) + 1 * n" and small: "m mod n - 1 < n"
      using mod_less_divisor [OF n, of m] by linarith+
    then have "(m mod n + n - 1) div n = 1 + (m mod n - 1) div n"
      using n by (metis add.commute div_mult_self1 less_irrefl)
    with True small show ?thesis by simp
  qed (use n in simp)
  finally show ?thesis .
qed

lemma unat_div_ceil:
  assumes "0 < b" and "unat a = length xs" and "unat b = n"
  shows "unat (div_ceil a b) = length (chunks n xs)"
proof -
  have n: "0 < n" using assms by (simp add: word_less_nat_alt)
  have "length (chunks n xs) = unat a div unat b + (if unat a mod unat b > 0 then 1 else 0)"
    unfolding length_chunks [OF n] ceil_div [OF n] by (simp add: assms)
  moreover have "unat a div unat b + 1 < 2 ^ 64" if "unat a mod unat b > 0"
  proof -
    have "unat b \<noteq> 1" using that by auto
    with n assms(3) have "unat a div unat b \<le> unat a div 2" by (intro div_le_mono2) auto
    then show ?thesis using unat_bound [of a] by simp
  qed
  ultimately show ?thesis
    by (auto simp: div_ceil_def word_less_nat_alt unat_mod unat_div unat_word_ariths)
qed


definition reduce_admissible ::
  "schedule_request \<Rightarrow> execution_node \<Rightarrow> (string \<times> json) list \<Rightarrow> json \<Rightarrow> u64 \<Rightarrow> u32 \<Rightarrow> json list \<Rightarrow> bool" where
  "reduce_admissible request node outputs items round width xs \<longleftrightarrow>
     width \<noteq> 0 \<and> round \<noteq> 0 \<and> length xs < 2 ^ 64
     \<and> (round = 1 \<longrightarrow> resolve_bindings items (node_context request node outputs) = Inr (JArray xs) \<and> 2 \<le> length xs)"

lemma u32_product: "unat (a :: u32) * unat (b :: u32) < 2 ^ 64"
proof -
  have "unat a * unat b \<le> (2 ^ 32 - 1) * (2 ^ 32 - 1)"
    using unat_bound [of a] unat_bound [of b] by (intro mult_le_mono) simp_all
  also have "\<dots> < (2 :: nat) ^ 64" by simp
  finally show ?thesis .
qed

lemma min_take: "take (min (s + m) n - s) (drop s xs) = take m (drop s xs)" if "length xs = n"
  using that by (cases "s + m \<le> n") (auto simp: min_def)

lemma reduce_page_source:
  assumes adm: "reduce_admissible request node outputs items round width xs"
    and c: "unat c * unat width \<le> length xs"
  shows "materialize_reduce_page lib ulib request node outputs items max_items reducer width limit
           (reduce_input round xs width limit c) = Inr p \<longleftrightarrow>
    (round = 1 \<longrightarrow> length xs \<le> unat max_items)
    \<and> reduce_page_of lib ulib request node reducer (ucast width) (reduce_input round xs width limit c)
        (reduce_slice xs (unat width) (unat limit) (unat c)) (of_nat (length xs)) = Inr p"
proof -
  let ?n = "of_nat (length xs) :: u64"
  have n: "unat ?n = length xs" "length xs < 2 ^ 64" "width \<noteq> 0" "round \<noteq> 0"
    using adm by (auto simp: reduce_admissible_def unat_of_nat)
  have "unat c * unat width < 2 ^ 64" using c n(2) by (rule le_less_trans)
  then have start: "checked_mul c (ucast width) = Some (c * ucast width)" "unat (c * ucast width :: u64) = unat c * unat width"
    by (simp_all add: checked_mul_def unat_word_ariths)
  have len: "checked_mul (ucast limit) (ucast width) = Some (ucast limit * ucast width :: u64)"
    "unat (ucast limit * ucast width :: u64) = unat limit * unat width"
    using u32_product [of limit width] by (simp_all add: checked_mul_def unat_word_ariths)
  have fin: "unat (min (saturating_add (c * ucast width) (ucast limit * ucast width)) ?n)
      = min (unat c * unat width + unat limit * unat width) (length xs)"
    using n(1, 2) by (auto simp: unat_min unat_saturating_add start len)
  have slice: "take (min (unat c * unat width + unat limit * unat width) (length xs) - unat c * unat width)
      (drop (unat c * unat width) xs) = reduce_slice xs (unat width) (unat limit) (unat c)"
    unfolding reduce_slice_def by (rule min_take) simp
  show ?thesis
  proof (cases "round = 1")
    case True
    with adm have res: "resolve_bindings items (node_context request node outputs) = Inr (JArray xs)"
      and two: "2 \<le> length xs" by (auto simp: reduce_admissible_def)
    have "?n \<noteq> 0" "?n \<noteq> 1" using n(1) two by auto
    then show ?thesis
      using c n True
      by (auto simp: materialize_reduce_page_def reduce_round_one_def reduce_input_def res start(1) len(1)
          try_from_nat_def ensure_def Let_def word_le_nat_alt word_less_nat_alt fin start(2) slice
          split: if_splits)
  next
    case False
    have "length (reduce_slice xs (unat width) (unat limit) (unat c))
        = min (length xs - unat c * unat width) (unat limit * unat width)"
      by (simp add: reduce_slice_def min.commute)
    moreover have "unat (min (saturating_sub ?n (c * ucast width)) (ucast limit * ucast width))
        = min (length xs - unat c * unat width) (unat limit * unat width)"
      using n(1) by (simp add: unat_min unat_saturating_sub start(2) len(2))
    moreover have "length (reduce_slice xs (unat width) (unat limit) (unat c)) < 2 ^ 64"
      using n(2) by (simp add: reduce_slice_def)
    ultimately show ?thesis
      using False n(4)
      by (auto simp: materialize_reduce_page_def reduce_later_round_def reduce_input_def start(1) len(1)
          try_from_nat_def ensure_def Let_def word_unat_eq_iff unat_of_nat)
  qed
qed


lemma chunk_start: "0 < n \<Longrightarrow> c < length (chunks n xs) \<Longrightarrow> c * n < length xs"
proof -
  assume n: "0 < n" and "c < length (chunks n xs)"
  then have "Suc c \<le> (length xs + n - 1) div n" by (simp add: length_chunks)
  then have "Suc c * n \<le> length xs + n - 1"
    using n by (simp add: less_eq_div_iff_mult_less_eq)
  then show ?thesis using n by simp
qed

lemma length_chunks_le: "0 < n \<Longrightarrow> length (chunks n xs) \<le> length xs"
proof (rule ccontr)
  assume n: "0 < n" and "\<not> length (chunks n xs) \<le> length xs"
  then have "length xs * n < length xs" by (intro chunk_start) simp_all
  with n show False using mult_le_mono2 [of 1 n "length xs"] by simp
qed

lemma reduce_page_of_eq:
  fixes limit :: u32
  assumes adm: "reduce_admissible request node outputs items round width xs"
    and c: "unat c < length (chunks (unat width) xs)"
  defines "n \<equiv> min (unat c + unat limit) (length (chunks (unat width) xs))"
  shows "reduce_page_of lib ulib request node reducer (ucast width) (reduce_input round xs width limit c)
      (reduce_slice xs (unat width) (unat limit) (unat c)) (of_nat (length xs)) = Inr p \<longleftrightarrow>
    map_res (reduce_task_at lib ulib request node reducer round width xs) [unat c..<n] = Inr (np_tasks p)
    \<and> unat (np_next_cursor p) = n
    \<and> (np_source_exhausted p \<longleftrightarrow> n = length (chunks (unat width) xs))
    \<and> np_reduce_cursor p = Some \<lparr>rc_round = round, rc_batch_cursor = c, rc_round_input_count = of_nat (length xs)\<rparr>
    \<and> np_terminal_output p = None \<and> \<not> np_condition_skipped p"
proof -
  let ?all = "chunks (unat width) xs"
  have w: "0 < unat width" "width \<noteq> 0" "length xs < 2 ^ 64"
    using adm by (auto simp: reduce_admissible_def unat_gt_0)
  have nonzero: "ucast width \<noteq> (0 :: u64)"
    using w(1) by (metis unat_ucast_32_64 unat_0 less_irrefl)
  have small: "length ?all < 2 ^ 64"
    using length_chunks_le [OF w(1), of xs] w(3) by simp
  have batches: "chunks (unat width) (reduce_slice xs (unat width) (unat limit) (unat c))
      = map ((!) ?all) [unat c..<n]"
    using w(1) by (simp add: reduce_slice_def chunks_take chunks_drop slice_upt n_def) (auto simp: min_def)
  have cn: "unat c \<le> n" "n \<le> length ?all" using c by (auto simp: n_def)
  let ?M = "map_res (reduce_task_at lib ulib request node reducer round width xs) [unat c..<n]"
  let ?D = "div_ceil (of_nat (length xs) :: u64) (ucast width)"
  have tasks: "reduce_page_tasks lib ulib request node reducer (reduce_input round xs width limit c) 0
      (map ((!) ?all) [unat c..<n]) = ?M"
    using reduce_page_tasks_eq [of "reduce_input round xs width limit c" 0 "map ((!) ?all) [unat c..<n]" width xs]
      cn small by simp
  have total: "unat ?D = length ?all"
    by (rule unat_div_ceil) (use w nonzero in \<open>auto simp: unat_of_nat word_neq_0_conv\<close>)
  have "reduce_page_of lib ulib request node reducer (ucast width) (reduce_input round xs width limit c)
      (reduce_slice xs (unat width) (unat limit) (unat c)) (of_nat (length xs)) = Inr p \<longleftrightarrow>
    (\<exists>ts m k. ?M = Inr ts \<and> try_from_nat (length ts) = Some m \<and> checked_add c m = Some k
       \<and> p = \<lparr>np_tasks = ts, np_next_cursor = k, np_source_exhausted = (k = ?D),
           np_reduce_cursor = Some \<lparr>rc_round = round, rc_batch_cursor = c, rc_round_input_count = of_nat (length xs)\<rparr>,
           np_terminal_output = None, np_condition_skipped = False\<rparr>)"
    unfolding reduce_page_of_def unat_ucast_32_64 batches tasks
    using nonzero by (auto simp: bind_res_eq_Inr ok_or_eq_Inr)
  also have "\<dots> \<longleftrightarrow> (\<exists>ts k. ?M = Inr ts \<and> unat k = n
       \<and> p = \<lparr>np_tasks = ts, np_next_cursor = k, np_source_exhausted = (n = length ?all),
           np_reduce_cursor = Some \<lparr>rc_round = round, rc_batch_cursor = c, rc_round_input_count = of_nat (length xs)\<rparr>,
           np_terminal_output = None, np_condition_skipped = False\<rparr>)" (is "(\<exists>ts m k. ?P ts m k) \<longleftrightarrow> (\<exists>ts k. ?Q ts k)")
  proof -
    have len: "?M = Inr ts \<Longrightarrow> length ts = n - unat c" for ts
      using map_res_length [of _ "[unat c..<n]" ts] by simp
    have eqD: "unat k = n \<Longrightarrow> k = ?D \<longleftrightarrow> n = length ?all" for k
      using total by (metis word_unat_eq_iff)
    have "?P ts m k \<Longrightarrow> ?Q ts k" for ts m k
      using len [of ts] cn(1) eqD [of k] by (auto simp: try_from_nat_eq_Some checked_add_eq_Some)
    moreover obtain m :: u64 where m: "unat m = n - unat c"
    proof
      show "unat (of_nat (n - unat c) :: u64) = n - unat c"
        using cn(2) small by (simp add: unat_of_nat del: of_nat_diff)
    qed
    have "?Q ts k \<Longrightarrow> ?P ts m k" for ts k
      using len [of ts] cn(1) eqD [of k] m by (auto simp: try_from_nat_eq_Some checked_add_eq_Some)
    ultimately show ?thesis by blast
  qed
  also have "\<dots> \<longleftrightarrow> ?M = Inr (np_tasks p) \<and> unat (np_next_cursor p) = n
    \<and> (np_source_exhausted p \<longleftrightarrow> n = length ?all)
    \<and> np_reduce_cursor p = Some \<lparr>rc_round = round, rc_batch_cursor = c, rc_round_input_count = of_nat (length xs)\<rparr>
    \<and> np_terminal_output p = None \<and> \<not> np_condition_skipped p"
    by (cases p) auto
  finally show ?thesis .
qed


definition reduce_ready ::
  "exec_lib \<Rightarrow> uuid_lib \<Rightarrow> schedule_request \<Rightarrow> execution_node \<Rightarrow> (string \<times> json) list \<Rightarrow> json \<Rightarrow> u64
    \<Rightarrow> execution_reducer \<Rightarrow> u64 \<Rightarrow> u32 \<Rightarrow> json list \<Rightarrow> bool" where
  "reduce_ready lib ulib request node outputs items max_items reducer round width xs \<longleftrightarrow>
     reduce_admissible request node outputs items round width xs \<and> xs \<noteq> []
     \<and> (round = 1 \<longrightarrow> length xs \<le> unat max_items)
     \<and> (\<exists>ts. map_res (reduce_task_at lib ulib request node reducer round width xs)
               [0..<length (chunks (unat width) xs)] = Inr ts)"

lemma map_res_upt_sub:
  assumes "map_res f [0..<m] = Inr ys" and "i \<le> j" and "j \<le> m"
  shows "\<exists>zs. map_res f [i..<j] = Inr zs"
proof -
  have "\<forall>k\<in>set [0..<m]. \<exists>y. f k = Inr y" 
    by (intro iffD1 [OF map_res_ok_iff]) (rule exI [of _ ys], rule assms(1))
  then have "\<forall>k\<in>set [i..<j]. \<exists>y. f k = Inr y" using assms(3) by auto
  then show ?thesis by (rule iffD2 [OF map_res_ok_iff])
qed

lemma chunks_eq_Nil: "0 < n \<Longrightarrow> chunks n xs = [] \<longleftrightarrow> xs = []"
  by (cases "xs = []") (auto simp: chunks_Cons)

interpretation reduce_pager: bounded_pager
  "\<lambda>c. materialize_reduce_page lib ulib request node outputs items max_items reducer width limit
         (reduce_input round xs width limit c)"
  "reduce_task_at lib ulib request node reducer round width xs"
  "length (chunks (unat width) xs)" "unat limit"
  "reduce_admissible request node outputs items round width xs \<and> xs \<noteq> []"
  "reduce_ready lib ulib request node outputs items max_items reducer round width xs"
  for lib ulib request node outputs items max_items reducer round and width limit :: u32 and xs
proof (unfold_locales, goal_cases)
  case (1 c p)
  then have w: "0 < unat width" by (auto simp: reduce_admissible_def unat_gt_0)
  with 1 have c: "unat c < length (chunks (unat width) xs)" by (auto simp: chunks_eq_Nil)
  have "unat c * unat width \<le> length xs" using chunk_start [OF w c] by simp
  with 1 have "reduce_page_of lib ulib request node reducer (ucast width) (reduce_input round xs width limit c)
      (reduce_slice xs (unat width) (unat limit) (unat c)) (of_nat (length xs)) = Inr p"
    using reduce_page_source [of request node outputs items round width xs c] by blast
  with 1(1) show ?case
    by (simp add: reduce_page_of_eq [OF conjunct1 [OF 1(1)] c])
next
  case 2
  then show ?case by (simp add: reduce_ready_def)
next
  case (3 c)
  then have adm: "reduce_admissible request node outputs items round width xs" and "xs \<noteq> []"
    and max: "round = 1 \<longrightarrow> length xs \<le> unat max_items"
    by (auto simp: reduce_ready_def)
  from adm have w: "0 < unat width" by (auto simp: reduce_admissible_def unat_gt_0)
  with 3(2) \<open>xs \<noteq> []\<close> have c: "unat c < length (chunks (unat width) xs)" by (auto simp: chunks_eq_Nil)
  let ?n = "min (unat c + unat limit) (length (chunks (unat width) xs))"
  obtain ts where "map_res (reduce_task_at lib ulib request node reducer round width xs) [unat c..<?n] = Inr ts"
    using 3(1) c map_res_upt_sub [of _ _ _ "unat c" ?n] unfolding reduce_ready_def by fastforce
  moreover have "length (chunks (unat width) xs) < 2 ^ 64"
    using length_chunks_le [OF w, of xs] adm by (simp add: reduce_admissible_def)
  then have "unat (of_nat ?n :: u64) = ?n"
    by (intro unat_of_nat_64 le_less_trans [OF min.cobounded2])
  ultimately have "materialize_reduce_page lib ulib request node outputs items max_items reducer width limit
      (reduce_input round xs width limit c) = Inr \<lparr>np_tasks = ts, np_next_cursor = of_nat ?n,
        np_source_exhausted = (?n = length (chunks (unat width) xs)),
        np_reduce_cursor = Some \<lparr>rc_round = round, rc_batch_cursor = c, rc_round_input_count = of_nat (length xs)\<rparr>,
        np_terminal_output = None, np_condition_skipped = False\<rparr>"
    using max less_imp_le [OF chunk_start [OF w c]]
    by (simp add: reduce_page_source [OF adm] reduce_page_of_eq [OF adm c])
  then show ?case by blast
qed


lemma map_res_enumerate:
  "map_res (\<lambda>i. g i (ys ! i)) [0..<length ys] = map_res (\<lambda>(i, y). g i y) (enumerate 0 ys)"
proof -
  have "enumerate 0 ys = map (\<lambda>i. (i, ys ! i)) [0..<length ys]"
    by (rule nth_equalityI) (simp_all add: nth_enumerate_eq)
  then show ?thesis by (simp add: map_res_map)
qed

text \<open>C22: Reduce paging is exact and ends: for a positive batch size and page limit, asking for the pages
  of a reduce round from batch zero until the round is exhausted succeeds with a list of tasks if
  and only if every batch yields a task (and a first round respects the item bound); the tasks are
  then those of the consecutive batches of the round's inputs, in order, whatever the page limit
  is. This holds for the first round over the plan's items and for every later round over the
  results of the round before.\<close>

theorem reduce_paging_exact:
  assumes "reduce_admissible request node outputs items round width xs" and "xs \<noteq> []" and "0 < limit"
  shows "paging_run (\<lambda>c. materialize_reduce_page lib ulib request node outputs items max_items reducer width limit
             (reduce_input round xs width limit c)) 0 ts \<longleftrightarrow>
    (round = 1 \<longrightarrow> length xs \<le> unat max_items)
    \<and> map_res (\<lambda>(i, batch). reduce_batch_task lib ulib request node reducer round (of_nat i) batch)
        (enumerate 0 (chunks (unat width) xs)) = Inr ts"
    (is "?run ts \<longleftrightarrow> ?spec ts")
proof -
  let ?m = "length (chunks (unat width) xs)"
  have w: "0 < unat width" using assms(1) by (auto simp: reduce_admissible_def unat_gt_0)
  have m: "0 < ?m" using w assms(2) by (simp add: chunks_eq_Nil)
  have lim: "0 < unat limit" using assms(3) by (simp add: word_less_nat_alt)
  have tasks: "map_res (reduce_task_at lib ulib request node reducer round width xs) [0..<?m] =
      map_res (\<lambda>(i, batch). reduce_batch_task lib ulib request node reducer round (of_nat i) batch)
        (enumerate 0 (chunks (unat width) xs))"
    unfolding reduce_task_at_def
    by (rule map_res_enumerate [where g = "\<lambda>i. reduce_batch_task lib ulib request node reducer round (of_nat i)"])
  have "?run ts \<Longrightarrow> ?spec ts"
  proof -
    assume run: "?run ts"
    have "round = 1 \<longrightarrow> length xs \<le> unat max_items"
      using paging_run_first [OF run] reduce_page_source [OF assms(1), of 0] by auto
    then show "?spec ts"
      using reduce_pager.run_covers [OF conjI [OF assms(1, 2)] run] m tasks by simp
  qed
  moreover have "?spec ts \<Longrightarrow> ?run ts"
  proof -
    assume spec: "?spec ts"
    then have "reduce_ready lib ulib request node outputs items max_items reducer round width xs"
      using assms(1, 2) tasks by (auto simp: reduce_ready_def)
    from reduce_pager.run_exact [OF this lim] spec tasks show "?run ts" by simp
  qed
  ultimately show ?thesis by blast
qed


section \<open>A concrete run\<close>

lemma to_be_bytes_code [code]:
  "to_be_bytes w = map (\<lambda>k. char_of (unat (drop_bit k w))) [24, 16, 8, 0]"
  by (simp add: to_be_bytes_def drop_bit_eq_div unat_div)

definition sample_uuid_lib :: uuid_lib where
  "sample_uuid_lib = \<lparr>new_v5 = (\<lambda>namespace name. name), namespace_url = []\<rparr>"

definition sample_goal :: execution_goal_contract where
  "sample_goal = \<lparr>goal_objective = ''report'', goal_requirements = [], goal_deliverables = [],
     goal_coverage = [], goal_constraints = [], goal_completion_checks = []\<rparr>"

definition sample_canonical_plan :: "execution_plan_definition \<Rightarrow> canonical_execution_plan" where
  "sample_canonical_plan plan = \<lparr>cp_definition = plan, cp_plan_hash = replicate 32 0,
     cp_catalog_hash = replicate 32 0, cp_estimate = estimate_default, cp_report = []\<rparr>"

definition sample_schedule :: "execution_plan_definition \<Rightarrow> schedule_request" where
  "sample_schedule plan = \<lparr>sq_run_uid = ''0123456789abcdef'', sq_goal = sample_goal,
     sq_plan = sample_canonical_plan plan, sq_catalog = sample_catalog, sq_run_input = JNull,
     sq_projection = \<lparr>pr_plan_revision = 1, pr_node_statuses = [], pr_tasks = []\<rparr>,
     sq_config = execution_config_default, sq_budget_ledger = budget_ledger_new sample_limit, sq_now = 0\<rparr>"


definition sample_map_node :: execution_node where
  "sample_map_node = sample_node ''m'' []
     (Op_Map (JArray [JString ''x'', JString ''y'']) [] 5 (JObject [])
        (Map_Capability \<lparr>cap_name = ''a'', cap_version = ''1''\<rparr>))"

definition sample_reducer :: execution_reducer where
  "sample_reducer = Red_Capability \<lparr>cap_name = ''b'', cap_version = ''1''\<rparr>"

theorem map_paging_exact_witness:
  "\<exists>ts. paging_run (\<lambda>c. materialize_map_page sample_exec_lib sample_uuid_lib (sample_schedule sample_plan)
       sample_map_node [] (JArray [JString ''x'', JString ''y'']) [] 5
       (Map_Capability \<lparr>cap_name = ''a'', cap_version = ''1''\<rparr>) c 1) 0 ts"
proof -
  let ?step = "map_step sample_exec_lib sample_uuid_lib (sample_schedule sample_plan) sample_map_node []
     (Map_Capability \<lparr>cap_name = ''a'', cap_version = ''1''\<rparr>) []"
  have "\<exists>ts. map_res ?step [JString ''x'', JString ''y''] = Inr ts \<and> distinct (map lt_item_key ts)"
  proof -
    have "case map_res ?step [JString ''x'', JString ''y''] of Inl _ \<Rightarrow> False | Inr ts \<Rightarrow> distinct (map lt_item_key ts)"
      by code_simp
    then show ?thesis by (auto split: sum.splits)
  qed
  moreover have "resolve_bindings (JArray [JString ''x'', JString ''y''])
      (node_context (sample_schedule sample_plan) sample_map_node []) = Inr (JArray [JString ''x'', JString ''y''])"
    by code_simp
  ultimately show ?thesis
    using map_paging_exact [of "JArray [JString ''x'', JString ''y'']" "sample_schedule sample_plan" sample_map_node
        "[]" "[JString ''x'', JString ''y'']" 1] by fastforce
qed

theorem reduce_paging_exact_witness:
  "\<exists>ts. paging_run (\<lambda>c. materialize_reduce_page sample_exec_lib sample_uuid_lib (sample_schedule sample_plan)
       sample_map_node [] JNull 5 sample_reducer 2 1
       (reduce_input 2 [JNull, JBool True, JNull] 2 1 c)) 0 ts"
proof -
  have "reduce_admissible (sample_schedule sample_plan) sample_map_node [] JNull 2 2 [JNull, JBool True, JNull]"
    by (simp add: reduce_admissible_def)
  note exact = reduce_paging_exact [OF this, of 1 sample_exec_lib sample_uuid_lib 5 sample_reducer]
  have "is_ok (map_res (\<lambda>(i, batch). reduce_batch_task sample_exec_lib sample_uuid_lib (sample_schedule sample_plan)
       sample_map_node sample_reducer 2 (of_nat i) batch) (enumerate 0 (chunks (unat (2 :: u32)) [JNull, JBool True, JNull])))"
    by code_simp
  then show ?thesis unfolding is_ok_iff using exact by simp
qed

end
