(* ===== verification/Node_Pages.thy ===== *)
theory Node_Pages
  imports Paging
begin

text \<open>
  What every page of \<open>materialize_node_page\<close> satisfies, whatever the node's operation: its size,
  the identity, generation and reservation of its tasks, and the empty page of a false condition.
\<close>

section \<open>Tasks of one node\<close>

definition fresh_task :: "uuid_lib \<Rightarrow> schedule_request \<Rightarrow> execution_node \<Rightarrow> logical_task \<Rightarrow> bool" where
  "fresh_task ulib request node t \<longleftrightarrow>
     lt_node_id t = node_id node \<and> lt_generation t = 1
     \<and> lt_plan_revision t = pr_plan_revision (sq_projection request)
     \<and> est_tasks (lt_reservation t) = 1
     \<and> execution_task_id_derive ulib (sq_run_uid request) (node_id node) (lt_item_key t) = Inr (lt_task_id t)
     \<and> (lt_compensation t \<noteq> None \<longrightarrow> (\<exists>r. node_operation node = Op_Capability r))"

lemma logical_task_fresh:
  assumes "logical_task_of ulib request node key input kind reservation = Inr t" and "est_tasks reservation = 1"
  shows "fresh_task ulib request node t"
  using logical_task_of_ok [OF assms(1)] assms(2) by (auto simp: fresh_task_def)

lemma single_task_fresh:
  assumes single: "catalog_single_tasks (sq_catalog request)"
    and "materialize_single_task lib ulib request node outputs = Inr ts"
  shows "length ts \<le> 1" and "\<forall>t\<in>set ts. fresh_task ulib request node t"
  using assms(2) unfolding materialize_single_task_def
  by (auto simp: Let_def bind_res_eq_Inr split: if_splits
      intro: logical_task_fresh reservation_tasks(1) [OF single])

lemma map_item_fresh:
  assumes single: "catalog_single_tasks (sq_catalog request)"
  shows "map_step lib ulib request node outputs task pointer item = Inr t \<Longrightarrow> fresh_task ulib request node t"
  by (auto simp: map_step_def map_item_task_def Let_def bind_res_eq_Inr
      intro: logical_task_fresh reservation_tasks(2) [OF single])

lemma reduce_batch_fresh:
  assumes single: "catalog_single_tasks (sq_catalog request)"
  shows "reduce_batch_task lib ulib request node reducer round i batch = Inr t \<Longrightarrow>
     fresh_task ulib request node t \<and> lt_item_key t = batch_key round i"
  by (auto simp: reduce_batch_task_def Let_def bind_res_eq_Inr dest: logical_task_of_ok(1)
      intro: logical_task_fresh reservation_tasks(3) [OF single])

section \<open>Pages\<close>

definition page_wf :: "uuid_lib \<Rightarrow> schedule_request \<Rightarrow> execution_node \<Rightarrow> u32 \<Rightarrow> node_page \<Rightarrow> bool" where
  "page_wf ulib request node limit p \<longleftrightarrow>
     length (np_tasks p) \<le> unat limit \<and> distinct (map lt_item_key (np_tasks p))
     \<and> (\<forall>t\<in>set (np_tasks p). fresh_task ulib request node t) \<and> \<not> np_condition_skipped p"

lemma map_res_all: "map_res f xs = Inr ys \<Longrightarrow> (\<And>x y. f x = Inr y \<Longrightarrow> P y) \<Longrightarrow> \<forall>y\<in>set ys. P y"
  by (induction xs arbitrary: ys) (auto simp: bind_res_eq_Inr)

lemma map_page_wf:
  assumes single: "catalog_single_tasks (sq_catalog request)"
    and page: "materialize_map_page lib ulib request node outputs items pointer max_items task c limit = Inr p"
  shows "page_wf ulib request node limit p"
proof -
  from page obtain vs cnt where cnt: "unat cnt = length vs" "c \<le> cnt"
    and p: "if vs = [] then
        is_ok (validate_instance lib (node_output_schema node) (JObject [(''items'', JArray [])]) (output_path node))
        \<and> p = (empty_page c False)\<lparr>np_terminal_output := Some (JObject [(''items'', JArray [])])\<rparr>
      else map_page_from lib ulib request node outputs pointer task c limit vs cnt = Inr p"
    unfolding materialize_map_page_eq by blast
  show ?thesis
  proof (cases "vs = []")
    case True
    with p show ?thesis by (simp add: page_wf_def empty_page_def)
  next
    case False
    let ?n = "min (unat c + unat limit) (length vs)"
    have skip: "\<not> np_condition_skipped p" and
      tasks: "map_res (\<lambda>i. map_step lib ulib request node outputs task pointer (vs ! i)) [unat c..<?n] = Inr (np_tasks p)"
      and "distinct (map lt_item_key (np_tasks p))"
      using p False map_page_from_eq [OF cnt] by auto
    moreover have "length (np_tasks p) \<le> unat limit" using map_res_length [OF tasks] by auto
    ultimately show ?thesis
      using map_res_all [OF tasks map_item_fresh [OF single]] skip by (simp add: page_wf_def)
  qed
qed

lemma batch_key_inj: "batch_key r i = batch_key r j \<Longrightarrow> i = j"
  by (auto simp: batch_key_def dest: show_nat_inj unat_eqD)

lemma reduce_page_tasks_wf:
  assumes single: "catalog_single_tasks (sq_catalog request)"
  shows "reduce_page_tasks lib ulib request node reducer cursor k batches = Inr ts \<Longrightarrow>
    length ts = length batches \<and> (\<forall>t\<in>set ts. fresh_task ulib request node t)
    \<and> distinct (map lt_item_key ts)
    \<and> (\<forall>t\<in>set ts. \<exists>i. unat (ri_batch_cursor cursor) + k \<le> unat i \<and> lt_item_key t = batch_key (ri_round cursor) i)"
proof (induction batches arbitrary: k ts)
  case (Cons b bs)
  have "\<exists>i t us. unat i = unat (ri_batch_cursor cursor) + k
      \<and> reduce_batch_task lib ulib request node reducer (ri_round cursor) i b = Inr t
      \<and> reduce_page_tasks lib ulib request node reducer cursor (Suc k) bs = Inr us \<and> ts = t # us"
    using Cons.prems
    by (auto simp: bind_res_eq_Inr ok_or_eq_Inr try_from_nat_eq_Some checked_add_eq_Some)
  then obtain i t us where off: "unat i = unat (ri_batch_cursor cursor) + k"
      and t: "reduce_batch_task lib ulib request node reducer (ri_round cursor) i b = Inr t"
      and us: "reduce_page_tasks lib ulib request node reducer cursor (Suc k) bs = Inr us" and ts: "ts = t # us"
    by blast
  from Cons.IH [OF us] have IH: "length us = length bs" "\<forall>t\<in>set us. fresh_task ulib request node t"
    "distinct (map lt_item_key us)"
    "\<forall>t\<in>set us. \<exists>j. unat (ri_batch_cursor cursor) + Suc k \<le> unat j \<and> lt_item_key t = batch_key (ri_round cursor) j"
    by blast+
  have "lt_item_key t \<notin> lt_item_key ` set us"
  proof
    assume "lt_item_key t \<in> lt_item_key ` set us"
    with IH(4) obtain j where "unat (ri_batch_cursor cursor) + Suc k \<le> unat j"
      and "lt_item_key t = batch_key (ri_round cursor) j" by fastforce
    with off reduce_batch_fresh [OF single t] show False by (auto dest: batch_key_inj)
  qed
  moreover have "\<exists>j. unat (ri_batch_cursor cursor) + k \<le> unat j \<and> lt_item_key u = batch_key (ri_round cursor) j"
    if u: "u \<in> set us" for u
  proof -
    from IH(4) u obtain j where "unat (ri_batch_cursor cursor) + Suc k \<le> unat j"
      and "lt_item_key u = batch_key (ri_round cursor) j" by blast
    then show ?thesis by (intro exI [of _ j]) simp
  qed
  ultimately show ?case
    using IH(1-3) off reduce_batch_fresh [OF single t] unfolding ts by (auto intro!: exI [of _ i])
qed simp

lemma length_chunks_bound: "0 < n \<Longrightarrow> length xs \<le> m * n \<Longrightarrow> length (chunks n xs) \<le> m"
proof (rule ccontr)
  assume n: "0 < n" and len: "length xs \<le> m * n" and "\<not> length (chunks n xs) \<le> m"
  then have "m * n < length xs" by (intro chunk_start) simp_all
  with len show False by simp
qed

lemma reduce_page_of_wf:
  fixes width limit :: u32
  assumes single: "catalog_single_tasks (sq_catalog request)"
    and page: "reduce_page_of lib ulib request node reducer (ucast width) cursor inputs cnt = Inr p"
    and len: "length inputs \<le> unat limit * unat width"
  shows "page_wf ulib request node limit p"
proof -
  from page have w: "0 < unat width" and "\<not> np_condition_skipped p"
    and tasks: "reduce_page_tasks lib ulib request node reducer cursor 0 (chunks (unat width) inputs) = Inr (np_tasks p)"
    by (auto simp: reduce_page_of_def bind_res_eq_Inr unat_gt_0 split: if_splits)
  from this(2) reduce_page_tasks_wf [OF single tasks] length_chunks_bound [OF w len] show ?thesis
    by (simp add: page_wf_def)
qed

lemma reduce_round_one_source:
  fixes width limit :: u32
  assumes "reduce_round_one lib request node outputs items max_items (ucast width) (ucast limit) cursor = Inr (Inr (inputs, cnt))"
  shows "length inputs \<le> unat limit * unat width"
proof -
  from assms obtain owned start requested
    where "unat requested = unat limit * unat width"
      and "inputs = take (unat (min (saturating_add start requested) cnt) - unat start) (drop (unat start) owned)"
    unfolding reduce_round_one_def Let_def
    by (auto simp: bind_res_eq_Inr ok_or_eq_Inr checked_mul_eq_Some split: if_splits) metis
  then show ?thesis by (auto simp: unat_min unat_saturating_add)
qed

lemma reduce_later_source:
  fixes width limit :: u32
  assumes "reduce_later_round node (ucast width) (ucast limit) cursor = Inr (inputs, cnt)"
  shows "length inputs \<le> unat limit * unat width"
proof -
  have "\<exists>m :: u64. unat m = unat limit * unat width \<and> length inputs \<le> unat m"
    using assms unfolding reduce_later_round_def
    by (auto simp: bind_res_eq_Inr ok_or_eq_Inr ensure_eq_Inr Let_def checked_mul_eq_Some
        try_from_nat_eq_Some unat_min)
  then show ?thesis by auto
qed

lemma reduce_page_wf:
  assumes single: "catalog_single_tasks (sq_catalog request)"
    and page: "materialize_reduce_page lib ulib request node outputs items max_items reducer width limit cursor = Inr p"
  shows "page_wf ulib request node limit p"
proof (cases "ri_round cursor = 1")
  case True
  with page obtain src where src: "reduce_round_one lib request node outputs items max_items (ucast width) (ucast limit) cursor = Inr src"
    and p: "(case src of Inl page \<Rightarrow> Inr page | Inr (inputs, cnt) \<Rightarrow>
        reduce_page_of lib ulib request node reducer (ucast width) cursor inputs cnt) = Inr p"
    by (auto simp: materialize_reduce_page_def bind_res_eq_Inr ensure_eq_Inr)
  show ?thesis
  proof (cases src)
    case (Inl page)
    with src p show ?thesis
      by (auto simp: reduce_round_one_def bind_res_eq_Inr Let_def reduce_single_page_def page_wf_def
          split: if_splits)
  next
    case (Inr b)
    then obtain inputs cnt where b: "src = Inr (inputs, cnt)" by (cases b) auto
    show ?thesis
      using p src unfolding b by (auto intro: reduce_page_of_wf [OF single] reduce_round_one_source)
  qed
next
  case False
  with page obtain inputs cnt where src: "reduce_later_round node (ucast width) (ucast limit) cursor = Inr (inputs, cnt)"
    and p: "reduce_page_of lib ulib request node reducer (ucast width) cursor inputs cnt = Inr p"
    by (auto simp: materialize_reduce_page_def bind_res_eq_Inr ensure_eq_Inr)
  show ?thesis by (rule reduce_page_of_wf [OF single p reduce_later_source [OF src]])
qed


lemma page_of_wf:
  assumes single: "catalog_single_tasks (sq_catalog request)"
    and page: "materialize_page_of lib ulib request node outputs cursor limit reduce = Inr p"
  shows "page_wf ulib request node limit p"
proof -
  have empty: "page_wf ulib request node limit (empty_page c False)" for c
    by (simp add: page_wf_def empty_page_def)
  have wf: "page_wf ulib request node limit q"
    if "materialize_single_task lib ulib request node outputs = Inr ts" "np_tasks q = take (unat limit) ts"
      "\<not> np_condition_skipped q" for ts q
    using single_task_fresh [OF single that(1)] that(2, 3)
    by (cases ts; cases "unat limit") (auto simp: page_wf_def)
  show ?thesis
  proof (cases "node_operation node")
    case (Op_Map items pointer max_items schema task)
    with page show ?thesis by (auto simp: materialize_page_of_def intro: map_page_wf [OF single])
  next
    case (Op_Reduce items max_items reducer width)
    with page show ?thesis
      by (auto simp: materialize_page_of_def bind_res_eq_Inr intro: reduce_page_wf [OF single])
  qed (use page in \<open>auto simp: materialize_page_of_def bind_res_eq_Inr Let_def split: if_splits
      intro: empty wf\<close>)
qed

lemma scheduler_catalog_single:
  "validate_catalog_entries lib prev cs = Inr () \<Longrightarrow> list_all (\<lambda>c. est_tasks (ec_estimate c) = 1) cs"
  by (induction cs arbitrary: prev) (auto simp: Let_def split: if_splits)

lemma find_node:
  "find (\<lambda>node. node_id node = nid) nodes = Some node \<Longrightarrow> node \<in> set nodes \<and> node_id node = nid"
  by (auto simp: find_Some_iff)

text \<open>C23: Every page the scheduler materializes is within its limit and well formed: it holds at most
  \<open>limit\<close> tasks with distinct item keys; each belongs to the requested node and the current plan
  revision, starts at generation one, reserves exactly one logical task, carries the identity
  derived from run, node and item key, and has a compensation only on a direct capability node.
  A page of a node whose condition is false has no task and ends the node's source.\<close>

theorem node_page_wellformed:
  assumes "materialize_node_page lib ulib request nid outputs cursor limit reduce = Inr p"
  shows "length (np_tasks p) \<le> unat limit \<and> unat limit \<le> 1000
    \<and> distinct (map lt_item_key (np_tasks p))
    \<and> (\<forall>t\<in>set (np_tasks p).
        lt_node_id t = nid \<and> lt_generation t = 1
        \<and> lt_plan_revision t = pr_plan_revision (sq_projection request)
        \<and> est_tasks (lt_reservation t) = 1
        \<and> execution_task_id_derive ulib (sq_run_uid request) nid (lt_item_key t) = Inr (lt_task_id t)
        \<and> (lt_compensation t \<noteq> None \<longrightarrow>
            (\<exists>node\<in>set (plan_nodes (cp_definition (sq_plan request))).
              node_id node = nid \<and> (\<exists>r. node_operation node = Op_Capability r))))
    \<and> (np_condition_skipped p \<longrightarrow> np_tasks p = [] \<and> np_source_exhausted p)"
proof -
  from assms obtain node where limit: "unat limit \<le> 1000"
    and catalog: "validate_scheduler_catalog lib (sq_catalog request) = Inr ()"
    and node: "find (\<lambda>node. node_id node = nid) (plan_nodes (cp_definition (sq_plan request))) = Some node"
    and p: "p = empty_page 0 True \<or> materialize_page_of lib ulib request node outputs cursor limit reduce = Inr p"
    unfolding materialize_node_page_def
    by (auto simp: bind_res_eq_Inr ensure_eq_Inr ok_or_eq_Inr word_less_nat_alt
        split: option.splits if_splits)
  have single: "catalog_single_tasks (sq_catalog request)"
    using scheduler_catalog_single [of lib None] catalog
    by (simp add: validate_scheduler_catalog_def catalog_single_tasks_def)
  from p show ?thesis
  proof
    assume "p = empty_page 0 True"
    with limit show ?thesis by (simp add: empty_page_def)
  next
    assume "materialize_page_of lib ulib request node outputs cursor limit reduce = Inr p"
    from page_of_wf [OF single this] limit find_node [OF node] show ?thesis
      by (auto simp: page_wf_def fresh_task_def)
  qed
qed


theorem node_page_wellformed_witness:
  "\<exists>p. materialize_node_page sample_exec_lib sample_uuid_lib (sample_schedule sample_plan) ''a'' [] 0 10 None = Inr p
     \<and> np_tasks p \<noteq> [] \<and> (\<forall>t\<in>set (np_tasks p). lt_node_id t = ''a'' \<and> lt_generation t = 1)"
proof -
  have "case materialize_node_page sample_exec_lib sample_uuid_lib (sample_schedule sample_plan) ''a'' [] 0 10 None of
      Inl _ \<Rightarrow> False | Inr p \<Rightarrow> np_tasks p \<noteq> []"
    by code_simp
  then obtain p where "materialize_node_page sample_exec_lib sample_uuid_lib (sample_schedule sample_plan) ''a'' [] 0 10 None = Inr p"
    and "np_tasks p \<noteq> []"
    by (auto split: sum.splits)
  with node_page_wellformed [OF this(1)] show ?thesis by blast
qed

end
