(* ===== verification/Temporal.thy ===== *)
theory Temporal
  imports Compiler_Types
begin

text \<open>
  Waits and deadlines: the resolution of a temporal target when a wait is entered
  (\<open>interpreter/mod.rs\<close>) and the temporal contract that the compiler checks
  (\<open>compiler/mod.rs\<close>). Calendar arithmetic belongs to another crate and is the record
  \<open>chrono_lib\<close>: durations of whole seconds, the checked addition of a duration, and the whole
  seconds from one instant to a later one.
\<close>

section \<open>Calendar arithmetic\<close>

record chrono_lib =
  ch_try_seconds :: "int \<Rightarrow> int option"
  ch_checked_add_signed :: "datetime \<Rightarrow> int \<Rightarrow> datetime option"
  ch_seconds_until :: "datetime \<Rightarrow> datetime \<Rightarrow> u64 option"

text \<open>
  What is relied on: a duration of seconds counts nanoseconds, addition is exact when it succeeds,
  and \<open>signed_duration_since\<close> with \<open>to_std\<close> and \<open>as_secs\<close> truncates a non-negative difference to
  whole seconds. Instants are unbounded here, so the last law is limited to differences that a
  64-bit count of seconds can hold, which every pair of calendar instants satisfies.
\<close>

definition chrono_ok :: "chrono_lib \<Rightarrow> bool" where
  "chrono_ok ch \<longleftrightarrow>
     (\<forall>s d. ch_try_seconds ch s = Some d \<longrightarrow> d = s * 10 ^ 9)
     \<and> (\<forall>t d u. ch_checked_add_signed ch t d = Some u \<longrightarrow> u = t + d)
     \<and> (\<forall>later earlier s. ch_seconds_until ch later earlier = Some s \<longrightarrow>
          earlier \<le> later \<and> uint s = (later - earlier) div 10 ^ 9)
     \<and> (\<forall>later earlier. ch_seconds_until ch later earlier = None \<longrightarrow>
          later < earlier \<or> 2 ^ 64 * 10 ^ 9 \<le> later - earlier)"

section \<open>Resolution at wait entry\<close>

datatype temporal_target_resolution =
    Due datetime
  | DeadlineExceeded datetime datetime

definition try_i64 :: "u64 \<Rightarrow> int option" where
  "try_i64 w = (if uint w < 2 ^ 63 then Some (uint w) else None)"

definition resolve_temporal_target_within_deadline ::
  "chrono_lib \<Rightarrow> execution_temporal_target \<Rightarrow> datetime \<Rightarrow> datetime \<Rightarrow> temporal_target_resolution result" where
  "resolve_temporal_target_within_deadline ch target wait_entered_at run_deadline_at =
     bind_res (case target of
         At at \<Rightarrow> Inr at
       | After delay_seconds \<Rightarrow>
           if delay_seconds = 0 then Inl Err_InvalidProjection
           else
             bind_res (ok_or Err_InvalidProjection (try_i64 delay_seconds)) (\<lambda>seconds.
             bind_res (ok_or Err_InvalidProjection (ch_try_seconds ch seconds)) (\<lambda>delay.
             ok_or Err_InvalidProjection (ch_checked_add_signed ch wait_entered_at delay)))) (\<lambda>due_at.
     Inr (if run_deadline_at \<le> due_at then DeadlineExceeded due_at run_deadline_at else Due due_at))"

definition resolve_temporal_target ::
  "chrono_lib \<Rightarrow> execution_temporal_target \<Rightarrow> datetime \<Rightarrow> datetime \<Rightarrow> datetime result" where
  "resolve_temporal_target ch target wait_entered_at run_deadline_at =
     bind_res (resolve_temporal_target_within_deadline ch target wait_entered_at run_deadline_at) (\<lambda>r.
     case r of Due due_at \<Rightarrow> Inr due_at | DeadlineExceeded _ _ \<Rightarrow> Inl Err_InvalidProjection)"

section \<open>The compiler's temporal contract\<close>

definition append_error :: "string \<Rightarrow> string \<Rightarrow> report \<Rightarrow> report" where
  "append_error code path r = report_error code path r"

definition validate_temporal_target ::
  "chrono_lib \<Rightarrow> execution_temporal_target \<Rightarrow> string \<Rightarrow> datetime \<Rightarrow> datetime \<Rightarrow> report \<Rightarrow> report" where
  "validate_temporal_target ch target path now deadline r =
     (case target of
        At at \<Rightarrow>
          let r = (if at \<le> now then report_error ''temporal_target_elapsed'' path r else r) in
          if deadline \<le> at then report_error ''temporal_target_after_deadline'' path r else r
      | After delay_seconds \<Rightarrow>
          let remaining_seconds = (case ch_seconds_until ch deadline now of None \<Rightarrow> 0 | Some s \<Rightarrow> s) in
          if delay_seconds = 0 then report_error ''temporal_delay_zero'' path r
          else if remaining_seconds \<le> delay_seconds then report_error ''temporal_target_after_deadline'' path r
          else r)"

definition validate_wait_policy ::
  "chrono_lib \<Rightarrow> execution_wait_policy \<Rightarrow> string \<Rightarrow> datetime \<Rightarrow> datetime \<Rightarrow> report \<Rightarrow> report" where
  "validate_wait_policy ch policy path now deadline r =
     validate_temporal_target ch (wp_expiry policy) (path @ ''.expiry'') now deadline r"

fun value_contains_binding :: "json \<Rightarrow> bool" where
  "value_contains_binding (JObject obj) =
     (obj_contains obj ''$ref'' \<or> obj_contains obj ''$item'' \<or> obj_contains obj ''$item_key''
      \<or> (\<exists>kv\<in>set obj. value_contains_binding (snd kv)))"
| "value_contains_binding (JArray values) = (\<exists>v\<in>set values. value_contains_binding v)"
| "value_contains_binding _ = False"

definition validate_wait_expiry_output ::
  "exec_lib \<Rightarrow> execution_node \<Rightarrow> execution_wait_policy \<Rightarrow> string \<Rightarrow> report \<Rightarrow> report" where
  "validate_wait_expiry_output lib node policy path r =
     (case wp_on_expiry policy of
        ContinueWith output \<Rightarrow>
          (case validate_instance lib (node_output_schema node) output ''wait_policy.on_expiry.output'' of
             Inl _ \<Rightarrow> append_error ''invalid_wait_expiry_output'' (path @ ''.wait_policy.on_expiry.output'') r
           | Inr _ \<Rightarrow> r)
      | FailTask \<Rightarrow> r)"

definition validate_node_temporal ::
  "exec_lib \<Rightarrow> chrono_lib \<Rightarrow> datetime \<Rightarrow> datetime \<Rightarrow> nat \<times> execution_node \<Rightarrow> report \<Rightarrow> report" where
  "validate_node_temporal lib ch now deadline indexed r =
     (let (index, node) = indexed; path = index_path ''plan.nodes'' index @ ''.operation'' in
      case node_operation node of
        Op_Review _ wait_policy \<Rightarrow>
          validate_wait_expiry_output lib node wait_policy path
            (validate_wait_policy ch wait_policy (path @ ''.wait_policy'') now deadline r)
      | Op_WaitSignal _ wait_policy \<Rightarrow>
          validate_wait_expiry_output lib node wait_policy path
            (validate_wait_policy ch wait_policy (path @ ''.wait_policy'') now deadline r)
      | Op_WaitUntil wake res \<Rightarrow>
          let r = validate_temporal_target ch wake (path @ ''.wake'') now deadline r in
          if \<not> value_contains_binding res
             \<and> \<not> is_ok (validate_instance lib (node_output_schema node) res ''wait_until.result'')
          then append_error ''invalid_wait_until_result'' (path @ ''.result'') r
          else r
      | _ \<Rightarrow> r)"

definition validate_temporal_contract ::
  "exec_lib \<Rightarrow> chrono_lib \<Rightarrow> execution_plan_definition \<Rightarrow> datetime option \<Rightarrow> datetime \<Rightarrow> execution_config
    \<Rightarrow> string \<Rightarrow> report \<Rightarrow> report" where
  "validate_temporal_contract lib ch plan deadline_opt now config deadline_path r =
     (case deadline_opt of
        None \<Rightarrow> report_error ''missing_deadline'' deadline_path r
      | Some deadline \<Rightarrow>
          if deadline \<le> now then report_error ''deadline_exceeded'' deadline_path r
          else
            let within = (case ch_seconds_until ch deadline now of
                            Some seconds \<Rightarrow> seconds \<le> cfg_maximum_horizon_seconds config | None \<Rightarrow> False);
                r = (if \<not> within then report_error ''deadline_out_of_horizon'' deadline_path r else r)
            in fold (validate_node_temporal lib ch now deadline) (enumerate 0 (plan_nodes plan)) r)"


section \<open>Validation passes\<close>

lemma append_error_pass: "validation_pass (append_error code path)"
  unfolding append_error_def by (rule validation_pass_error)

lemma temporal_target_pass: "validation_pass (validate_temporal_target ch target path now deadline)"
  by unfold_locales
    (auto simp: validate_temporal_target_def Let_def report_error_def error_only_def
      split: execution_temporal_target.splits)

lemma expiry_output_pass: "validation_pass (validate_wait_expiry_output lib node policy path)"
  by unfold_locales
    (auto simp: validate_wait_expiry_output_def append_error_def report_error_def error_only_def
      split: execution_wait_expiry_action.splits sum.splits)

lemma wait_policy_pass: "validation_pass (validate_wait_policy ch policy path now deadline)"
  unfolding validate_wait_policy_def by (rule temporal_target_pass)

lemma node_temporal_pass: "validation_pass (validate_node_temporal lib ch now deadline x)"
proof -
  obtain i node where x: "x = (i, node)" by (cases x)
  have "validation_pass (\<lambda>r. if b then append_error code path r else r)" for b code path
    by (intro validation_pass_if append_error_pass validation_pass_id)
  note passes = validation_pass_comp [OF temporal_target_pass this]
    validation_pass_comp [OF wait_policy_pass expiry_output_pass] validation_pass_id
  show ?thesis
    unfolding validate_node_temporal_def x Let_def prod.case
    by (cases "node_operation node") (simp_all add: passes)
qed

interpretation temporal_contract: validation_pass "validate_temporal_contract lib ch plan deadline now config path"
  for lib ch plan deadline now config path
proof (cases deadline)
  case None
  then show "validation_pass (validate_temporal_contract lib ch plan deadline now config path)"
    unfolding validate_temporal_contract_def by (simp add: validation_pass_error)
next
  case (Some t)
  let ?within = "case ch_seconds_until ch t now of Some s \<Rightarrow> s \<le> cfg_maximum_horizon_seconds config | None \<Rightarrow> False"
  have "validation_pass (\<lambda>r. if \<not> ?within then report_error ''deadline_out_of_horizon'' path r else r)"
    by (intro validation_pass_if validation_pass_error validation_pass_id)
  moreover have "validation_pass (fold (validate_node_temporal lib ch now t) (enumerate 0 (plan_nodes plan)))"
    by (rule validation_pass_fold) (rule node_temporal_pass)
  ultimately have "validation_pass (\<lambda>r. fold (validate_node_temporal lib ch now t) (enumerate 0 (plan_nodes plan))
      (if \<not> ?within then report_error ''deadline_out_of_horizon'' path r else r))"
    by (rule validation_pass_comp)
  then show "validation_pass (validate_temporal_contract lib ch plan deadline now config path)"
    unfolding validate_temporal_contract_def Some
    by (cases "t \<le> now") (simp_all add: validation_pass_error Let_def)
qed


section \<open>Admission and resolution\<close>

lemma chrono_okD:
  assumes "chrono_ok ch"
  shows "ch_try_seconds ch s = Some d \<Longrightarrow> d = s * 10 ^ 9"
    and "ch_checked_add_signed ch t d = Some u \<Longrightarrow> u = t + d"
    and "ch_seconds_until ch later earlier = Some w \<Longrightarrow> earlier \<le> later \<and> uint w = (later - earlier) div 10 ^ 9"
    and "ch_seconds_until ch later earlier = None \<Longrightarrow>
      later < earlier \<or> 2 ^ 64 * 10 ^ 9 \<le> later - earlier"
  using assms unfolding chrono_ok_def by blast+

lemma seconds_until:
  assumes "chrono_ok ch" and "now < deadline" and "deadline - now < 2 ^ 64 * 10 ^ 9"
  obtains s where "ch_seconds_until ch deadline now = Some s" and "uint s = (deadline - now) div 10 ^ 9"
proof (cases "ch_seconds_until ch deadline now")
  case None
  from chrono_okD(4) [OF assms(1) None] assms(2, 3) show ?thesis by linarith
next
  case (Some s)
  from chrono_okD(3) [OF assms(1) Some] show ?thesis by (intro that [OF Some]) blast
qed

lemma resolve_after_due:
  assumes "chrono_ok ch" and "resolve_temporal_target_within_deadline ch (After s) entered deadline = Inr r"
  shows "s \<noteq> 0" and "r = (if deadline \<le> entered + uint s * 10 ^ 9
      then DeadlineExceeded (entered + uint s * 10 ^ 9) deadline else Due (entered + uint s * 10 ^ 9))"
  using assms
  by (auto simp: resolve_temporal_target_within_deadline_def chrono_ok_def bind_res_eq_Inr ok_or_eq_Inr
      try_i64_def split: if_splits)

text \<open>C25: Entered waits end before the deadline: whenever a temporal target resolves, it resolves to its
  absolute instant, or to the entry time plus the declared positive delay, and that instant is
  strictly earlier than the run deadline; a target at or past the deadline is never waited on.\<close>

theorem resolved_wait_before_deadline:
  assumes "chrono_ok ch" and "resolve_temporal_target ch target entered deadline = Inr due"
  shows "due < deadline
    \<and> (case target of At t \<Rightarrow> due = t | After s \<Rightarrow> 0 < s \<and> due = entered + uint s * 10 ^ 9)"
proof (cases target)
  case (At t)
  with assms(2) show ?thesis
    by (auto simp: resolve_temporal_target_def resolve_temporal_target_within_deadline_def split: if_splits)
next
  case (After s)
  from assms(2) obtain r where r: "resolve_temporal_target_within_deadline ch (After s) entered deadline = Inr r"
    and "(case r of Due due_at \<Rightarrow> Inr due_at | DeadlineExceeded _ _ \<Rightarrow> Inl Err_InvalidProjection) = Inr due"
    unfolding After resolve_temporal_target_def bind_res_eq_Inr by blast
  then have "r = Due due" by (cases r) auto
  with r have "resolve_temporal_target_within_deadline ch (After s) entered deadline = Inr (Due due)" by simp
  from resolve_after_due [OF assms(1) this] show ?thesis
    by (auto simp: After word_neq_0_conv split: if_splits)
qed

text \<open>C26: The compiler's check of a wait agrees with the fence at wait entry up to the rounding of the
  horizon to whole seconds. A target that the compiler accepts is not past the deadline when its
  wait is entered at once. A target that it rejects can, at whatever later time the wait is
  entered, only be waited on when its instant had already elapsed at compile time or lies within
  the last second before the deadline.\<close>

theorem temporal_target_admission:
  assumes "chrono_ok ch" and "now < deadline" and "deadline - now < 2 ^ 64 * 10 ^ 9" and "now \<le> entered"
  shows "(\<not> has_errors (validate_temporal_target ch target path now deadline []) \<longrightarrow>
       resolve_temporal_target_within_deadline ch target now deadline \<noteq> Inr (DeadlineExceeded x y))
    \<and> (has_errors (validate_temporal_target ch target path now deadline []) \<longrightarrow>
       resolve_temporal_target_within_deadline ch target entered deadline = Inr (Due due) \<longrightarrow>
       due \<le> now \<or> deadline - due < 10 ^ 9)"
proof (cases target)
  case (At t)
  then show ?thesis
    by (auto simp: validate_temporal_target_def resolve_temporal_target_within_deadline_def)
next
  case (After s)
  obtain rem where rem: "ch_seconds_until ch deadline now = Some rem" "uint rem = (deadline - now) div 10 ^ 9"
    by (rule seconds_until [OF assms(1-3)])
  let ?N = "10 ^ 9 :: int"
  have bounds: "uint rem * ?N \<le> deadline - now" "deadline - now < uint rem * ?N + ?N"
    unfolding rem(2) by (simp_all add: minus_mod_eq_div_mult [symmetric])
  have errors: "has_errors (validate_temporal_target ch target path now deadline []) \<longleftrightarrow> s = 0 \<or> uint rem \<le> uint s"
    by (simp add: After validate_temporal_target_def rem(1) word_le_def)
  show ?thesis
  proof (intro conjI impI notI)
    assume "\<not> has_errors (validate_temporal_target ch target path now deadline [])"
      and exceeded: "resolve_temporal_target_within_deadline ch target now deadline = Inr (DeadlineExceeded x y)"
    then have "uint s < uint rem" using errors by simp
    moreover have "deadline \<le> now + uint s * ?N"
      using resolve_after_due(2) [OF assms(1) exceeded [unfolded After]] by (simp split: if_splits)
    ultimately show False using bounds(1) by simp
  next
    assume err: "has_errors (validate_temporal_target ch target path now deadline [])"
      and due: "resolve_temporal_target_within_deadline ch target entered deadline = Inr (Due due)"
    have "due = entered + uint s * ?N" and "s \<noteq> 0"
      using resolve_after_due [OF assms(1) due [unfolded After]] by (simp_all split: if_splits)
    with err errors bounds(2) assms(4) show "due \<le> now \<or> deadline - due < ?N" by simp
  qed
qed


section \<open>Concrete instances\<close>

text \<open>An instance of the calendar: 64-bit milliseconds bound a duration, instants are unbounded.\<close>

definition sample_chrono :: chrono_lib where
  "sample_chrono = \<lparr>
     ch_try_seconds = (\<lambda>s. if \<bar>s\<bar> \<le> 9223372036854775 then Some (s * 10 ^ 9) else None),
     ch_checked_add_signed = (\<lambda>t d. Some (t + d)),
     ch_seconds_until = (\<lambda>later earlier. if earlier \<le> later \<and> (later - earlier) div 10 ^ 9 < 2 ^ 64
        then Some (word_of_int ((later - earlier) div 10 ^ 9)) else None)\<rparr>"

lemma sample_chrono_ok: "chrono_ok sample_chrono"
proof -
  have "uint (word_of_int ((later - earlier) div 10 ^ 9) :: u64) = (later - earlier) div 10 ^ 9"
    if "earlier \<le> later" "(later - earlier) div 10 ^ 9 < 2 ^ 64" for later earlier :: int
  proof -
    have "0 \<le> (later - earlier) div 10 ^ 9" using that(1) by (intro div_int_pos_iff [THEN iffD2]) simp
    then show ?thesis using that(2) by (simp add: uint_word_of_int_eq take_bit_int_eq_self)
  qed
  moreover have "2 ^ 64 * 10 ^ 9 \<le> later - earlier" if "\<not> (later - earlier) div 10 ^ 9 < 2 ^ 64"
    for later earlier :: int
    using that by (simp add: not_less pos_imp_zdiv_pos_iff le_div_geq)
  ultimately show ?thesis
    unfolding chrono_ok_def sample_chrono_def by (auto split: if_splits)
qed

theorem resolved_wait_before_deadline_witness:
  "resolve_temporal_target sample_chrono (After 5) 0 (10 ^ 10) = Inr (5 * 10 ^ 9)
   \<and> (5 * 10 ^ 9 :: int) < 10 ^ 10"
proof -
  have "resolve_temporal_target sample_chrono (After 5) 0 (10 ^ 10) = Inr (5 * 10 ^ 9)" by code_simp
  with resolved_wait_before_deadline [OF sample_chrono_ok this] show ?thesis by blast
qed

theorem temporal_target_admission_witness:
  "resolve_temporal_target_within_deadline sample_chrono (After 5) 0 (10 ^ 10)
     \<noteq> Inr (DeadlineExceeded (5 * 10 ^ 9) (10 ^ 10))"
proof -
  have "\<not> has_errors (validate_temporal_target sample_chrono (After 5) ''p'' 0 (10 ^ 10) [])" by code_simp
  with temporal_target_admission [OF sample_chrono_ok, of 0 "10 ^ 10" 0] show ?thesis by simp
qed

text \<open>
  The comment at the compiler's check says that it rejects only delays that can never be legal. The
  truncation of the horizon makes it reject a delay of ten seconds against a horizon of ten and a
  half, although the wait, entered at once, ends half a second before the deadline.
\<close>

lemma legal_delay_rejected:
  "has_errors (validate_temporal_target sample_chrono (After 10) ''p'' 0 (105 * 10 ^ 8) [])
   \<and> resolve_temporal_target_within_deadline sample_chrono (After 10) 0 (105 * 10 ^ 8) = Inr (Due (10 ^ 10))"
  by code_simp

end
