(* ===== verification/Plan_Estimate.thy ===== *)
theory Plan_Estimate
  imports Node_Pages Temporal
begin

text \<open>
  Worst-case resource estimates of nodes and plans (\<open>compiler/estimate.rs\<close>), the exact number of
  tasks of a hierarchical reduction, and the proof that what the compiler estimates for a node
  covers what the scheduler reserves for all of its tasks.
\<close>

section \<open>Catalog lookup\<close>

text \<open>The ordered map built from the catalog, latest entry first: a later entry replaces an earlier one.\<close>

type_synonym capability_map = "(string \<times> execution_capability) list"

definition capability_lookup :: "exec_lib \<Rightarrow> execution_capability_catalog \<Rightarrow> capability_map" where
  "capability_lookup lib catalog =
     rev (map (\<lambda>capability. (reference_sort_key lib (ec_reference capability), capability)) (cat_capabilities catalog))"

definition capability_estimate ::
  "exec_lib \<Rightarrow> capability_map \<Rightarrow> capability_reference \<Rightarrow> execution_estimate result" where
  "capability_estimate lib catalog reference =
     ok_or Err_InvalidProjection (map_option ec_estimate (map_of catalog (reference_sort_key lib reference)))"

section \<open>Estimates of agents, map tasks and reducers\<close>

definition agent_estimate :: "execution_config \<Rightarrow> u32 \<Rightarrow> execution_estimate result" where
  "agent_estimate config max_turns =
     estimate_multiply_resources
       \<lparr>est_cost_microusd = cfg_agent_turn_cost_microusd config, est_tokens = cfg_agent_turn_tokens config,
        est_tool_calls = cfg_agent_turn_tool_calls config,
        est_retrieved_bytes = cfg_agent_turn_retrieved_bytes config, est_tasks = 1\<rparr>
       (ucast max_turns) ''agent turn estimate''"

definition verifier_estimate :: "execution_config \<Rightarrow> u32 \<Rightarrow> execution_estimate result" where
  "verifier_estimate config max_turns =
     estimate_multiply_resources
       \<lparr>est_cost_microusd = cfg_verifier_turn_cost_microusd config, est_tokens = cfg_verifier_turn_tokens config,
        est_tool_calls = cfg_verifier_turn_tool_calls config,
        est_retrieved_bytes = cfg_verifier_turn_retrieved_bytes config, est_tasks = 1\<rparr>
       (ucast max_turns) ''verifier turn estimate''"

definition map_task_estimate ::
  "exec_lib \<Rightarrow> capability_map \<Rightarrow> execution_config \<Rightarrow> map_task \<Rightarrow> execution_estimate result" where
  "map_task_estimate lib catalog config task =
     (case task of
        Map_Capability reference \<Rightarrow> capability_estimate lib catalog reference
      | Map_Agent _ _ _ max_turns \<Rightarrow> agent_estimate config max_turns)"

definition reducer_estimate ::
  "exec_lib \<Rightarrow> capability_map \<Rightarrow> execution_config \<Rightarrow> execution_reducer \<Rightarrow> execution_estimate result" where
  "reducer_estimate lib catalog config reducer =
     (case reducer of
        Red_Capability reference \<Rightarrow> capability_estimate lib catalog reference
      | Red_Agent _ _ _ max_turns \<Rightarrow> agent_estimate config max_turns)"

section \<open>The number of reducer tasks\<close>

definition reduce_batches :: "u64 \<Rightarrow> u64 \<Rightarrow> u64" where
  "reduce_batches items batch_size =
     items div batch_size + (if items mod batch_size \<noteq> 0 then 1 else 0)"

lemma unat_reduce_batches:
  assumes "2 \<le> batch_size"
  shows "unat (reduce_batches items batch_size) = (unat items + unat batch_size - 1) div unat batch_size"
proof -
  have b: "2 \<le> unat batch_size" using assms by (simp add: word_le_nat_alt)
  have "unat items div unat batch_size \<le> unat items div 2" using b by (intro div_le_mono2) auto
  then have "unat items div unat batch_size + 1 < 2 ^ 64" using unat_bound [of items] by simp
  moreover have "(unat items + unat batch_size - 1) div unat batch_size
      = unat items div unat batch_size + (if unat items mod unat batch_size > 0 then 1 else 0)"
    using b by (intro ceil_div) simp
  moreover have "items mod batch_size \<noteq> 0 \<longleftrightarrow> unat items mod unat batch_size > 0"
    by (simp add: word_unat_eq_iff unat_mod)
  ultimately show ?thesis
    by (auto simp: reduce_batches_def unat_div unat_word_ariths)
qed

lemma ceil_less:
  fixes n b :: nat
  assumes "1 < n" and "2 \<le> b"
  shows "(n + b - 1) div b < n"
proof -
  have n: "n = (n - 2) + 2" and b: "b = (b - 2) + 2" using assms by simp_all
  have "n * b = (n - 2) * (b - 2) + 2 * (n - 2) + 2 * (b - 2) + 4"
    by (subst n, subst b) (simp add: algebra_simps)
  then have "n + b - 1 < n * b" using assms by linarith
  then show ?thesis using assms(2) by (simp add: less_mult_imp_div_less)
qed

text \<open>The guard on the batch size is the caller's; it is repeated for the loop to be total.\<close>

function reducer_task_loop :: "u64 \<Rightarrow> u64 \<Rightarrow> u64 \<Rightarrow> u64 result" where
  "reducer_task_loop tasks items batch_size =
     (if batch_size < 2 \<or> items \<le> 1 then Inr tasks
      else
        bind_res (ok_or (Err_ArithmeticOverflow ''reduce task count'')
                   (checked_add tasks (reduce_batches items batch_size))) (\<lambda>tasks'.
        reducer_task_loop tasks' (reduce_batches items batch_size) batch_size))"
  by pat_completeness auto
termination
proof (relation "measure (\<lambda>(tasks, items, batch_size). unat items)", goal_cases)
  case (2 tasks items batch_size tasks')
  then have "1 < unat items" "2 \<le> unat batch_size" "2 \<le> batch_size"
    by (auto simp: word_le_nat_alt word_less_nat_alt)
  then show ?case using ceil_less by (simp add: unat_reduce_batches)
qed simp

declare reducer_task_loop.simps [simp del]

definition reducer_task_count :: "u64 \<Rightarrow> u64 \<Rightarrow> u64 result" where
  "reducer_task_count items batch_size =
     (if batch_size < 2 then Inl Err_InvalidProjection else reducer_task_loop 0 items batch_size)"

section \<open>Node and plan estimates\<close>

definition node_estimate ::
  "exec_lib \<Rightarrow> capability_map \<Rightarrow> execution_config \<Rightarrow> execution_node \<Rightarrow> execution_estimate result" where
  "node_estimate lib catalog config node =
     (let attempts = ucast (rp_max_attempts (node_retry node)) in
      case node_operation node of
        Op_Capability reference \<Rightarrow>
          bind_res (capability_estimate lib catalog reference) (\<lambda>estimate.
          bind_res (estimate_multiply_resources estimate attempts ''capability retry estimate'') (\<lambda>forward.
          case node_compensation node of
            None \<Rightarrow> Inr forward
          | Some compensation \<Rightarrow>
              bind_res (capability_estimate lib catalog (comp_compensator compensation)) (\<lambda>estimate.
              bind_res (estimate_multiply_resources estimate attempts ''capability compensation retry estimate'') (\<lambda>compensation.
              estimate_add forward compensation ''capability compensation estimate''))))
      | Op_Agent _ _ _ max_turns \<Rightarrow>
          bind_res (agent_estimate config max_turns) (\<lambda>estimate.
          estimate_multiply_resources estimate attempts ''agent retry estimate'')
      | Op_Map _ _ max_items _ task \<Rightarrow>
          bind_res (map_task_estimate lib catalog config task) (\<lambda>estimate.
          bind_res (estimate_multiply_resources estimate attempts ''map retry estimate'') (\<lambda>estimate.
          estimate_multiply_all estimate max_items ''map cardinality estimate''))
      | Op_Reduce _ max_items reducer batch_size \<Rightarrow>
          bind_res (reducer_estimate lib catalog config reducer) (\<lambda>estimate.
          bind_res (reducer_task_count max_items (ucast batch_size)) (\<lambda>tasks.
          bind_res (estimate_multiply_resources estimate attempts ''reduce retry estimate'') (\<lambda>estimate.
          estimate_multiply_all estimate tasks ''reduce hierarchy estimate'')))
      | Op_Review _ _ \<Rightarrow> Inr (estimate_default\<lparr>est_tasks := 1\<rparr>)
      | Op_WaitSignal _ _ \<Rightarrow> Inr (estimate_default\<lparr>est_tasks := 1\<rparr>)
      | Op_WaitUntil _ _ \<Rightarrow> Inr (estimate_default\<lparr>est_tasks := 1\<rparr>)
      | Op_Output _ \<Rightarrow> Inr (estimate_default\<lparr>est_tasks := 1\<rparr>))"

definition estimate_node ::
  "exec_lib \<Rightarrow> capability_map \<Rightarrow> execution_config \<Rightarrow> nat \<times> execution_node \<Rightarrow> report
    \<Rightarrow> execution_estimate option \<times> report" where
  "estimate_node lib catalog config indexed r =
     (case node_estimate lib catalog config (snd indexed) of
        Inr estimate \<Rightarrow> (Some estimate, r)
      | Inl _ \<Rightarrow> (None, append_error ''estimate_failed'' (index_path ''plan.nodes'' (fst indexed) @ ''.operation'') r))"

text \<open>Adding to the running total, which stays as it is when the sum overflows.\<close>

definition add_to_total ::
  "string \<Rightarrow> string \<Rightarrow> execution_estimate result \<Rightarrow> execution_estimate \<times> report \<Rightarrow> execution_estimate \<times> report" where
  "add_to_total ctxt path estimate state =
     (case bind_res estimate (\<lambda>e. estimate_add (fst state) e ctxt) of
        Inr next_total \<Rightarrow> (next_total, snd state)
      | Inl _ \<Rightarrow> (fst state, append_error ''estimate_overflow'' path (snd state)))"

definition check_node_budget ::
  "execution_node \<Rightarrow> nat \<Rightarrow> execution_estimate \<Rightarrow> report \<Rightarrow> report" where
  "check_node_budget node index estimate r =
     (case node_budget node of
        None \<Rightarrow> r
      | Some limit \<Rightarrow>
          if is_ok (estimate_fits_limit estimate limit) then r
          else append_error ''node_budget_exceeded'' (index_path ''plan.nodes'' index @ ''.budget'') r)"

definition estimate_plan_node ::
  "exec_lib \<Rightarrow> capability_map \<Rightarrow> execution_config \<Rightarrow> nat \<times> execution_node
    \<Rightarrow> execution_estimate \<times> report \<Rightarrow> execution_estimate \<times> report" where
  "estimate_plan_node lib catalog config indexed state =
     (case estimate_node lib catalog config indexed (snd state) of
        (None, r) \<Rightarrow> (fst state, r)
      | (Some estimate, r) \<Rightarrow>
          add_to_total ''plan total estimate'' (index_path ''plan.nodes'' (fst indexed)) (Inr estimate)
            (fst state, check_node_budget (snd indexed) (fst indexed) estimate r))"

definition estimate_check ::
  "string \<Rightarrow> execution_config \<Rightarrow> nat \<times> completion_check
    \<Rightarrow> execution_estimate \<times> report \<Rightarrow> execution_estimate \<times> report" where
  "estimate_check ctxt config indexed state =
     (case chk_kind (snd indexed) of
        AgentVerifier _ max_turns \<Rightarrow>
          add_to_total ctxt (index_path ''goal.completion_checks'' (fst indexed)) (verifier_estimate config max_turns) state
      | _ \<Rightarrow> state)"

definition unless_errors :: "execution_estimate \<times> report \<Rightarrow> execution_estimate option \<times> report" where
  "unless_errors state = (if has_errors (snd state) then None else Some (fst state), snd state)"

definition estimate_plan ::
  "exec_lib \<Rightarrow> execution_goal_contract \<Rightarrow> execution_plan_definition \<Rightarrow> execution_capability_catalog
    \<Rightarrow> execution_config \<Rightarrow> report \<Rightarrow> execution_estimate option \<times> report" where
  "estimate_plan lib goal plan catalog config r =
     (let lookup = capability_lookup lib catalog;
          state = fold (estimate_plan_node lib lookup config) (enumerate 0 (plan_nodes plan)) (estimate_default, r)
      in unless_errors (fold (estimate_check ''verifier estimate'' config)
           (enumerate 0 (goal_completion_checks goal)) state))"

definition node_is_terminal :: "execution_amendment_projection \<Rightarrow> execution_node \<Rightarrow> bool" where
  "node_is_terminal projection node =
     (case map_of (ap_node_statuses projection) (node_id node) of
        None \<Rightarrow> False
      | Some status \<Rightarrow> status \<in> {Node_Completed, Node_Skipped, Node_Failed, Node_Cancelled})"

definition estimate_remaining_node ::
  "exec_lib \<Rightarrow> capability_map \<Rightarrow> execution_config \<Rightarrow> execution_amendment_projection \<Rightarrow> nat \<times> execution_node
    \<Rightarrow> execution_estimate \<times> report \<Rightarrow> execution_estimate \<times> report" where
  "estimate_remaining_node lib catalog config projection indexed state =
     (if node_is_terminal projection (snd indexed) then state
      else case estimate_node lib catalog config indexed (snd state) of
        (None, r) \<Rightarrow> (fst state, r)
      | (Some estimate, r) \<Rightarrow>
          add_to_total ''remaining plan estimate'' (index_path ''plan.nodes'' (fst indexed)) (Inr estimate) (fst state, r))"

definition estimate_remaining_plan ::
  "exec_lib \<Rightarrow> execution_goal_contract \<Rightarrow> execution_plan_definition \<Rightarrow> execution_amendment_projection
    \<Rightarrow> execution_capability_catalog \<Rightarrow> execution_config \<Rightarrow> report \<Rightarrow> execution_estimate option \<times> report" where
  "estimate_remaining_plan lib goal plan projection catalog config r =
     (let lookup = capability_lookup lib catalog;
          state = fold (estimate_remaining_node lib lookup config projection) (enumerate 0 (plan_nodes plan))
            (estimate_default, r)
      in unless_errors (fold (estimate_check ''remaining verifier estimate'' config)
           (enumerate 0 (goal_completion_checks goal)) state))"

section \<open>The hierarchy of a reduction\<close>

text \<open>The tasks of all rounds over \<open>n\<close> inputs: one per batch, until one result is left.\<close>

function hierarchy_tasks :: "nat \<Rightarrow> nat \<Rightarrow> nat" where
  "hierarchy_tasks width n =
     (if width < 2 \<or> n \<le> 1 then 0
      else (n + width - 1) div width + hierarchy_tasks width ((n + width - 1) div width))"
  by pat_completeness auto
termination
  by (relation "measure snd") (use ceil_less in \<open>simp_all add: not_le not_less\<close>)

declare hierarchy_tasks.simps [simp del]

lemma hierarchy_tasks_done [simp]: "n \<le> 1 \<Longrightarrow> hierarchy_tasks width n = 0"
  by (simp add: hierarchy_tasks.simps)

lemma hierarchy_tasks_step:
  "2 \<le> width \<Longrightarrow> 1 < n \<Longrightarrow> hierarchy_tasks width n =
     (n + width - 1) div width + hierarchy_tasks width ((n + width - 1) div width)"
  by (subst hierarchy_tasks.simps) simp

lemma ceil_half: "2 \<le> b \<Longrightarrow> n \<le> 2 ^ Suc k \<Longrightarrow> (n + b - 1) div b \<le> 2 ^ k" for n b :: nat
proof -
  assume b: "2 \<le> b" and n: "n \<le> 2 ^ Suc k"
  have "2 ^ k * 2 \<le> 2 ^ k * b" using b by (rule mult_le_mono2)
  with n have "n \<le> 2 ^ k * b" unfolding power_Suc mult.commute [of 2 "2 ^ k"] by (rule order_trans)
  then have "n + b - 1 < 2 ^ k * b + b" using b by linarith
  then have "n + b - 1 < (2 ^ k + 1) * b" by (simp add: algebra_simps)
  then show ?thesis using b by (simp add: div_less_iff_less_mult less_Suc_eq_le [symmetric])
qed

lemma hierarchy_tasks_bound: "2 \<le> width \<Longrightarrow> n \<le> 2 ^ k \<Longrightarrow> hierarchy_tasks width n < 2 ^ k"
proof (induction k arbitrary: n)
  case (Suc k)
  show ?case
  proof (cases "1 < n")
    case True
    let ?m = "(n + width - 1) div width"
    have "?m \<le> 2 ^ k" using Suc.prems by (rule ceil_half)
    moreover from this have "hierarchy_tasks width ?m < 2 ^ k" using Suc by blast
    ultimately show ?thesis using True Suc.prems(1) by (simp add: hierarchy_tasks_step)
  qed simp
qed simp

lemma hierarchy_tasks_mono: "n \<le> m \<Longrightarrow> hierarchy_tasks width n \<le> hierarchy_tasks width m"
proof (induction width m arbitrary: n rule: hierarchy_tasks.induct)
  case (1 width m)
  show ?case
  proof (cases "2 \<le> width \<and> 1 < n")
    case True
    have "(n + width - 1) div width \<le> (m + width - 1) div width" using 1(2) by (simp add: div_le_mono)
    with 1 True show ?thesis
      by (simp add: hierarchy_tasks_step add_mono)
  next
    case False
    then have "hierarchy_tasks width n = 0" by (auto simp: hierarchy_tasks.simps)
    then show ?thesis by simp
  qed
qed

lemma reducer_task_loop_exact:
  "2 \<le> batch_size \<Longrightarrow> unat tasks + hierarchy_tasks (unat batch_size) (unat items) < 2 ^ 64 \<Longrightarrow>
   reducer_task_loop tasks items batch_size
     = Inr (tasks + of_nat (hierarchy_tasks (unat batch_size) (unat items)))"
proof (induction tasks items batch_size rule: reducer_task_loop.induct)
  case (1 tasks items batch_size)
  have b: "2 \<le> unat batch_size" using 1(2) by (simp add: word_le_nat_alt)
  show ?case
  proof (cases "items \<le> 1")
    case True
    then have "unat items \<le> 1" by (simp add: word_le_nat_alt)
    with True show ?thesis by (simp add: reducer_task_loop.simps)
  next
    case False
    then have n: "1 < unat items" by (simp add: word_le_nat_alt)
    let ?m = "reduce_batches items batch_size"
    have step: "hierarchy_tasks (unat batch_size) (unat items) = unat ?m + hierarchy_tasks (unat batch_size) (unat ?m)"
      using hierarchy_tasks_step [OF b n] by (simp add: unat_reduce_batches [OF 1(2)])
    then have fits: "unat tasks + unat ?m < 2 ^ 64" using 1(3) by simp
    then have add: "checked_add tasks ?m = Some (tasks + ?m)" "unat (tasks + ?m) = unat tasks + unat ?m"
      by (simp_all add: checked_add_def unat_word_ariths)
    have "reducer_task_loop tasks items batch_size = reducer_task_loop (tasks + ?m) ?m batch_size"
      using False 1(2) by (subst reducer_task_loop.simps) (simp add: add linorder_not_le [symmetric])
    also have "\<dots> = Inr (tasks + ?m + of_nat (hierarchy_tasks (unat batch_size) (unat ?m)))"
      using "1.IH" [of "tasks + ?m"] False 1(2, 3) step add by (simp add: linorder_not_le)
    finally show ?thesis by (simp add: step)
  qed
qed

text \<open>C30: The reducer task count is exact and total: for a batch size of at least two it is the number of
  batches summed over all rounds of the hierarchy, the loop ends, and the sum fits 64 bits for every
  number of items, so the overflow branch is never taken; a smaller batch size is rejected.\<close>

theorem reducer_task_count_exact:
  "reducer_task_count items batch_size =
     (if batch_size < 2 then Inl Err_InvalidProjection
      else Inr (of_nat (hierarchy_tasks (unat batch_size) (unat items))))
   \<and> (if 2 \<le> batch_size then hierarchy_tasks (unat batch_size) (unat items) < 2 ^ 64 else True)"
proof (cases "2 \<le> batch_size")
  case True
  then have "2 \<le> unat batch_size" by (simp add: word_le_nat_alt)
  then have "hierarchy_tasks (unat batch_size) (unat items) < 2 ^ 64"
    by (rule hierarchy_tasks_bound) (use unat_bound [of items] in simp)
  with True show ?thesis
    using reducer_task_loop_exact [OF True, of 0 items] by (simp add: reducer_task_count_def not_less)
qed (simp add: reducer_task_count_def not_le)

lemma reducer_task_count_ok:
  assumes "reducer_task_count items batch_size = Inr n"
  shows "2 \<le> unat batch_size \<and> unat n = hierarchy_tasks (unat batch_size) (unat items)"
proof -
  have b: "2 \<le> batch_size" using assms by (auto simp: reducer_task_count_def not_less split: if_splits)
  then have w: "2 \<le> unat batch_size" by (simp add: word_le_nat_alt)
  have fits: "hierarchy_tasks (unat batch_size) (unat items) < 2 ^ 64"
    using w by (rule hierarchy_tasks_bound) (use unat_bound [of items] in simp)
  have "n = of_nat (hierarchy_tasks (unat batch_size) (unat items))"
    using assms reducer_task_loop_exact [OF b, of 0 items] fits b
    by (simp add: reducer_task_count_def not_less split: if_splits)
  with fits w show ?thesis by (simp add: unat_of_nat)
qed

section \<open>Estimates and reservations agree\<close>

text \<open>The compiler's map by canonical key and the scheduler's search by reference find the same entry.\<close>

lemma scheduler_catalog_sorted:
  "validate_catalog_entries lib prev cs = Inr () \<Longrightarrow>
     sorted_wrt (<) (map (\<lambda>c. reference_sort_key lib (ec_reference c)) cs)
     \<and> (\<forall>p. prev = Some p \<longrightarrow> (\<forall>c\<in>set cs. p < reference_sort_key lib (ec_reference c)))"
proof (induction cs arbitrary: prev)
  case (Cons c cs)
  let ?k = "reference_sort_key lib (ec_reference c)"
  from Cons.prems have "validate_catalog_entries lib (Some ?k) cs = Inr ()"
    and "\<forall>p. prev = Some p \<longrightarrow> p < ?k"
    by (auto simp: Let_def not_le split: if_splits option.splits)
  with Cons.IH [of "Some ?k"] show ?case by fastforce
qed simp

lemma map_of_keyed:
  "distinct (map f cs) \<Longrightarrow> inj g \<Longrightarrow> map_of (map (\<lambda>c. (g (f c), c)) cs) (g r) = find (\<lambda>c. f c = r) cs"
  by (induction cs) (auto simp: inj_eq)

lemma capability_estimate_find:
  assumes "json_text_ok (xl_serde lib)" and "validate_scheduler_catalog lib catalog = Inr ()"
  shows "capability_estimate lib (capability_lookup lib catalog) r =
     bind_res (find_capability catalog r) (\<lambda>c. Inr (ec_estimate c))"
proof -
  let ?keyed = "map (\<lambda>c. (reference_sort_key lib (ec_reference c), c)) (cat_capabilities catalog)"
  have sorted: "sorted_wrt (<) (map (\<lambda>c. reference_sort_key lib (ec_reference c)) (cat_capabilities catalog))"
    using scheduler_catalog_sorted assms(2) unfolding validate_scheduler_catalog_def by blast
  have "distinct (map fst ?keyed)" using strict_sorted_iff sorted by (auto simp: comp_def)
  then have "map_of (rev ?keyed) = map_of ?keyed" by (intro map_of_inject_set [THEN iffD2]) (simp_all add: rev_map [symmetric])
  moreover have "map_of ?keyed (reference_sort_key lib r) = find (\<lambda>c. ec_reference c = r) (cat_capabilities catalog)"
    by (rule map_of_keyed)
      (use strict_keys_distinct [of "reference_sort_key lib" ec_reference] sorted in
        \<open>simp_all add: inj_def reference_sort_key_inj [OF assms(1)]\<close>)
  ultimately show ?thesis
    by (cases "find (\<lambda>c. ec_reference c = r) (cat_capabilities catalog)")
      (simp_all add: capability_estimate_def capability_lookup_def find_capability_def)
qed

definition agrees :: "execution_estimate result \<Rightarrow> execution_estimate result \<Rightarrow> bool" where
  "agrees estimate reservation \<longleftrightarrow> (\<forall>e r. estimate = Inr e \<longrightarrow> reservation = Inr r \<longrightarrow> r = e)"

lemma multiply_resources_unique:
  "estimate_multiply_resources a f c = Inr r \<Longrightarrow> estimate_multiply_resources a f c' = Inr r' \<Longrightarrow> r' = r"
  unfolding estimate_multiply_resources_eq_Inr est_eq_iff by metis

lemma turn_reservation_agrees:
  "agrees (bind_res (agent_estimate config n) (\<lambda>e. estimate_multiply_resources e (ucast attempts) ctxt))
     (turn_reservation config n attempts False)"
proof -
  have "r = e" if "agent_estimate config n = Inr a" "estimate_multiply_resources a (ucast attempts) ctxt = Inr e"
    "turn_reservation config n attempts False = Inr r" for a e r
  proof -
    from that(3) obtain b where b: "estimate_multiply_resources b (ucast attempts) ''task retries'' = Inr r"
      and turns: "estimate_multiply_resources \<lparr>est_cost_microusd = cfg_agent_turn_cost_microusd config,
        est_tokens = cfg_agent_turn_tokens config, est_tool_calls = cfg_agent_turn_tool_calls config,
        est_retrieved_bytes = cfg_agent_turn_retrieved_bytes config, est_tasks = 1\<rparr> (ucast n) ''task turns'' = Inr b"
      unfolding turn_reservation_def Let_def bind_res_eq_Inr if_False by blast
    have "b = a" using that(1) turns unfolding agent_estimate_def by (rule multiply_resources_unique)
    with b that(2) show ?thesis by (metis multiply_resources_unique)
  qed
  then show ?thesis by (auto simp: agrees_def bind_res_eq_Inr)
qed

lemma capability_reservation_agrees:
  assumes "json_text_ok (xl_serde lib)" and "validate_scheduler_catalog lib (sq_catalog request) = Inr ()"
  shows "agrees (bind_res (capability_estimate lib (capability_lookup lib (sq_catalog request)) reference)
        (\<lambda>e. estimate_multiply_resources e (ucast attempts) ctxt))
     (capability_reservation request reference attempts)"
  unfolding capability_estimate_find [OF assms] agrees_def capability_reservation_def bind_res_eq_Inr
  by (auto dest: multiply_resources_unique)

section \<open>The estimate of a node covers its tasks\<close>

text \<open>
  All rounds of a reduction: the pages of a round are committed, every task of the round delivers one
  result, and the results are the inputs of the next round, until one is left.
\<close>

inductive reduce_rounds ::
  "exec_lib \<Rightarrow> uuid_lib \<Rightarrow> schedule_request \<Rightarrow> execution_node \<Rightarrow> (string \<times> json) list \<Rightarrow> json \<Rightarrow> u64
    \<Rightarrow> execution_reducer \<Rightarrow> u32 \<Rightarrow> u32 \<Rightarrow> u64 \<Rightarrow> json list \<Rightarrow> logical_task list \<Rightarrow> bool"
  for lib ulib request node outputs items max_items reducer width limit where
  rounds_done: "length xs = 1 \<Longrightarrow>
    reduce_rounds lib ulib request node outputs items max_items reducer width limit round xs []"
| rounds_next: "1 < length xs \<Longrightarrow> reduce_admissible request node outputs items round width xs \<Longrightarrow>
    paging_run (\<lambda>c. materialize_reduce_page lib ulib request node outputs items max_items reducer width limit
      (reduce_input round xs width limit c)) 0 ts \<Longrightarrow>
    length ys = length ts \<Longrightarrow>
    reduce_rounds lib ulib request node outputs items max_items reducer width limit (round + 1) ys rest \<Longrightarrow>
    reduce_rounds lib ulib request node outputs items max_items reducer width limit round xs (ts @ rest)"

text \<open>All tasks that the scheduler materializes for a node over the life of a run.\<close>

inductive node_run ::
  "exec_lib \<Rightarrow> uuid_lib \<Rightarrow> schedule_request \<Rightarrow> execution_node \<Rightarrow> (string \<times> json) list \<Rightarrow> u32
    \<Rightarrow> logical_task list \<Rightarrow> bool"
  for lib ulib request node outputs limit where
  run_single: "materialize_single_task lib ulib request node outputs = Inr ts \<Longrightarrow>
    node_run lib ulib request node outputs limit ts"
| run_map: "node_operation node = Op_Map items pointer max_items schema task \<Longrightarrow>
    paging_run (\<lambda>c. materialize_map_page lib ulib request node outputs items pointer max_items task c limit) 0 ts \<Longrightarrow>
    node_run lib ulib request node outputs limit ts"
| run_reduce: "node_operation node = Op_Reduce items max_items reducer width \<Longrightarrow> length xs \<le> unat max_items \<Longrightarrow>
    reduce_rounds lib ulib request node outputs items max_items reducer width limit 1 xs ts \<Longrightarrow>
    node_run lib ulib request node outputs limit ts"

definition reserved_by :: "logical_task list \<Rightarrow> dim \<Rightarrow> nat" where
  "reserved_by ts d = sum_list (map (\<lambda>t. est_at (lt_reservation t) d) ts)"

lemma reserved_by_append [simp]: "reserved_by (ts @ us) d = reserved_by ts d + reserved_by us d"
  by (simp add: reserved_by_def)

lemma reserved_by_same:
  "(\<And>t. t \<in> set ts \<Longrightarrow> lt_reservation t = e) \<Longrightarrow> reserved_by ts d = length ts * est_at e d"
  by (induction ts) (auto simp: reserved_by_def)

lemma map_res_members:
  "map_res f xs = Inr ys \<Longrightarrow> y \<in> set ys \<Longrightarrow> \<exists>x\<in>set xs. f x = Inr y"
  by (induction xs arbitrary: ys) (auto simp: bind_res_eq_Inr)

lemma map_step_reservation:
  "map_step lib ulib request node outputs task pointer item = Inr t \<Longrightarrow>
     map_task_reservation request task (rp_max_attempts (node_retry node)) = Inr (lt_reservation t)"
  by (auto simp: map_step_def map_item_task_def Let_def bind_res_eq_Inr dest: logical_task_of_ok(4))

lemma reduce_task_reservation:
  "reduce_task_at lib ulib request node reducer round width xs i = Inr t \<Longrightarrow>
     reducer_reservation request reducer (rp_max_attempts (node_retry node)) = Inr (lt_reservation t)"
  by (auto simp: reduce_task_at_def reduce_batch_task_def Let_def bind_res_eq_Inr dest: logical_task_of_ok(4))

lemma single_task_reservation:
  "materialize_single_task lib ulib request node outputs = Inr ts \<Longrightarrow> ts = [] \<or>
     (\<exists>t. ts = [t] \<and> operation_reservation request (node_operation node) (rp_max_attempts (node_retry node))
        = Inr (lt_reservation t))"
  by (auto simp: materialize_single_task_def Let_def bind_res_eq_Inr dest: logical_task_of_ok(4) split: if_splits)

lemma map_run_tasks:
  assumes "paging_run (\<lambda>c. materialize_map_page lib ulib request node outputs items pointer max_items task c limit) 0 ts"
  shows "length ts \<le> unat max_items
    \<and> (\<forall>t\<in>set ts. map_task_reservation request task (rp_max_attempts (node_retry node)) = Inr (lt_reservation t))"
proof -
  let ?vs = "map_values request node outputs items"
  have ts: "map_res (\<lambda>i. map_step lib ulib request node outputs task pointer (?vs ! i)) [0..<length ?vs] = Inr ts"
    using map_pager.run_covers [OF _ assms] by auto
  obtain p where "materialize_map_page lib ulib request node outputs items pointer max_items task 0 limit = Inr p"
    using paging_run_first [OF assms] by blast
  then have "length ?vs \<le> unat max_items"
    unfolding materialize_map_page_eq by (auto simp: map_values_def word_le_nat_alt)
  with ts map_res_length [OF ts] map_res_members [OF ts] show ?thesis
    by (auto dest: map_step_reservation)
qed

lemma reduce_rounds_tasks:
  assumes "2 \<le> unat width"
  shows "reduce_rounds lib ulib request node outputs items max_items reducer width limit round xs ts \<Longrightarrow>
    length ts = hierarchy_tasks (unat width) (length xs)
    \<and> (\<forall>t\<in>set ts. reducer_reservation request reducer (rp_max_attempts (node_retry node)) = Inr (lt_reservation t))"
proof (induction rule: reduce_rounds.induct)
  case (rounds_next xs round ts ys rest)
  have ts: "map_res (reduce_task_at lib ulib request node reducer round width xs)
      [0..<length (chunks (unat width) xs)] = Inr ts"
    by (rule reduce_pager.run_covers [OF _ rounds_next(3), simplified])
      (use rounds_next(1, 2) assms in \<open>auto simp: chunks_eq_Nil\<close>)
  then have len: "length ts = (length xs + unat width - 1) div unat width"
    using map_res_length [OF ts] assms by (simp add: length_chunks)
  moreover have "\<forall>t\<in>set ts. reducer_reservation request reducer (rp_max_attempts (node_retry node)) = Inr (lt_reservation t)"
    using map_res_members [OF ts] by (auto dest: reduce_task_reservation)
  ultimately show ?case
    using rounds_next.IH rounds_next(4) hierarchy_tasks_step [OF assms rounds_next(1)] by auto
qed simp

lemma agreesD: "agrees a b \<Longrightarrow> a = Inr e \<Longrightarrow> b = Inr r \<Longrightarrow> r = e"
  by (simp add: agrees_def)

lemma map_task_agrees:
  assumes "json_text_ok (xl_serde lib)" and "validate_scheduler_catalog lib (sq_catalog request) = Inr ()"
  shows "agrees (bind_res (map_task_estimate lib (capability_lookup lib (sq_catalog request)) (sq_config request) task)
      (\<lambda>e. estimate_multiply_resources e (ucast attempts) ctxt)) (map_task_reservation request task attempts)"
  using capability_reservation_agrees [OF assms] turn_reservation_agrees
  by (cases task) (simp_all add: map_task_estimate_def map_task_reservation_def)

lemma reducer_agrees:
  assumes "json_text_ok (xl_serde lib)" and "validate_scheduler_catalog lib (sq_catalog request) = Inr ()"
  shows "agrees (bind_res (reducer_estimate lib (capability_lookup lib (sq_catalog request)) (sq_config request) reducer)
      (\<lambda>e. estimate_multiply_resources e (ucast attempts) ctxt)) (reducer_reservation request reducer attempts)"
  using capability_reservation_agrees [OF assms] turn_reservation_agrees
  by (cases reducer) (simp_all add: reducer_estimate_def reducer_reservation_def)

lemma single_estimate_covers:
  assumes "json_text_ok (xl_serde lib)" and "validate_scheduler_catalog lib (sq_catalog request) = Inr ()"
    and "node_estimate lib (capability_lookup lib (sq_catalog request)) (sq_config request) node = Inr e"
    and "operation_reservation request (node_operation node) (rp_max_attempts (node_retry node)) = Inr r"
  shows "est_at r d \<le> est_at e d"
proof (cases "node_operation node")
  case (Op_Capability reference)
  from assms(3) Op_Capability obtain a f where
    a: "capability_estimate lib (capability_lookup lib (sq_catalog request)) reference = Inr a"
      "estimate_multiply_resources a (ucast (rp_max_attempts (node_retry node))) ''capability retry estimate'' = Inr f"
    and e: "est_at f d \<le> est_at e d"
    by (fastforce simp: node_estimate_def Let_def bind_res_eq_Inr estimate_add_eq_Inr split: option.splits)
  have "r = f"
    using agreesD [OF capability_reservation_agrees [OF assms(1, 2)]] a assms(4) Op_Capability
    by (fastforce simp: operation_reservation_def bind_res_eq_Inr)
  with e show ?thesis by simp
next
  case (Op_Agent i s c n)
  then have "r = e"
    using agreesD [OF turn_reservation_agrees] assms(3, 4)
    by (simp add: node_estimate_def operation_reservation_def Let_def)
  then show ?thesis by simp
qed (use assms(3, 4) in \<open>auto simp: node_estimate_def operation_reservation_def Let_def\<close>)

lemma node_estimate_covers:
  assumes "json_text_ok (xl_serde lib)" and "validate_scheduler_catalog lib (sq_catalog request) = Inr ()"
    and "node_estimate lib (capability_lookup lib (sq_catalog request)) (sq_config request) node = Inr e"
    and "node_run lib ulib request node outputs limit ts"
  shows "reserved_by ts d \<le> est_at e d"
  using assms(4)
proof cases
  case run_single
  then show ?thesis
    using single_task_reservation single_estimate_covers [OF assms(1-3)] by (fastforce simp: reserved_by_def)
next
  case (run_map items pointer max_items schema task)
  note ts = map_run_tasks [OF run_map(2)]
  from assms(3) run_map(1) obtain a where a:
    "bind_res (map_task_estimate lib (capability_lookup lib (sq_catalog request)) (sq_config request) task)
       (\<lambda>e. estimate_multiply_resources e (ucast (rp_max_attempts (node_retry node))) ''map retry estimate'') = Inr a"
    "estimate_multiply_all a max_items ''map cardinality estimate'' = Inr e"
    by (fastforce simp: node_estimate_def Let_def bind_res_eq_Inr)
  have "reserved_by ts d = length ts * est_at a d"
    by (rule reserved_by_same) (use agreesD [OF map_task_agrees [OF assms(1, 2)] a(1)] ts in blast)
  with ts a(2) show ?thesis by (simp add: estimate_multiply_all_eq_Inr mult.commute)
next
  case (run_reduce items max_items reducer width xs)
  from assms(3) run_reduce(1) obtain a n where a:
    "bind_res (reducer_estimate lib (capability_lookup lib (sq_catalog request)) (sq_config request) reducer)
       (\<lambda>e. estimate_multiply_resources e (ucast (rp_max_attempts (node_retry node))) ''reduce retry estimate'') = Inr a"
    "reducer_task_count max_items (ucast width) = Inr n" "estimate_multiply_all a n ''reduce hierarchy estimate'' = Inr e"
    by (fastforce simp: node_estimate_def Let_def bind_res_eq_Inr)
  have n: "2 \<le> unat width" "unat n = hierarchy_tasks (unat width) (unat max_items)"
    using reducer_task_count_ok [OF a(2)] by simp_all
  note ts = reduce_rounds_tasks [OF n(1) run_reduce(3)]
  have "reserved_by ts d = length ts * est_at a d"
    by (rule reserved_by_same) (use agreesD [OF reducer_agrees [OF assms(1, 2)] a(1)] ts in blast)
  moreover have "length ts \<le> unat n" using ts n(2) hierarchy_tasks_mono [OF run_reduce(2)] by simp
  ultimately show ?thesis using a(3) by (simp add: estimate_multiply_all_eq_Inr mult.commute)
qed

section \<open>The estimate of a plan covers a whole run\<close>

definition weight :: "execution_estimate result \<Rightarrow> dim \<Rightarrow> nat" where
  "weight estimate d = (case estimate of Inr e \<Rightarrow> est_at e d | Inl _ \<Rightarrow> 0)"

definition check_weight :: "(u32 \<Rightarrow> execution_estimate result) \<Rightarrow> completion_check \<Rightarrow> dim \<Rightarrow> nat" where
  "check_weight price check d = (case chk_kind check of AgentVerifier _ n \<Rightarrow> weight (price n) d | _ \<Rightarrow> 0)"

text \<open>One step of the summation: without errors afterwards it was free of errors and added its weight.\<close>

definition sums ::
  "('a \<Rightarrow> dim \<Rightarrow> nat) \<Rightarrow> ('a \<Rightarrow> bool) \<Rightarrow> ('a \<Rightarrow> execution_estimate \<times> report \<Rightarrow> execution_estimate \<times> report) \<Rightarrow> bool" where
  "sums w ok step \<longleftrightarrow> (\<forall>x s. \<not> has_errors (snd (step x s)) \<longrightarrow>
     \<not> has_errors (snd s) \<and> ok x \<and> (\<forall>d. est_at (fst (step x s)) d = est_at (fst s) d + w x d))"

lemma fold_sums:
  "sums w ok step \<Longrightarrow> \<not> has_errors (snd (fold step xs s)) \<Longrightarrow>
     \<not> has_errors (snd s) \<and> list_all ok xs \<and> (\<forall>d. est_at (fst (fold step xs s)) d = est_at (fst s) d + sum_list (map (\<lambda>x. w x d) xs))"
proof (induction xs arbitrary: s)
  case (Cons x xs)
  have IH: "\<not> has_errors (snd (step x s))" "list_all ok xs"
    "est_at (fst (fold step (x # xs) s)) d = est_at (fst (step x s)) d + sum_list (map (\<lambda>x. w x d) xs)" for d
    using Cons.IH [OF Cons.prems(1), of "step x s"] Cons.prems(2) by simp_all
  moreover have "\<not> has_errors (snd s)" "ok x" "est_at (fst (step x s)) d = est_at (fst s) d + w x d" for d
    using Cons.prems(1) IH(1) unfolding sums_def by blast+
  ultimately show ?case by simp
qed simp

lemma append_error_errors [simp]: "has_errors (append_error code path r)"
  by (simp add: append_error_def)

lemma add_to_total_sums:
  "\<not> has_errors (snd (add_to_total ctxt path estimate s)) \<Longrightarrow>
     \<not> has_errors (snd s) \<and> is_ok estimate
     \<and> (\<forall>d. est_at (fst (add_to_total ctxt path estimate s)) d = est_at (fst s) d + weight estimate d)"
proof (cases estimate)
  case (Inr e)
  assume "\<not> has_errors (snd (add_to_total ctxt path estimate s))"
  then obtain r where "estimate_add (fst s) e ctxt = Inr r" "\<not> has_errors (snd s)"
    by (cases "estimate_add (fst s) e ctxt") (auto simp: add_to_total_def Inr)
  then show ?thesis
    using estimate_add_eq_Inr [of "fst s" e ctxt r] by (simp add: add_to_total_def weight_def Inr)
qed (simp add: add_to_total_def)

lemma check_node_budget_errors:
  "\<not> has_errors (check_node_budget node i e r) \<Longrightarrow> \<not> has_errors r"
  by (auto simp: check_node_budget_def split: option.splits if_splits)

lemma estimate_plan_node_sums:
  "sums (\<lambda>x d. weight (node_estimate lib catalog config (snd x)) d)
     (\<lambda>x. is_ok (node_estimate lib catalog config (snd x))) (estimate_plan_node lib catalog config)"
  unfolding sums_def estimate_plan_node_def estimate_node_def
  by (auto simp: weight_def dest!: add_to_total_sums check_node_budget_errors split: sum.splits)

lemma estimate_remaining_node_sums:
  "sums (\<lambda>x d. if node_is_terminal projection (snd x) then 0 else weight (node_estimate lib catalog config (snd x)) d)
     (\<lambda>x. node_is_terminal projection (snd x) \<or> is_ok (node_estimate lib catalog config (snd x)))
     (estimate_remaining_node lib catalog config projection)"
  unfolding sums_def estimate_remaining_node_def estimate_node_def
  by (auto simp: weight_def dest!: add_to_total_sums split: sum.splits)

lemma estimate_check_sums:
  "sums (\<lambda>x d. check_weight (verifier_estimate config) (snd x) d) (\<lambda>_. True) (estimate_check ctxt config)"
  unfolding sums_def estimate_check_def check_weight_def
  by (auto dest!: add_to_total_sums split: completion_check_kind.splits)

lemma sum_enumerate: "sum_list (map (\<lambda>x. f (snd x)) (enumerate i xs)) = sum_list (map f xs)"
  by (metis map_map comp_def map_snd_enumerate map_cong)

lemma estimate_plan_sum:
  assumes "estimate_plan lib goal plan catalog config r = (Some e, r')"
  shows "list_all (\<lambda>n. is_ok (node_estimate lib (capability_lookup lib catalog) config n)) (plan_nodes plan)
    \<and> est_at e d = sum_list (map (\<lambda>n. weight (node_estimate lib (capability_lookup lib catalog) config n) d) (plan_nodes plan))
      + sum_list (map (\<lambda>c. check_weight (verifier_estimate config) c d) (goal_completion_checks goal))"
proof -
  define s where "s = fold (estimate_plan_node lib (capability_lookup lib catalog) config)
    (enumerate 0 (plan_nodes plan)) (estimate_default, r)"
  define t where "t = fold (estimate_check ''verifier estimate'' config) (enumerate 0 (goal_completion_checks goal)) s"
  have t: "\<not> has_errors (snd t)" "e = fst t"
    using assms by (auto simp: estimate_plan_def unless_errors_def Let_def s_def t_def split: if_splits)
  from fold_sums [OF estimate_check_sums t(1) [unfolded t_def]]
  have ok: "\<not> has_errors (snd s)" and te: "est_at (fst t) d = est_at (fst s) d
      + sum_list (map (\<lambda>c. check_weight (verifier_estimate config) c d) (goal_completion_checks goal))"
    by (simp_all add: t_def sum_enumerate [of "\<lambda>c. check_weight (verifier_estimate config) c d"])
  have nodes: "set (plan_nodes plan) = snd ` set (enumerate 0 (plan_nodes plan))"
    by (metis list.set_map map_snd_enumerate)
  from fold_sums [OF estimate_plan_node_sums ok [unfolded s_def]] te t(2) show ?thesis
    by (simp add: s_def list_all_iff nodes sum_enumerate [of "\<lambda>n. weight (node_estimate lib (capability_lookup lib catalog) config n) d"])
qed

lemma verifier_weight: "weight (verifier_turn_reservation config n) d \<le> weight (verifier_estimate config n) d"
proof (cases "verifier_turn_reservation config n")
  case (Inr v)
  then obtain a where a: "estimate_multiply_resources \<lparr>est_cost_microusd = cfg_verifier_turn_cost_microusd config,
        est_tokens = cfg_verifier_turn_tokens config, est_tool_calls = cfg_verifier_turn_tool_calls config,
        est_retrieved_bytes = cfg_verifier_turn_retrieved_bytes config, est_tasks = 1\<rparr> (ucast n) ''task turns'' = Inr a"
    and v: "estimate_multiply_resources a (ucast (1 :: u32)) ''task retries'' = Inr v"
    unfolding verifier_turn_reservation_def turn_reservation_def Let_def bind_res_eq_Inr if_True by blast
  from v have "v = a" unfolding estimate_multiply_resources_eq_Inr est_eq_iff by simp
  with a have "verifier_estimate config n = Inr v"
    unfolding verifier_estimate_def estimate_multiply_resources_eq_Inr by blast
  with Inr show ?thesis by simp
qed (simp add: weight_def)

lemma sum_list_pointwise:
  "list_all2 (\<lambda>x y. f y \<le> g x) xs ys \<Longrightarrow> sum_list (map f ys) \<le> (sum_list (map g xs) :: nat)"
  by (induction rule: list_all2_induct) auto

lemma reserved_by_concat: "reserved_by (concat tss) d = sum_list (map (\<lambda>ts. reserved_by ts d) tss)"
  by (induction tss) (simp_all add: reserved_by_def)

text \<open>C31: The approved budget covers the run. When the compiler estimates a plan and the estimate fits a
  budget, then the reservations of all tasks that the scheduler ever materializes, single tasks, map
  items and every round of every reduction, together with the turns of the verifiers, stay within the
  estimate and within the budget in each dimension, whatever the inputs, the branches and the page
  sizes are.\<close>

theorem plan_estimate_covers_run:
  assumes "json_text_ok (xl_serde lib)" and "validate_scheduler_catalog lib catalog = Inr ()"
    and "estimate_plan lib goal plan catalog config r = (Some e, r')"
    and "estimate_fits_limit e budget = Inr ()"
    and "list_all2 (\<lambda>node ts. \<exists>request outputs limit. sq_catalog request = catalog \<and> sq_config request = config
           \<and> node_run lib ulib request node outputs limit ts) (plan_nodes plan) tss"
  shows "reserved_by (concat tss) d
      + sum_list (map (\<lambda>c. check_weight (verifier_turn_reservation config) c d) (goal_completion_checks goal)) \<le> est_at e d
    \<and> dim_fits (reserved_by (concat tss) d
      + sum_list (map (\<lambda>c. check_weight (verifier_turn_reservation config) c d) (goal_completion_checks goal))) (limit_at budget d)"
proof -
  let ?w = "\<lambda>n. weight (node_estimate lib (capability_lookup lib catalog) config n) d"
  have ok: "list_all (\<lambda>n. is_ok (node_estimate lib (capability_lookup lib catalog) config n)) (plan_nodes plan)"
    and e: "est_at e d = sum_list (map ?w (plan_nodes plan))
      + sum_list (map (\<lambda>c. check_weight (verifier_estimate config) c d) (goal_completion_checks goal))"
    using estimate_plan_sum [OF assms(3), of d] by blast+
  have "list_all2 (\<lambda>n ts. reserved_by ts d \<le> ?w n) (plan_nodes plan) tss"
  proof (rule list_all2_all_nthI)
    show "length (plan_nodes plan) = length tss" using assms(5) by (rule list_all2_lengthD)
    fix i assume i: "i < length (plan_nodes plan)"
    let ?n = "plan_nodes plan ! i"
    obtain request outputs limit where run: "sq_catalog request = catalog" "sq_config request = config"
      "node_run lib ulib request ?n outputs limit (tss ! i)"
      using list_all2_nthD [OF assms(5) i] by blast
    obtain a where a: "node_estimate lib (capability_lookup lib catalog) config ?n = Inr a"
      using ok i by (auto simp: list_all_length is_ok_iff)
    show "reserved_by (tss ! i) d \<le> ?w ?n"
      using node_estimate_covers [OF assms(1), of request ?n a] run a assms(2) by (simp add: weight_def)
  qed
  then have "reserved_by (concat tss) d \<le> sum_list (map ?w (plan_nodes plan))"
    unfolding reserved_by_concat by (rule sum_list_pointwise)
  moreover have "sum_list (map (\<lambda>c. check_weight (verifier_turn_reservation config) c d) (goal_completion_checks goal))
      \<le> sum_list (map (\<lambda>c. check_weight (verifier_estimate config) c d) (goal_completion_checks goal))"
    by (intro sum_list_mono) (auto simp: check_weight_def verifier_weight split: completion_check_kind.splits)
  moreover have "dim_fits (est_at e d) (limit_at budget d)" using assms(4) by (simp add: estimate_fits_limit_ok)
  ultimately show ?thesis unfolding e by (auto simp: dim_fits_def split: option.splits)
qed

section \<open>A concrete run\<close>

lemma sample_catalog_valid: "validate_scheduler_catalog sample_exec_lib sample_catalog = Inr ()"
  by code_simp

theorem plan_estimate_covers_run_witness:
  "\<exists>ts us. ts \<noteq> [] \<and> us \<noteq> [] \<and> reserved_by (concat [ts, us]) Tasks \<le> 2"
proof -
  let ?run = "\<lambda>n. materialize_single_task sample_exec_lib sample_uuid_lib (sample_schedule sample_plan) n []"
  have ok: "case map_res ?run (plan_nodes sample_plan) of Inr [ts, us] \<Rightarrow> ts \<noteq> [] \<and> us \<noteq> [] | _ \<Rightarrow> False"
    by code_simp
  then obtain ts us where tss: "map_res ?run (plan_nodes sample_plan) = Inr [ts, us]" "ts \<noteq> []" "us \<noteq> []"
    by (auto split: sum.splits list.splits)
  have est: "estimate_plan sample_exec_lib sample_goal sample_plan sample_catalog execution_config_default []
      = (Some (estimate_default\<lparr>est_tasks := 2\<rparr>), [])"
    by code_simp
  have run: "sq_catalog (sample_schedule sample_plan) = sample_catalog"
    "sq_config (sample_schedule sample_plan) = execution_config_default"
    by (simp_all add: sample_schedule_def)
  have "list_all2 (\<lambda>node ts. \<exists>request outputs limit. sq_catalog request = sample_catalog
      \<and> sq_config request = execution_config_default
      \<and> node_run sample_exec_lib sample_uuid_lib request node outputs limit ts) (plan_nodes sample_plan) [ts, us]"
    using tss(1) unfolding map_res_eq_Inr
    by (rule list_all2_mono) (use run run_single in blast)
  from plan_estimate_covers_run [OF _ sample_catalog_valid est _ this,
      of "\<lparr>max_cost_microusd = None, max_tokens = None, max_tasks = Some 2, max_tool_calls = None,
        max_retrieved_bytes = None, deadline_at = None\<rparr>" Tasks]
  have "reserved_by (concat [ts, us]) Tasks \<le> 2"
    by (simp add: sample_lib_ok estimate_fits_limit_ok all_dim dim_fits_def)
  with tss(2, 3) show ?thesis by blast
qed

end
