(* ===== verification/Compensation.thy ===== *)
theory Compensation
  imports Schema
begin

text \<open>
  Compensation inputs (\<open>moa-execution/src/interpreter/compensation.rs\<close>): an object built from the
  persisted input and output of a forward task through JSON Pointers, and the conditions under
  which it can be built at all.
\<close>

section \<open>Targets\<close>

fun decode_pointer_segment :: "string \<Rightarrow> string \<Rightarrow> string result" where
  "decode_pointer_segment [] pointer = Inr []"
| "decode_pointer_segment (c # cs) pointer =
     (if c \<noteq> CHR ''~'' then bind_res (decode_pointer_segment cs pointer) (\<lambda>d. Inr (c # d))
      else case cs of
        [] \<Rightarrow> Inl (Err_Binding pointer)
      | e # es \<Rightarrow>
          if e = CHR ''0'' then bind_res (decode_pointer_segment es pointer) (\<lambda>d. Inr (CHR ''~'' # d))
          else if e = CHR ''1'' then bind_res (decode_pointer_segment es pointer) (\<lambda>d. Inr (CHR ''/'' # d))
          else Inl (Err_Binding pointer))"

definition decode_target_pointer :: "string \<Rightarrow> string list result" where
  "decode_target_pointer pointer =
     bind_res (ok_or (Err_Binding pointer)
         (case strip_prefix ''/'' pointer of None \<Rightarrow> None | Some value \<Rightarrow> if value = [] then None else Some value)) (\<lambda>encoded.
     map_res (\<lambda>segment. decode_pointer_segment segment pointer) (split_char CHR ''/'' encoded))"

definition is_prefix :: "string list \<Rightarrow> string list \<Rightarrow> bool" where
  "is_prefix left right = (length left < length right \<and> take (length left) right = left)"

fun decode_targets :: "string list list \<Rightarrow> compensation_input_binding list \<Rightarrow> string list list result" where
  "decode_targets decoded [] = Inr decoded"
| "decode_targets decoded (binding # bindings) =
     bind_res (decode_target_pointer (cib_target_pointer binding)) (\<lambda>segments.
     if segments \<in> set decoded
        \<or> (\<exists>existing\<in>set decoded. is_prefix existing segments \<or> is_prefix segments existing)
     then Inl Err_InvalidProjection
     else decode_targets (decoded @ [segments]) bindings)"

section \<open>Insertion\<close>

fun insert_target :: "json \<Rightarrow> string list \<Rightarrow> json \<Rightarrow> string \<Rightarrow> json result" where
  "insert_target root [] value pointer = Inl (Err_Binding pointer)"
| "insert_target root [leaf] value pointer =
     bind_res (ok_or (Err_Binding pointer) (as_object root)) (\<lambda>obj.
     if obj_contains obj leaf then Inl (Err_Binding pointer)
     else Inr (JObject (obj_insert obj leaf value)))"
| "insert_target root (segment # rest) value pointer =
     bind_res (ok_or (Err_Binding pointer) (as_object root)) (\<lambda>obj.
     let child = (case obj_get obj segment of None \<Rightarrow> JObject [] | Some c \<Rightarrow> c) in
     bind_res (insert_target child rest value pointer) (\<lambda>c.
     Inr (JObject (obj_insert obj segment c))))"

fun source_value :: "exec_lib \<Rightarrow> json \<Rightarrow> json \<Rightarrow> compensation_value_source \<Rightarrow> json result" where
  "source_value lib forward_input forward_output (OriginalInput pointer) =
     ok_or (Err_Binding pointer) (json_pointer (xl_serde lib) forward_input pointer)"
| "source_value lib forward_input forward_output (OriginalOutput pointer) =
     ok_or (Err_Binding pointer) (json_pointer (xl_serde lib) forward_output pointer)"

fun insert_bindings ::
  "exec_lib \<Rightarrow> json \<Rightarrow> json \<Rightarrow> json \<Rightarrow> (compensation_input_binding \<times> string list) list \<Rightarrow> json result" where
  "insert_bindings lib forward_input forward_output mapped [] = Inr mapped"
| "insert_bindings lib forward_input forward_output mapped ((binding, segments) # rest) =
     bind_res (source_value lib forward_input forward_output (cib_source binding)) (\<lambda>value.
     bind_res (insert_target mapped segments value (cib_target_pointer binding)) (\<lambda>mapped.
     insert_bindings lib forward_input forward_output mapped rest))"

text \<open>The object before its validation, and the validated input.\<close>

definition map_compensation_input ::
  "exec_lib \<Rightarrow> compensation_input_mapping \<Rightarrow> json \<Rightarrow> json \<Rightarrow> json result" where
  "map_compensation_input lib bindings forward_input forward_output =
     bind_res (decode_targets [] bindings) (\<lambda>targets.
     insert_bindings lib forward_input forward_output (JObject []) (zip bindings targets))"

definition resolve_compensation_input ::
  "exec_lib \<Rightarrow> compensation_input_mapping \<Rightarrow> json \<Rightarrow> json \<Rightarrow> json \<Rightarrow> json result" where
  "resolve_compensation_input lib bindings forward_input forward_output compensator_input_schema =
     bind_res (map_compensation_input lib bindings forward_input forward_output) (\<lambda>mapped.
     bind_res (validate_instance lib compensator_input_schema mapped ''execution_compensation.mapped_input'') (\<lambda>_.
     Inr mapped))"

section \<open>Lookup along a path\<close>

fun json_lookup :: "json \<Rightarrow> string list \<Rightarrow> json option" where
  "json_lookup v [] = Some v"
| "json_lookup v (s # ss) =
     (case as_object v of None \<Rightarrow> None | Some obj \<Rightarrow>
        (case obj_get obj s of None \<Rightarrow> None | Some w \<Rightarrow> json_lookup w ss))"

text \<open>A path along which a new value can be inserted without replacing anything.\<close>

fun free_path :: "json \<Rightarrow> string list \<Rightarrow> bool" where
  "free_path v [] = False"
| "free_path v (s # ss) =
     (case as_object v of None \<Rightarrow> False | Some obj \<Rightarrow>
        (case obj_get obj s of None \<Rightarrow> True | Some w \<Rightarrow> free_path w ss))"

definition incomparable :: "string list \<Rightarrow> string list \<Rightarrow> bool" where
  "incomparable p q \<longleftrightarrow> p \<noteq> q \<and> \<not> is_prefix p q \<and> \<not> is_prefix q p"

lemma obj_get_insert: "obj_get (obj_insert obj k v) k' = (if k' = k then Some v else obj_get obj k')"
  by (induction obj) (auto simp: obj_get_def)

lemma as_object_eq: "as_object v = Some obj \<longleftrightarrow> v = JObject obj"
  by (cases v) auto

lemma obj_contains_get: "obj_contains obj k \<longleftrightarrow> obj_get obj k \<noteq> None"
  by (simp add: obj_contains_def obj_get_def map_of_eq_None_iff)

lemma free_empty: "p \<noteq> [] \<Longrightarrow> free_path (JObject []) p"
  by (cases p) (auto simp: obj_get_def)

lemma incomparable_Cons:
  "incomparable (s # p) (t # q) \<longleftrightarrow> s \<noteq> t \<or> incomparable p q"
  by (auto simp: incomparable_def is_prefix_def)

lemma incomparable_Nil: "\<not> incomparable [] q" "\<not> incomparable p []"
  by (auto simp: incomparable_def is_prefix_def)

lemma incomparableE:
  assumes "incomparable (s # p) q"
  obtains t q' where "q = t # q'" and "s \<noteq> t \<or> incomparable p q'"
  using assms by (cases q) (auto simp: incomparable_Cons incomparable_Nil)

text \<open>Writing a child leaves every other entry of an object alone.\<close>

lemma lookup_obj_insert:
  "json_lookup (JObject (obj_insert obj s c)) (t # q) = (if t = s then json_lookup c q else json_lookup (JObject obj) (t # q))"
  "free_path (JObject (obj_insert obj s c)) (t # q) = (if t = s then free_path c q else free_path (JObject obj) (t # q))"
  by (simp_all add: obj_get_insert)

lemma insert_target_ok:
  "free_path root p \<Longrightarrow> \<exists>root'. insert_target root p v ptr = Inr root' \<and> json_lookup root' p = Some v
     \<and> (\<forall>q. incomparable p q \<longrightarrow>
           json_lookup root' q = json_lookup root q \<and> (free_path root q \<longrightarrow> free_path root' q))"
proof (induction root p v ptr rule: insert_target.induct)
  case (2 root leaf v ptr)
  then obtain obj where obj: "root = JObject obj" "obj_get obj leaf = None"
    by (auto simp: as_object_eq split: option.splits)
  have "json_lookup (JObject (obj_insert obj leaf v)) q = json_lookup root q
      \<and> (free_path root q \<longrightarrow> free_path (JObject (obj_insert obj leaf v)) q)" if "incomparable [leaf] q" for q
    using that by (rule incomparableE) (auto simp: obj(1) obj_get_insert incomparable_Nil)
  then show ?case by (auto simp: obj obj_contains_get obj_get_insert)
next
  case (3 root s t p v ptr)
  then obtain obj where obj: "root = JObject obj" by (auto simp: as_object_eq split: option.splits)
  let ?child = "case obj_get obj s of None \<Rightarrow> JObject [] | Some c \<Rightarrow> c"
  have "free_path ?child (t # p)"
    using 3(2) by (auto simp: obj free_empty simp del: free_path.simps(2) split: option.splits)
      (simp_all add: obj split: option.splits)
  with 3(1) [of obj ?child] obj obtain c where c: "insert_target ?child (t # p) v ptr = Inr c"
    "json_lookup c (t # p) = Some v"
    "\<forall>q. incomparable (t # p) q \<longrightarrow> json_lookup c q = json_lookup ?child q \<and> (free_path ?child q \<longrightarrow> free_path c q)"
    by auto
  have "json_lookup (JObject (obj_insert obj s c)) q = json_lookup root q
      \<and> (free_path root q \<longrightarrow> free_path (JObject (obj_insert obj s c)) q)" if "incomparable (s # t # p) q" for q
    using that
  proof (rule incomparableE)
    fix u q' assume q: "q = u # q'" and inc: "s \<noteq> u \<or> incomparable (t # p) q'"
    show ?thesis
    proof (cases "u = s")
      case True
      with inc have inc: "incomparable (t # p) q'" by simp
      then have "q' \<noteq> []" using incomparable_Nil by blast
      then have "json_lookup (JObject []) q' = None" by (cases q') (auto simp: obj_get_def)
      with c(3) inc free_empty [OF \<open>q' \<noteq> []\<close>] show ?thesis
        by (auto simp: q True obj obj_get_insert split: option.splits)
    qed (simp add: q obj obj_get_insert)
  qed
  with c show ?case by (auto simp: obj Let_def lookup_obj_insert simp del: json_lookup.simps(2))
qed simp

section \<open>Correctness\<close>

abbreviation decode_binding :: "compensation_input_binding \<Rightarrow> string list result" where
  "decode_binding b \<equiv> decode_target_pointer (cib_target_pointer b)"

lemma decode_targets_eq:
  "decode_targets decoded bs = Inr ts \<longleftrightarrow>
     (\<exists>new. map_res decode_binding bs = Inr new \<and> ts = decoded @ new
        \<and> sorted_wrt incomparable new \<and> (\<forall>d\<in>set decoded. \<forall>n\<in>set new. incomparable d n))"
proof (induction bs arbitrary: decoded)
  case (Cons b bs)
  show ?case
  proof (cases "decode_binding b")
    case (Inr segs)
    then show ?thesis
      by (auto simp: Cons.IH bind_res_eq_Inr incomparable_def)
  qed simp
qed auto

lemma decode_target_nonempty: "decode_target_pointer p = Inr segs \<Longrightarrow> segs \<noteq> []"
  by (auto simp: decode_target_pointer_def bind_res_eq_Inr dest!: map_res_length)

lemma insert_bindings_sources:
  "insert_bindings lib fi fo root (zip bs ts) = Inr mapped \<Longrightarrow> length bs = length ts \<Longrightarrow>
     \<forall>b\<in>set bs. is_ok (source_value lib fi fo (cib_source b))"
  by (induction bs ts arbitrary: root rule: list_induct2') (auto simp: bind_res_eq_Inr is_ok_iff)

lemma insert_bindings_ok:
  "length bs = length ts \<Longrightarrow> sorted_wrt incomparable ts \<Longrightarrow> \<forall>t\<in>set ts. free_path root t \<Longrightarrow>
   \<forall>b\<in>set bs. is_ok (source_value lib fi fo (cib_source b)) \<Longrightarrow>
   \<exists>mapped. insert_bindings lib fi fo root (zip bs ts) = Inr mapped
     \<and> list_all2 (\<lambda>b t. \<exists>v. source_value lib fi fo (cib_source b) = Inr v \<and> json_lookup mapped t = Some v) bs ts
     \<and> (\<forall>q. (\<forall>t\<in>set ts. incomparable t q) \<longrightarrow> json_lookup mapped q = json_lookup root q)"
proof (induction bs ts arbitrary: root rule: list_induct2)
  case (Cons b bs t ts)
  from Cons.prems(3) obtain v where v: "source_value lib fi fo (cib_source b) = Inr v"
    by (auto simp: is_ok_iff)
  from Cons.prems(2) have "free_path root t" by simp
  from insert_target_ok [OF this, of v "cib_target_pointer b"] obtain root'
    where r: "insert_target root t v (cib_target_pointer b) = Inr root'" "json_lookup root' t = Some v"
      "\<forall>q. incomparable t q \<longrightarrow> json_lookup root' q = json_lookup root q \<and> (free_path root q \<longrightarrow> free_path root' q)"
    by blast
  have "\<forall>u\<in>set ts. free_path root' u" using Cons.prems(1, 2) r(3) by auto
  with Cons.IH [of root'] Cons.prems obtain mapped
    where m: "insert_bindings lib fi fo root' (zip bs ts) = Inr mapped"
      "list_all2 (\<lambda>b t. \<exists>v. source_value lib fi fo (cib_source b) = Inr v \<and> json_lookup mapped t = Some v) bs ts"
      "\<forall>q. (\<forall>t\<in>set ts. incomparable t q) \<longrightarrow> json_lookup mapped q = json_lookup root' q"
    by auto
  have "\<forall>u\<in>set ts. incomparable u t" using Cons.prems(1) by (auto simp: incomparable_def)
  with m(3) r(2) have "json_lookup mapped t = Some v" by simp
  with m r v show ?case by auto
qed simp

lemma compensation_input_built:
  assumes "map_res decode_binding bs = Inr targets"
  shows "((\<exists>mapped. map_compensation_input lib bs fi fo = Inr mapped) \<longleftrightarrow>
      sorted_wrt incomparable targets \<and> (\<forall>b\<in>set bs. is_ok (source_value lib fi fo (cib_source b))))
    \<and> (\<forall>mapped. map_compensation_input lib bs fi fo = Inr mapped \<longrightarrow>
        list_all2 (\<lambda>b t. \<exists>v. source_value lib fi fo (cib_source b) = Inr v \<and> json_lookup mapped t = Some v)
          bs targets)"
proof -
  have len: "length bs = length targets" using map_res_length [OF assms] by simp
  have free: "\<forall>t\<in>set targets. free_path (JObject []) t"
    using assms unfolding map_res_eq_Inr
    by (auto simp: list_all2_conv_all_nth in_set_conv_nth intro!: free_empty dest!: decode_target_nonempty)
  have eq: "map_compensation_input lib bs fi fo = Inr mapped \<longleftrightarrow> sorted_wrt incomparable targets
      \<and> insert_bindings lib fi fo (JObject []) (zip bs targets) = Inr mapped" for mapped
    using assms by (auto simp: map_compensation_input_def bind_res_eq_Inr decode_targets_eq)
  show ?thesis
    unfolding eq using insert_bindings_ok [OF len _ free, of lib fi fo]
      insert_bindings_sources [OF _ len, of lib fi fo "JObject []"] by fastforce
qed

text \<open>C24: A compensation input is exactly what its mapping says. When the targets decode, the object can be
  built if and only if no target equals or extends another and every source pointer resolves in the
  persisted forward values, so the insertion itself never fails; and in the built object each
  target holds its source value.\<close>

theorem compensation_input_exact:
  assumes "map_res decode_binding bs = Inr targets"
  shows "((\<exists>mapped. map_compensation_input lib bs fi fo = Inr mapped) \<longleftrightarrow>
      sorted_wrt incomparable targets \<and> (\<forall>b\<in>set bs. is_ok (source_value lib fi fo (cib_source b))))
    \<and> (\<forall>mapped. map_compensation_input lib bs fi fo = Inr mapped \<longrightarrow>
        list_all2 (\<lambda>b t. \<exists>v. source_value lib fi fo (cib_source b) = Inr v \<and> json_lookup mapped t = Some v)
          bs targets)"
  by (rule compensation_input_built [OF assms])

theorem compensation_input_exact_witness:
  "\<exists>mapped. map_compensation_input
       \<lparr>xl_serde = sample_lib, xl_blake3 = (\<lambda>_. []), xl_capabilities_json = (\<lambda>_. None), xl_plan_json = (\<lambda>_. None),
        xl_amendment_json = (\<lambda>_. None), xl_operations_json = (\<lambda>_. None), xl_schema_builds = (\<lambda>_. True),
        xl_schema_first_error = (\<lambda>_ _. None)\<rparr>
       [\<lparr>cib_target_pointer = ''/a/b'', cib_source = OriginalInput []\<rparr>,
        \<lparr>cib_target_pointer = ''/a/c'', cib_source = OriginalOutput []\<rparr>] JNull (JBool True) = Inr mapped"
proof -
  let ?bs = "[\<lparr>cib_target_pointer = ''/a/b'', cib_source = OriginalInput []\<rparr>,
        \<lparr>cib_target_pointer = ''/a/c'', cib_source = OriginalOutput []\<rparr>]"
  have "map_res decode_binding ?bs = Inr [[''a'', ''b''], [''a'', ''c'']]" by code_simp
  note exact = compensation_input_exact [OF this]
  show ?thesis
    by (rule iffD2 [OF conjunct1 [OF exact]]) (simp add: incomparable_def is_prefix_def sample_lib_def)
qed

end
