(* ===== verification/Wait_Feasibility.thy ===== *)
theory Wait_Feasibility
  imports Temporal Catalog_Laws
begin

text \<open>
  Declared waits along the plan graph (\<open>compiler/validation/wait_feasibility.rs\<close>): the relaxation
  of wait offsets in topological order, the rejection of plans whose longest chain of waits does
  not fit the remaining horizon, and the proof that the relaxed offsets are the longest chains.
\<close>

section \<open>Offsets\<close>

record wait_offset =
  wo_finish_seconds :: u64
  wo_predecessor :: "string option"

type_synonym wait_offsets = "(string \<times> wait_offset) list"

definition is_settled :: "execution_amendment_projection option \<Rightarrow> string \<Rightarrow> bool" where
  "is_settled projection nid =
     (case projection of None \<Rightarrow> False | Some p \<Rightarrow>
        (case map_of (ap_node_statuses p) nid of None \<Rightarrow> False | Some status \<Rightarrow>
           status \<in> {Node_Completed, Node_Skipped, Node_Failed, Node_Cancelled}))"

definition declared_wait :: "execution_node \<Rightarrow> execution_temporal_target option" where
  "declared_wait node =
     (case node_operation node of
        Op_WaitUntil wake _ \<Rightarrow> Some wake
      | Op_Review _ wait_policy \<Rightarrow> Some (wp_expiry wait_policy)
      | Op_WaitSignal _ wait_policy \<Rightarrow> Some (wp_expiry wait_policy)
      | _ \<Rightarrow> None)"

text \<open>The fold over the dependencies: the latest finish and the first dependency that attains it.\<close>

definition start_step :: "wait_offsets \<Rightarrow> string \<Rightarrow> u64 \<times> string option \<Rightarrow> u64 \<times> string option" where
  "start_step offsets dependency acc =
     (case map_of offsets dependency of
        None \<Rightarrow> acc
      | Some offset \<Rightarrow>
          if fst acc < wo_finish_seconds offset \<or> snd acc = None
          then (wo_finish_seconds offset, Some dependency) else acc)"

definition own_finish ::
  "chrono_lib \<Rightarrow> execution_amendment_projection option \<Rightarrow> datetime \<Rightarrow> execution_node \<Rightarrow> u64 \<Rightarrow> u64" where
  "own_finish ch projection now node start_seconds =
     (case (if is_settled projection (node_id node) then None else declared_wait node) of
        Some (After delay_seconds) \<Rightarrow> saturating_add start_seconds delay_seconds
      | Some (At at) \<Rightarrow>
          max start_seconds (case ch_seconds_until ch at now of None \<Rightarrow> 0 | Some s \<Rightarrow> s)
      | None \<Rightarrow> start_seconds)"

definition node_offset ::
  "chrono_lib \<Rightarrow> execution_amendment_projection option \<Rightarrow> datetime \<Rightarrow> wait_offsets \<Rightarrow> execution_node \<Rightarrow> wait_offset" where
  "node_offset ch projection now offsets node =
     (let (start_seconds, predecessor) = fold (start_step offsets) (node_depends_on node) (0, None) in
      \<lparr>wo_finish_seconds = own_finish ch projection now node start_seconds, wo_predecessor = predecessor\<rparr>)"

section \<open>Relaxation\<close>

definition node_ready :: "string list \<Rightarrow> wait_offsets \<Rightarrow> execution_node \<Rightarrow> bool" where
  "node_ready node_ids offsets node =
     (\<forall>d\<in>set (node_depends_on node). d \<notin> set node_ids \<or> map_of offsets d \<noteq> None)"

text \<open>One sweep over the pending nodes: the offsets, whether a node was placed, the deferred nodes.\<close>

fun sweep ::
  "chrono_lib \<Rightarrow> execution_amendment_projection option \<Rightarrow> datetime \<Rightarrow> string list \<Rightarrow> wait_offsets
    \<Rightarrow> execution_node list \<Rightarrow> wait_offsets \<times> bool \<times> execution_node list" where
  "sweep ch projection now node_ids offsets [] = (offsets, False, [])"
| "sweep ch projection now node_ids offsets (node # nodes) =
     (if \<not> node_ready node_ids offsets node then
        (let (offsets', progressed, deferred) = sweep ch projection now node_ids offsets nodes in
         (offsets', progressed, node # deferred))
      else
        (let (offsets', progressed, deferred) = sweep ch projection now node_ids
               ((node_id node, node_offset ch projection now offsets node) # offsets) nodes in
         (offsets', True, deferred)))"

lemma sweep_length:
  "sweep ch projection now ids offsets nodes = (offsets', progressed, deferred) \<Longrightarrow>
     length deferred \<le> length nodes \<and> (progressed \<longleftrightarrow> length deferred < length nodes)"
proof (induction nodes arbitrary: offsets offsets' progressed deferred)
  case (Cons node nodes)
  then show ?case by (fastforce split: if_splits prod.splits)
qed simp

function relax_loop ::
  "chrono_lib \<Rightarrow> execution_amendment_projection option \<Rightarrow> datetime \<Rightarrow> string list \<Rightarrow> wait_offsets
    \<Rightarrow> execution_node list \<Rightarrow> wait_offsets option" where
  "relax_loop ch projection now node_ids offsets pending =
     (if pending = [] then Some offsets
      else case sweep ch projection now node_ids offsets pending of
        (offsets', progressed, deferred) \<Rightarrow>
          if \<not> progressed then None else relax_loop ch projection now node_ids offsets' deferred)"
  by pat_completeness auto
termination
  by (relation "measure (\<lambda>(ch, projection, now, ids, offsets, pending). length pending)")
    (auto dest!: sweep_length [OF sym])

declare relax_loop.simps [simp del]

definition relax_declared_waits ::
  "chrono_lib \<Rightarrow> execution_plan_definition \<Rightarrow> execution_amendment_projection option \<Rightarrow> datetime
    \<Rightarrow> wait_offsets option" where
  "relax_declared_waits ch plan projection now =
     relax_loop ch projection now (map node_id (plan_nodes plan)) [] (plan_nodes plan)"

section \<open>The check\<close>

text \<open>The candidate with the greatest pair of finish and declared wait, the earliest on a tie.\<close>

definition critical_key :: "u64 \<Rightarrow> execution_node \<Rightarrow> u64 \<times> bool" where
  "critical_key finish node = (finish, declared_wait node \<noteq> None)"

definition key_greater :: "u64 \<times> bool \<Rightarrow> u64 \<times> bool \<Rightarrow> bool" where
  "key_greater a b = (fst b < fst a \<or> fst a = fst b \<and> snd a \<and> \<not> snd b)"

definition critical_step ::
  "wait_offsets \<Rightarrow> nat \<times> execution_node \<Rightarrow> (nat \<times> execution_node \<times> u64) option
    \<Rightarrow> (nat \<times> execution_node \<times> u64) option" where
  "critical_step offsets indexed critical =
     (case map_of offsets (node_id (snd indexed)) of
        None \<Rightarrow> critical
      | Some offset \<Rightarrow>
          let key = critical_key (wo_finish_seconds offset) (snd indexed) in
          if (case critical of None \<Rightarrow> True | Some (_, best, seconds) \<Rightarrow> key_greater key (critical_key seconds best))
          then Some (fst indexed, snd indexed, wo_finish_seconds offset) else critical)"

definition validate_declared_wait_feasibility ::
  "chrono_lib \<Rightarrow> execution_plan_definition \<Rightarrow> execution_amendment_projection option \<Rightarrow> datetime option
    \<Rightarrow> datetime \<Rightarrow> report \<Rightarrow> report" where
  "validate_declared_wait_feasibility ch plan projection deadline_opt now r =
     (case deadline_opt of None \<Rightarrow> r | Some deadline \<Rightarrow>
        (case ch_seconds_until ch deadline now of None \<Rightarrow> r | Some remaining_seconds \<Rightarrow>
           (case relax_declared_waits ch plan projection now of None \<Rightarrow> r | Some offsets \<Rightarrow>
              (case fold (critical_step offsets) (enumerate 0 (plan_nodes plan)) None of
                 None \<Rightarrow> r
               | Some (index, node, finish_seconds) \<Rightarrow>
                   if remaining_seconds \<le> finish_seconds
                   then report_error ''declared_waits_exceed_deadline'' (index_path ''plan.nodes'' index) r
                   else r))))"

section \<open>The relaxation reaches a fixpoint\<close>

text \<open>
  The states of the relaxation: the offsets together with the placed nodes, latest first. Each node
  is placed once, when the offsets of its dependencies are there.
\<close>

inductive relaxed ::
  "chrono_lib \<Rightarrow> execution_amendment_projection option \<Rightarrow> datetime \<Rightarrow> string list \<Rightarrow> wait_offsets
    \<Rightarrow> execution_node list \<Rightarrow> bool"
  for ch projection now ids where
  relaxed_start: "relaxed ch projection now ids [] []"
| relaxed_place: "relaxed ch projection now ids offsets placed \<Longrightarrow> node_ready ids offsets n \<Longrightarrow>
    node_id n \<in> set ids \<Longrightarrow> node_id n \<notin> node_id ` set placed \<Longrightarrow>
    relaxed ch projection now ids ((node_id n, node_offset ch projection now offsets n) # offsets) (n # placed)"

inductive_cases relaxed_ConsE: "relaxed ch projection now ids offsets (n # placed)"

lemma relaxed_keys: "relaxed ch projection now ids offsets placed \<Longrightarrow> map fst offsets = map node_id placed"
  by (induction rule: relaxed.induct) simp_all

lemma relaxed_dom:
  assumes "relaxed ch projection now ids offsets placed"
  shows "map_of offsets d = None \<longleftrightarrow> d \<notin> node_id ` set placed"
proof -
  have "fst ` set offsets = node_id ` set placed"
    using arg_cong [OF relaxed_keys [OF assms], of set] by simp
  then show ?thesis by (simp add: map_of_eq_None_iff)
qed

lemma fold_start_step_cong:
  "(\<And>d. d \<in> set ds \<Longrightarrow> map_of offsets d = map_of offsets' d) \<Longrightarrow>
   fold (start_step offsets) ds acc = fold (start_step offsets') ds acc"
  by (induction ds arbitrary: acc) (simp_all add: start_step_def)

lemma node_offset_extend:
  assumes "node_ready ids offsets n" and "i \<in> set ids" and "map_of offsets i = None"
  shows "node_offset ch projection now ((i, w) # offsets) n = node_offset ch projection now offsets n"
proof -
  have "fold (start_step ((i, w) # offsets)) (node_depends_on n) acc = fold (start_step offsets) (node_depends_on n) acc" for acc
    by (rule fold_start_step_cong) (use assms in \<open>auto simp: node_ready_def\<close>)
  then show ?thesis by (simp add: node_offset_def)
qed

lemma node_ready_extend: "node_ready ids offsets n \<Longrightarrow> node_ready ids (p # offsets) n"
  by (cases p) (auto simp: node_ready_def)

text \<open>Placing further nodes leaves the offset of a placed node the one its dependencies determine.\<close>

lemma relaxed_fixpoint:
  "relaxed ch projection now ids offsets placed \<Longrightarrow> n \<in> set placed \<Longrightarrow>
   node_ready ids offsets n \<and> map_of offsets (node_id n) = Some (node_offset ch projection now offsets n)"
proof (induction arbitrary: n rule: relaxed.induct)
  case (relaxed_place offsets placed m)
  have fresh: "map_of offsets (node_id m) = None"
    using relaxed_place(1, 4) by (simp add: relaxed_dom)
  note keep = node_offset_extend [OF _ relaxed_place(3) fresh] node_ready_extend
  show ?case
  proof (cases "n = m")
    case True
    then show ?thesis using keep relaxed_place(2) by simp
  next
    case False
    then have "n \<in> set placed" using relaxed_place(6) by simp
    moreover from this have "node_id n \<noteq> node_id m" using relaxed_place(4) by (metis imageI)
    ultimately show ?thesis using relaxed_place(5) keep by simp
  qed
qed simp

lemma sweep_relaxed:
  assumes "relaxed ch projection now ids offsets placed" and "node_id ` set nodes \<subseteq> set ids"
    and "distinct (map node_id (nodes @ placed))"
    and "sweep ch projection now ids offsets nodes = (offsets', progressed, deferred)"
  shows "\<exists>new. relaxed ch projection now ids offsets' (new @ placed) \<and> set nodes = set new \<union> set deferred
      \<and> distinct (map node_id (deferred @ new @ placed))"
  using assms
proof (induction nodes arbitrary: offsets placed offsets' progressed deferred)
  case Nil
  then show ?case by (intro exI [of _ "[]"]) simp
next
  case (Cons n nodes)
  show ?case
  proof (cases "node_ready ids offsets n")
    case True
    let ?o = "(node_id n, node_offset ch projection now offsets n) # offsets"
    obtain p where sw: "sweep ch projection now ids ?o nodes = (offsets', p, deferred)"
      using Cons.prems(4) True by (auto split: prod.splits)
    have "relaxed ch projection now ids ?o (n # placed)"
      by (rule relaxed_place) (use Cons.prems True in auto)
    from Cons.IH [OF this _ _ sw] Cons.prems obtain new where
      "relaxed ch projection now ids offsets' (new @ n # placed)" "set nodes = set new \<union> set deferred"
      "distinct (map node_id (deferred @ new @ n # placed))"
      by auto
    then show ?thesis by (intro exI [of _ "new @ [n]"]) auto
  next
    case False
    then obtain rest where sw: "sweep ch projection now ids offsets nodes = (offsets', progressed, rest)"
      and deferred: "deferred = n # rest"
      using Cons.prems(4) by (auto split: prod.splits)
    from Cons.IH [OF Cons.prems(1) _ _ sw] Cons.prems obtain new where new:
      "relaxed ch projection now ids offsets' (new @ placed)" "set nodes = set new \<union> set rest"
      "distinct (map node_id (rest @ new @ placed))"
      by auto
    moreover have "node_id n \<notin> node_id ` (set nodes \<union> set placed)" using Cons.prems(3) by auto
    ultimately show ?thesis unfolding deferred by (intro exI [of _ new]) auto
  qed
qed

lemma sweep_none:
  "sweep ch projection now ids offsets nodes = (offsets', False, deferred) \<Longrightarrow>
   offsets' = offsets \<and> (\<forall>n\<in>set nodes. \<not> node_ready ids offsets n)"
  by (induction nodes arbitrary: deferred) (auto split: if_splits prod.splits)

text \<open>
  A set of nodes is stuck when each of its nodes depends on a node of the set. A finite dependency
  graph has such a set exactly when it has a cycle.
\<close>

definition stuck_set :: "execution_node set \<Rightarrow> bool" where
  "stuck_set S \<longleftrightarrow> S \<noteq> {} \<and> (\<forall>n\<in>S. \<exists>m\<in>S. node_id m \<in> set (node_depends_on n))"

lemma unready_stuck:
  assumes "relaxed ch projection now ids offsets placed" and "set ids = node_id ` (set placed \<union> set pending)"
    and "pending \<noteq> []" and "\<forall>n\<in>set pending. \<not> node_ready ids offsets n"
  shows "stuck_set (set pending)"
proof -
  have "\<exists>m\<in>set pending. node_id m \<in> set (node_depends_on n)" if "n \<in> set pending" for n
  proof -
    have "\<not> node_ready ids offsets n" using assms(4) that by simp
    then obtain d where d: "d \<in> set (node_depends_on n)" "d \<in> set ids" "map_of offsets d = None"
      unfolding node_ready_def by blast
    then have "d \<notin> node_id ` set placed" using relaxed_dom [OF assms(1)] by simp
    with d(2) have "d \<in> node_id ` set pending" unfolding assms(2) image_Un by simp
    with d(1) show ?thesis by auto
  qed
  then show ?thesis using assms(3) by (simp add: stuck_set_def)
qed

lemma relax_loop_sound:
  assumes "relaxed ch projection now ids offsets placed" and "set ids = node_id ` (set placed \<union> set pending)"
    and "distinct (map node_id (pending @ placed))"
  shows "case relax_loop ch projection now ids offsets pending of
      Some final \<Rightarrow> \<exists>order. relaxed ch projection now ids final order \<and> set order = set placed \<union> set pending
    | None \<Rightarrow> \<exists>S\<subseteq>set pending. stuck_set S"
  using assms
proof (induction ch projection now ids offsets pending arbitrary: placed rule: relax_loop.induct)
  case (1 ch projection now ids offsets pending)
  obtain offsets' progressed deferred where sw:
    "sweep ch projection now ids offsets pending = (offsets', progressed, deferred)"
    by (cases "sweep ch projection now ids offsets pending")
  have "node_id ` set pending \<subseteq> set ids" unfolding 1(3) by blast
  from sweep_relaxed [OF 1(2) this 1(4) sw] obtain new where new:
    "relaxed ch projection now ids offsets' (new @ placed)" "set pending = set new \<union> set deferred"
    "distinct (map node_id (deferred @ new @ placed))"
    by blast
  consider "pending = []" | "pending \<noteq> []" "\<not> progressed" | "pending \<noteq> []" progressed by blast
  then show ?case
  proof cases
    case 1
    then show ?thesis using "1.prems"(1) by (auto simp: relax_loop.simps)
  next
    case 2
    have "stuck_set (set pending)"
      using unready_stuck [OF 1(2, 3) 2(1)] sweep_none [of ch projection now ids offsets pending] sw 2(2) by simp
    moreover have "relax_loop ch projection now ids offsets pending = None"
      using 2 sw by (subst relax_loop.simps) simp
    ultimately show ?thesis by (metis option.simps(4) order_refl)
  next
    case 3
    have step: "relax_loop ch projection now ids offsets pending = relax_loop ch projection now ids offsets' deferred"
      using 3 sw by (subst relax_loop.simps) simp
    have all: "set (new @ placed) \<union> set deferred = set placed \<union> set pending" using new(2) by auto
    have "case relax_loop ch projection now ids offsets' deferred of
        Some final \<Rightarrow> \<exists>order. relaxed ch projection now ids final order \<and> set order = set placed \<union> set pending
      | None \<Rightarrow> \<exists>S\<subseteq>set deferred. stuck_set S"
      using "1.IH" [OF 3(1) sw [symmetric] refl _ new(1) _ new(3)] 3(2) unfolding all 1(3) by simp
    then show ?thesis
      unfolding step using new(2) by (cases "relax_loop ch projection now ids offsets' deferred") auto
  qed
qed

lemma relaxed_avoids_stuck:
  "relaxed ch projection now ids offsets placed \<Longrightarrow> stuck_set S \<Longrightarrow> node_id ` S \<subseteq> set ids \<Longrightarrow>
   inj_on node_id (S \<union> set placed) \<Longrightarrow> S \<inter> set placed = {}"
proof (induction rule: relaxed.induct)
  case (relaxed_place offsets placed n)
  have IH: "S \<inter> set placed = {}"
    using relaxed_place(5) [OF relaxed_place(6, 7)] inj_on_subset [OF relaxed_place(8)] by auto
  have "n \<notin> S"
  proof
    assume "n \<in> S"
    then obtain m where m: "m \<in> S" "node_id m \<in> set (node_depends_on n)"
      using relaxed_place(6) unfolding stuck_set_def by blast
    then have "map_of offsets (node_id m) \<noteq> None"
      using relaxed_place(2, 7) unfolding node_ready_def by blast
    then obtain k where "k \<in> set placed" "node_id k = node_id m"
      using relaxed_dom [OF relaxed_place(1), of "node_id m"] by auto
    then show False using relaxed_place(8) m(1) IH by (auto simp: inj_on_def)
  qed
  with IH show ?case by simp
qed simp

section \<open>Offsets are longest chains\<close>

text \<open>A chain of dependencies, latest node first, and the time its declared waits take.\<close>

fun wait_chain :: "execution_node list \<Rightarrow> bool" where
  "wait_chain [] = False"
| "wait_chain [n] = True"
| "wait_chain (n # m # rest) = (node_id m \<in> set (node_depends_on n) \<and> wait_chain (m # rest))"

fun chain_finish ::
  "chrono_lib \<Rightarrow> execution_amendment_projection option \<Rightarrow> datetime \<Rightarrow> execution_node list \<Rightarrow> u64" where
  "chain_finish ch projection now [] = 0"
| "chain_finish ch projection now (n # rest) = own_finish ch projection now n (chain_finish ch projection now rest)"

lemma saturating_add_mono: "a \<le> b \<Longrightarrow> saturating_add a c \<le> saturating_add b (c :: 64 word)"
  by (simp add: word_le_nat_alt unat_saturating_add)

lemma own_finish_mono: "a \<le> b \<Longrightarrow> own_finish ch projection now n a \<le> own_finish ch projection now n b"
  by (auto simp: own_finish_def saturating_add_mono max.coboundedI1 max.coboundedI2
      split: option.splits execution_temporal_target.splits)

text \<open>The start time found so far dominates the dependencies seen and is attained by one of them.\<close>

definition start_inv :: "wait_offsets \<Rightarrow> string set \<Rightarrow> u64 \<times> string option \<Rightarrow> bool" where
  "start_inv offsets seen acc \<longleftrightarrow>
     (\<forall>d\<in>seen. \<forall>w. map_of offsets d = Some w \<longrightarrow> wo_finish_seconds w \<le> fst acc)
     \<and> (case snd acc of None \<Rightarrow> fst acc = 0
        | Some d \<Rightarrow> d \<in> seen \<and> (\<exists>w. map_of offsets d = Some w \<and> wo_finish_seconds w = fst acc))"

lemma start_step_inv:
  "start_inv offsets seen acc \<Longrightarrow> start_inv offsets (insert d seen) (start_step offsets d acc)"
  by (cases acc) (auto simp: start_inv_def start_step_def split: option.splits)

lemma fold_start_inv:
  "start_inv offsets seen acc \<Longrightarrow> start_inv offsets (seen \<union> set ds) (fold (start_step offsets) ds acc)"
proof (induction ds arbitrary: seen acc)
  case (Cons d ds)
  from Cons.IH [OF start_step_inv [OF Cons.prems, of d]] show ?case by simp
qed simp

lemma node_offset_start:
  obtains s p where "start_inv offsets (set (node_depends_on n)) (s, p)"
    and "wo_finish_seconds (node_offset ch projection now offsets n) = own_finish ch projection now n s"
    and "wo_predecessor (node_offset ch projection now offsets n) = p"
proof -
  have "start_inv offsets {} (0, None)" by (simp add: start_inv_def)
  from fold_start_inv [OF this, of "node_depends_on n"] show thesis
    by (intro that [of "fst (fold (start_step offsets) (node_depends_on n) (0, None))"])
      (simp_all add: node_offset_def split_beta)
qed

lemma chain_below_offset:
  assumes "relaxed ch projection now ids offsets placed"
  shows "wait_chain (n # rest) \<Longrightarrow> set (n # rest) \<subseteq> set placed \<Longrightarrow> map_of offsets (node_id n) = Some w \<Longrightarrow>
    chain_finish ch projection now (n # rest) \<le> wo_finish_seconds w"
proof (induction rest arbitrary: n w)
  case Nil
  then have w: "w = node_offset ch projection now offsets n"
    using relaxed_fixpoint [OF assms, of n] by simp
  obtain s p where "wo_finish_seconds w = own_finish ch projection now n s"
    unfolding w by (rule node_offset_start)
  then show ?case by (simp add: own_finish_mono)
next
  case (Cons m rest)
  have w: "w = node_offset ch projection now offsets n"
    using relaxed_fixpoint [OF assms, of n] Cons.prems by simp
  obtain s p where s: "start_inv offsets (set (node_depends_on n)) (s, p)"
    "wo_finish_seconds w = own_finish ch projection now n s"
    unfolding w by (rule node_offset_start)
  obtain v where v: "map_of offsets (node_id m) = Some v"
    using relaxed_fixpoint [OF assms, of m] Cons.prems(2) by auto
  have "chain_finish ch projection now (m # rest) \<le> wo_finish_seconds v"
    by (rule Cons.IH) (use Cons.prems v in auto)
  also have "\<dots> \<le> s" using s(1) v Cons.prems(1) by (auto simp: start_inv_def)
  finally show ?case using s(2) own_finish_mono by simp
qed

lemma offset_attained:
  "relaxed ch projection now ids offsets placed \<Longrightarrow> n \<in> set placed \<Longrightarrow>
   \<exists>rest. wait_chain (n # rest) \<and> set (n # rest) \<subseteq> set placed
     \<and> (\<exists>w. map_of offsets (node_id n) = Some w \<and> wo_finish_seconds w = chain_finish ch projection now (n # rest))"
proof (induction arbitrary: n rule: relaxed.induct)
  case (relaxed_place offsets placed k)
  show ?case
  proof (cases "n = k")
    case False
    then have n: "n \<in> set placed" using relaxed_place(6) by simp
    then have "node_id n \<noteq> node_id k" using relaxed_place(4) by (metis imageI)
    with relaxed_place(5) [OF n] show ?thesis by auto
  next
    case True
    obtain s p where s: "start_inv offsets (set (node_depends_on n)) (s, p)"
      "wo_finish_seconds (node_offset ch projection now offsets n) = own_finish ch projection now n s"
      by (rule node_offset_start)
    show ?thesis
    proof (cases p)
      case None
      with s True show ?thesis by (intro exI [of _ "[]"]) (simp add: start_inv_def)
    next
      case (Some d)
      with s(1) obtain v where v: "map_of offsets d = Some v" "wo_finish_seconds v = s" "d \<in> set (node_depends_on n)"
        by (auto simp: start_inv_def)
      then obtain m where m: "m \<in> set placed" "d = node_id m"
        using relaxed_dom [OF relaxed_place(1), of d] by auto
      from relaxed_place(5) [OF m(1)] v m(2) obtain rest where
        "wait_chain (m # rest)" "set (m # rest) \<subseteq> set placed" "s = chain_finish ch projection now (m # rest)"
        by auto
      with s(2) v(3) m(2) True show ?thesis by (intro exI [of _ "m # rest"]) auto
    qed
  qed
qed simp

section \<open>What the check decides\<close>

lemma relax_declared_waits_cases:
  assumes "distinct (map node_id (plan_nodes plan))"
  shows "case relax_declared_waits ch plan projection now of
      Some offsets \<Rightarrow> \<exists>order. relaxed ch projection now (map node_id (plan_nodes plan)) offsets order
        \<and> set order = set (plan_nodes plan)
    | None \<Rightarrow> \<exists>S\<subseteq>set (plan_nodes plan). stuck_set S"
  using relax_loop_sound [OF relaxed_start, of "map node_id (plan_nodes plan)" "plan_nodes plan" ch projection now] assms
  by (cases "relax_declared_waits ch plan projection now") (simp_all add: relax_declared_waits_def)

lemma relax_declared_waits_None:
  assumes "distinct (map node_id (plan_nodes plan))"
  shows "relax_declared_waits ch plan projection now = None \<longleftrightarrow> (\<exists>S\<subseteq>set (plan_nodes plan). stuck_set S)"
proof
  assume "\<exists>S\<subseteq>set (plan_nodes plan). stuck_set S"
  then obtain S where S: "S \<subseteq> set (plan_nodes plan)" "stuck_set S" by blast
  show "relax_declared_waits ch plan projection now = None"
  proof (rule ccontr)
    assume "relax_declared_waits ch plan projection now \<noteq> None"
    with relax_declared_waits_cases [OF assms, of ch projection now] obtain offsets order where
      order: "relaxed ch projection now (map node_id (plan_nodes plan)) offsets order" "set order = set (plan_nodes plan)"
      by auto
    have "inj_on node_id (S \<union> set order)"
      using assms S(1) unfolding order(2) distinct_map by (simp add: Un_absorb1)
    from relaxed_avoids_stuck [OF order(1) S(2) _ this] S order(2) show False
      by (auto simp: stuck_set_def)
  qed
qed (use relax_declared_waits_cases [OF assms, of ch projection now] in simp)

definition critical_inv ::
  "wait_offsets \<Rightarrow> (nat \<times> execution_node) set \<Rightarrow> (nat \<times> execution_node \<times> u64) option \<Rightarrow> bool" where
  "critical_inv offsets seen critical \<longleftrightarrow>
     (\<forall>(i, n)\<in>seen. \<forall>w. map_of offsets (node_id n) = Some w \<longrightarrow>
        (\<exists>j m f. critical = Some (j, m, f) \<and> wo_finish_seconds w \<le> f))
     \<and> (\<forall>j m f. critical = Some (j, m, f) \<longrightarrow> (j, m) \<in> seen
        \<and> (\<exists>w. map_of offsets (node_id m) = Some w \<and> wo_finish_seconds w = f))"

lemma critical_step_inv:
  "critical_inv offsets seen critical \<Longrightarrow> critical_inv offsets (insert p seen) (critical_step offsets p critical)"
  by (cases p; cases critical; cases "map_of offsets (node_id (snd p))")
    (fastforce simp: critical_inv_def critical_step_def critical_key_def key_greater_def Let_def)+

lemma fold_critical_inv:
  "critical_inv offsets seen critical \<Longrightarrow> critical_inv offsets (seen \<union> set ps) (fold (critical_step offsets) ps critical)"
proof (induction ps arbitrary: seen critical)
  case (Cons p ps)
  from Cons.IH [OF critical_step_inv [OF Cons.prems, of p]] show ?case by simp
qed simp

text \<open>C28: The relaxation of declared waits ends with an answer and is exact: for distinct node IDs it has no
  answer exactly when some set of nodes is cyclic, that is each of its nodes depends on another of
  the set; otherwise every node has an offset, and the offset of a node is the greatest time that
  the waits along a dependency chain ending in it take.\<close>

theorem relax_longest_chain:
  assumes "distinct (map node_id (plan_nodes plan))"
  shows "(relax_declared_waits ch plan projection now = None \<longleftrightarrow> (\<exists>S\<subseteq>set (plan_nodes plan). stuck_set S))
    \<and> (\<forall>offsets n. relax_declared_waits ch plan projection now = Some offsets \<longrightarrow> n \<in> set (plan_nodes plan) \<longrightarrow>
        (\<exists>w. map_of offsets (node_id n) = Some w
          \<and> (\<exists>rest. wait_chain (n # rest) \<and> set rest \<subseteq> set (plan_nodes plan)
               \<and> chain_finish ch projection now (n # rest) = wo_finish_seconds w)
          \<and> (\<forall>rest. wait_chain (n # rest) \<longrightarrow> set rest \<subseteq> set (plan_nodes plan) \<longrightarrow>
               chain_finish ch projection now (n # rest) \<le> wo_finish_seconds w)))"
proof (intro conjI allI impI)
  fix offsets n
  assume "relax_declared_waits ch plan projection now = Some offsets" and n: "n \<in> set (plan_nodes plan)"
  with relax_declared_waits_cases [OF assms, of ch projection now] obtain order where
    order: "relaxed ch projection now (map node_id (plan_nodes plan)) offsets order" "set order = set (plan_nodes plan)"
    by auto
  from offset_attained [OF order(1), of n] n chain_below_offset [OF order(1), of n]
  show "\<exists>w. map_of offsets (node_id n) = Some w
      \<and> (\<exists>rest. wait_chain (n # rest) \<and> set rest \<subseteq> set (plan_nodes plan)
           \<and> chain_finish ch projection now (n # rest) = wo_finish_seconds w)
      \<and> (\<forall>rest. wait_chain (n # rest) \<longrightarrow> set rest \<subseteq> set (plan_nodes plan) \<longrightarrow>
           chain_finish ch projection now (n # rest) \<le> wo_finish_seconds w)"
    unfolding order(2) by fastforce
qed (rule relax_declared_waits_None [OF assms])

lemma critical_maximum:
  assumes "fold (critical_step offsets) (enumerate 0 nodes) None = critical"
  shows "(critical = None \<longrightarrow> (\<forall>n\<in>set nodes. map_of offsets (node_id n) = None))
    \<and> (\<forall>i n f. critical = Some (i, n, f) \<longrightarrow> i < length nodes \<and> nodes ! i = n
        \<and> (\<exists>w. map_of offsets (node_id n) = Some w \<and> wo_finish_seconds w = f)
        \<and> (\<forall>m\<in>set nodes. \<forall>w. map_of offsets (node_id m) = Some w \<longrightarrow> wo_finish_seconds w \<le> f))"
proof -
  have "critical_inv offsets {} None" by (simp add: critical_inv_def)
  from fold_critical_inv [OF this, of "enumerate 0 nodes"]
  have inv: "critical_inv offsets (set (enumerate 0 nodes)) critical" by (simp add: assms)
  have mem: "\<exists>i. (i, n) \<in> set (enumerate 0 nodes)" if "n \<in> set nodes" for n
    using that by (auto simp: in_set_conv_nth [of n nodes] in_set_enumerate_eq)
  show ?thesis
    using inv mem unfolding critical_inv_def
    by (fastforce simp: in_set_enumerate_eq)
qed

text \<open>The critical node of an acyclic plan: a longest chain ends there.\<close>

lemma critical_chain:
  assumes "relaxed ch projection now ids offsets order"
    and "fold (critical_step offsets) (enumerate 0 nodes) None = critical" and "set order = set nodes"
  shows "case critical of None \<Rightarrow> nodes = []
    | Some (i, n, f) \<Rightarrow> i < length nodes \<and> nodes ! i = n
        \<and> (\<exists>rest. wait_chain (n # rest) \<and> set rest \<subseteq> set nodes \<and> chain_finish ch projection now (n # rest) = f)
        \<and> (\<forall>chain. wait_chain chain \<longrightarrow> set chain \<subseteq> set nodes \<longrightarrow> chain_finish ch projection now chain \<le> f)"
proof -
  note max = critical_maximum [OF assms(2)]
  have placed: "\<exists>w. map_of offsets (node_id m) = Some w" if "m \<in> set nodes" for m
    using relaxed_fixpoint [OF assms(1), of m] assms(3) that by simp
  show ?thesis
  proof (cases critical)
    case None
    then have "set nodes = {}" using max placed by fastforce
    with None show ?thesis by simp
  next
    case (Some c)
    obtain i n f where c: "c = (i, n, f)" by (cases c)
    have n: "i < length nodes" "nodes ! i = n" "n \<in> set nodes"
      and top: "m \<in> set nodes \<Longrightarrow> map_of offsets (node_id m) = Some w \<Longrightarrow> wo_finish_seconds w \<le> f"
      and f: "\<exists>w. map_of offsets (node_id n) = Some w \<and> wo_finish_seconds w = f" for m w
      using max Some c by auto
    have "\<exists>rest. wait_chain (n # rest) \<and> set rest \<subseteq> set nodes \<and> chain_finish ch projection now (n # rest) = f"
      using offset_attained [OF assms(1), of n] n(3) f unfolding assms(3) by auto
    moreover have "chain_finish ch projection now chain \<le> f" if wc: "wait_chain chain" and sub: "set chain \<subseteq> set nodes" for chain
    proof -
      obtain m rest where chain: "chain = m # rest" using wc by (cases chain) auto
      with sub have m: "m \<in> set nodes" by simp
      then obtain w where w: "map_of offsets (node_id m) = Some w" using placed by blast
      have "chain_finish ch projection now chain \<le> wo_finish_seconds w"
        using chain_below_offset [OF assms(1), of m rest w] wc sub w unfolding chain assms(3) by simp
      also have "\<dots> \<le> f" using top [OF m w] .
      finally show ?thesis .
    qed
    ultimately show ?thesis using n Some c by simp
  qed
qed

text \<open>C29: The compiler rejects a plan for its declared waits exactly when they cannot fit. For a plan with
  distinct node IDs and a deadline ahead, an error is reported if and only if the dependencies are
  acyclic and some dependency chain declares waits that take at least the whole seconds remaining;
  at most one error is reported, and it names a node at which a longest chain of the plan ends.\<close>

theorem wait_feasibility_exact:
  assumes "distinct (map node_id (plan_nodes plan))" and "ch_seconds_until ch deadline now = Some remaining"
  shows "(has_errors (validate_declared_wait_feasibility ch plan projection (Some deadline) now []) \<longleftrightarrow>
      \<not> (\<exists>S\<subseteq>set (plan_nodes plan). stuck_set S)
      \<and> (\<exists>chain. wait_chain chain \<and> set chain \<subseteq> set (plan_nodes plan) \<and> remaining \<le> chain_finish ch projection now chain))
    \<and> (\<forall>issue\<in>set (validate_declared_wait_feasibility ch plan projection (Some deadline) now []).
        \<exists>i rest. i < length (plan_nodes plan) \<and> iss_path issue = index_path ''plan.nodes'' i
          \<and> wait_chain (plan_nodes plan ! i # rest) \<and> set rest \<subseteq> set (plan_nodes plan)
          \<and> remaining \<le> chain_finish ch projection now (plan_nodes plan ! i # rest)
          \<and> (\<forall>chain. wait_chain chain \<longrightarrow> set chain \<subseteq> set (plan_nodes plan) \<longrightarrow>
               chain_finish ch projection now chain \<le> chain_finish ch projection now (plan_nodes plan ! i # rest)))"
proof (cases "relax_declared_waits ch plan projection now")
  case None
  then show ?thesis
    using relax_declared_waits_None [OF assms(1), of ch projection now] assms(2)
    by (simp add: validate_declared_wait_feasibility_def)
next
  case (Some offsets)
  with relax_declared_waits_cases [OF assms(1), of ch projection now] obtain order where
    order: "relaxed ch projection now (map node_id (plan_nodes plan)) offsets order" "set order = set (plan_nodes plan)"
    by auto
  have acyclic: "\<not> (\<exists>S\<subseteq>set (plan_nodes plan). stuck_set S)"
    using relax_declared_waits_None [OF assms(1), of ch projection now] Some by simp
  define critical where "critical = fold (critical_step offsets) (enumerate 0 (plan_nodes plan)) None"
  note crit = critical_chain [OF order(1) critical_def [symmetric] order(2)]
  have report: "validate_declared_wait_feasibility ch plan projection (Some deadline) now [] =
      (case critical of None \<Rightarrow> [] | Some (i, n, f) \<Rightarrow>
         if remaining \<le> f then report_error ''declared_waits_exceed_deadline'' (index_path ''plan.nodes'' i) [] else [])"
    using Some assms(2) by (simp add: validate_declared_wait_feasibility_def critical_def [symmetric])
  show ?thesis
  proof (cases critical)
    case None
    then have "plan_nodes plan = []" using crit by simp
    with None acyclic show ?thesis unfolding report by auto
  next
    case (Some c)
    obtain i n f where c: "c = (i, n, f)" by (cases c)
    from crit obtain rest where rest: "i < length (plan_nodes plan)" "plan_nodes plan ! i = n" "wait_chain (n # rest)"
      "set rest \<subseteq> set (plan_nodes plan)" "chain_finish ch projection now (n # rest) = f"
      and top: "\<And>chain. wait_chain chain \<Longrightarrow> set chain \<subseteq> set (plan_nodes plan) \<Longrightarrow> chain_finish ch projection now chain \<le> f"
      unfolding Some c by auto
    have "set (n # rest) \<subseteq> set (plan_nodes plan)" using rest(1, 2, 4) by auto
    then have fits: "(\<exists>chain. wait_chain chain \<and> set chain \<subseteq> set (plan_nodes plan) \<and> remaining \<le> chain_finish ch projection now chain)
        \<longleftrightarrow> remaining \<le> f"
      using rest(3, 5) top by (meson order_trans order_refl)
    show ?thesis
    proof (intro conjI ballI)
      show "has_errors (validate_declared_wait_feasibility ch plan projection (Some deadline) now []) \<longleftrightarrow>
          \<not> (\<exists>S\<subseteq>set (plan_nodes plan). stuck_set S)
          \<and> (\<exists>chain. wait_chain chain \<and> set chain \<subseteq> set (plan_nodes plan) \<and> remaining \<le> chain_finish ch projection now chain)"
        unfolding report Some c fits using acyclic by (simp add: has_errors_def report_error_def)
    next
      fix issue
      assume "issue \<in> set (validate_declared_wait_feasibility ch plan projection (Some deadline) now [])"
      then have "remaining \<le> f" "iss_path issue = index_path ''plan.nodes'' i"
        unfolding report Some c by (simp_all add: report_error_def split: if_splits)
      with rest top show "\<exists>i rest. i < length (plan_nodes plan) \<and> iss_path issue = index_path ''plan.nodes'' i
          \<and> wait_chain (plan_nodes plan ! i # rest) \<and> set rest \<subseteq> set (plan_nodes plan)
          \<and> remaining \<le> chain_finish ch projection now (plan_nodes plan ! i # rest)
          \<and> (\<forall>chain. wait_chain chain \<longrightarrow> set chain \<subseteq> set (plan_nodes plan) \<longrightarrow>
               chain_finish ch projection now chain \<le> chain_finish ch projection now (plan_nodes plan ! i # rest))"
        by (intro exI [of _ i] exI [of _ rest]) simp
    qed
  qed
qed

interpretation wait_feasibility: validation_pass
  "validate_declared_wait_feasibility ch plan projection deadline now"
  for ch plan projection deadline now
  by unfold_locales
    (auto simp: validate_declared_wait_feasibility_def report_error_def error_only_def split: option.splits)


section \<open>A plan of two waits\<close>

text \<open>Two waits of six seconds one after the other, each of which fits a horizon of ten seconds.\<close>

definition sample_waits :: execution_plan_definition where
  "sample_waits = sample_plan\<lparr>plan_nodes :=
     [sample_node ''b'' [''a''] (Op_WaitUntil (After 6) JNull), sample_node ''a'' [] (Op_WaitUntil (After 6) JNull)]\<rparr>"

lemma sample_waits_distinct: "distinct (map node_id (plan_nodes sample_waits))"
  by code_simp

theorem relax_longest_chain_witness:
  "\<not> (\<exists>S\<subseteq>set (plan_nodes sample_waits). stuck_set S)"
proof -
  have "relax_declared_waits sample_chrono sample_waits None 0 \<noteq> None" by code_simp
  with relax_longest_chain [OF sample_waits_distinct, of sample_chrono None 0] show ?thesis by simp
qed

theorem wait_feasibility_exact_witness:
  "\<exists>chain. wait_chain chain \<and> set chain \<subseteq> set (plan_nodes sample_waits) \<and> 10 \<le> chain_finish sample_chrono None 0 chain"
proof -
  have "has_errors (validate_declared_wait_feasibility sample_chrono sample_waits None (Some (10 ^ 10)) 0 [])"
    by code_simp
  moreover have "ch_seconds_until sample_chrono (10 ^ 10) 0 = Some 10" by code_simp
  ultimately show ?thesis using wait_feasibility_exact [OF sample_waits_distinct] by simp
qed

end
