(* ===== verification/Condition_Scope.thy ===== *)
theory Condition_Scope
  imports Bindings Compiler_Types
begin

text \<open>
  Conditional nodes (\<open>validate_condition_scope\<close> and its helpers in \<open>compiler/mod.rs\<close>): what the
  compiler forbids around a node that may be skipped, and the proof that in an accepted plan no
  resolved value depends on the output of a conditional node.
\<close>

section \<open>References\<close>

definition condition_reference_node :: "string \<Rightarrow> string option" where
  "condition_reference_node reference =
     (case strip_prefix ''$.nodes.'' reference of
        None \<Rightarrow> None
      | Some rest \<Rightarrow> map_option fst (split_once ''.output'' rest))"

definition validate_condition_reference_visibility ::
  "string \<Rightarrow> string \<Rightarrow> execution_node \<Rightarrow> report \<Rightarrow> report" where
  "validate_condition_reference_visibility path reference node r =
     (case condition_reference_node reference of
        None \<Rightarrow> r
      | Some nid \<Rightarrow>
          if nid = node_id node then report_error ''condition_reference_not_visible'' path r
          else if nid \<notin> set (node_depends_on node) then report_error ''condition_reference_not_visible'' path r
          else r)"

definition single_ref :: "object \<Rightarrow> string option" where
  "single_ref obj =
     (if length obj = 1 then Option.bind (obj_get obj ''$ref'') as_str else None)"

fun validate_no_conditional_reference :: "string list \<Rightarrow> string \<Rightarrow> json \<Rightarrow> report \<Rightarrow> report"
  and no_conditional_elements :: "string list \<Rightarrow> string \<Rightarrow> nat \<Rightarrow> json list \<Rightarrow> report \<Rightarrow> report"
  and no_conditional_entries :: "string list \<Rightarrow> string \<Rightarrow> object \<Rightarrow> report \<Rightarrow> report" where
  "validate_no_conditional_reference ids path (JArray values) r = no_conditional_elements ids path 0 values r"
| "validate_no_conditional_reference ids path (JObject obj) r =
     (case single_ref obj of
        Some reference \<Rightarrow>
          if (case condition_reference_node reference of None \<Rightarrow> False | Some nid \<Rightarrow> nid \<in> set ids)
          then report_error ''conditional_output_read'' path r else r
      | None \<Rightarrow>
          if \<exists>kv\<in>set obj. starts_with ''$'' (fst kv) then r
          else no_conditional_entries ids path obj r)"
| "validate_no_conditional_reference ids path JNull r = r"
| "validate_no_conditional_reference ids path (JBool b) r = r"
| "validate_no_conditional_reference ids path (JNumber n) r = r"
| "validate_no_conditional_reference ids path (JString s) r = r"
| "no_conditional_elements ids path i [] r = r"
| "no_conditional_elements ids path i (v # vs) r =
     no_conditional_elements ids path (Suc i) vs (validate_no_conditional_reference ids (index_path path i) v r)"
| "no_conditional_entries ids path [] r = r"
| "no_conditional_entries ids path ((k, v) # kvs) r =
     no_conditional_entries ids path kvs (validate_no_conditional_reference ids (path @ ''.'' @ k) v r)"

section \<open>The scope of conditions\<close>

definition condition_reference :: "execution_condition \<Rightarrow> execution_reference" where
  "condition_reference condition = (case condition of Cond_Exists r \<Rightarrow> r | Cond_Equals r _ \<Rightarrow> r)"

definition conditional_ids :: "execution_plan_definition \<Rightarrow> string list" where
  "conditional_ids plan = map node_id (filter (\<lambda>node. node_when node \<noteq> None) (plan_nodes plan))"

definition validate_conditional_node ::
  "execution_goal_contract \<Rightarrow> execution_node \<Rightarrow> string \<Rightarrow> execution_condition \<Rightarrow> report \<Rightarrow> report" where
  "validate_conditional_node goal node root condition r =
     (let r = validate_condition_reference_visibility (root @ ''.when.reference.$ref'')
                (condition_reference condition) node r;
          r = (case node_operation node of
                 Op_Output _ \<Rightarrow> report_error ''conditional_output_node'' (root @ ''.when'') r
               | _ \<Rightarrow> r);
          r = fold (\<lambda>check r.
                 case chk_kind check of
                   RequiredNodes node_ids \<Rightarrow>
                     if node_id node \<in> set node_ids then report_error ''conditional_required_node'' (root @ ''.when'') r else r
                 | _ \<Rightarrow> r) (goal_completion_checks goal) r
      in fold (\<lambda>coverage r. report_error ''conditional_coverage_node'' (root @ ''.when'') r)
           (filter (\<lambda>coverage. cov_map_node_id coverage = node_id node) (goal_coverage goal)) r)"

definition validate_node_scope ::
  "execution_goal_contract \<Rightarrow> string list \<Rightarrow> nat \<times> execution_node \<Rightarrow> report \<Rightarrow> report" where
  "validate_node_scope goal ids indexed r =
     (let (index, node) = indexed; root = index_path ''plan.nodes'' index;
          r = (case node_when node of None \<Rightarrow> r
               | Some condition \<Rightarrow> validate_conditional_node goal node root condition r);
          r = validate_no_conditional_reference ids (root @ ''.input'') (node_input node) r
      in case node_operation node of
           Op_Map items _ _ _ _ \<Rightarrow> validate_no_conditional_reference ids (root @ ''.operation.items'') items r
         | Op_Reduce items _ _ _ \<Rightarrow> validate_no_conditional_reference ids (root @ ''.operation.items'') items r
         | Op_Output value \<Rightarrow> validate_no_conditional_reference ids (root @ ''.operation.value'') value r
         | Op_WaitUntil _ res \<Rightarrow> validate_no_conditional_reference ids (root @ ''.operation.result'') res r
         | _ \<Rightarrow> r)"

text \<open>The requirements of conditional nodes with the first node that serves each, in key order.\<close>

definition conditional_requirements :: "execution_plan_definition \<Rightarrow> (string \<times> string) list" where
  "conditional_requirements plan =
     (let pairs = concat (map (\<lambda>node. map (\<lambda>req. (req, node_id node)) (node_requirement_ids node))
            (filter (\<lambda>node. node_when node \<noteq> None) (plan_nodes plan)))
      in map (\<lambda>req. (req, case map_of pairs req of None \<Rightarrow> [] | Some nid \<Rightarrow> nid)) (sort (remdups (map fst pairs))))"

definition unconditional_requirements :: "execution_plan_definition \<Rightarrow> string list" where
  "unconditional_requirements plan =
     concat (map node_requirement_ids (filter (\<lambda>node. node_when node = None) (plan_nodes plan)))"

definition validate_condition_scope ::
  "execution_goal_contract \<Rightarrow> execution_plan_definition \<Rightarrow> report \<Rightarrow> report" where
  "validate_condition_scope goal plan r =
     (let ids = conditional_ids plan in
      if ids = [] then r
      else
        let r = fold (validate_node_scope goal ids) (enumerate 0 (plan_nodes plan)) r;
            r = fold (\<lambda>(index, coverage). validate_no_conditional_reference ids
                   (index_path ''goal.coverage'' index @ ''.expected_items'') (cov_expected_items coverage))
                  (enumerate 0 (goal_coverage goal)) r
        in fold (\<lambda>(req, nid) r.
             if req \<notin> set (unconditional_requirements plan)
             then report_error ''requirement_only_conditional'' (''plan.nodes.'' @ nid @ ''.requirement_ids'') r
             else r) (conditional_requirements plan) r)"

section \<open>The checks as passes\<close>

lemma no_conditional_appends:
  shows "\<exists>new. error_only new \<and> validate_no_conditional_reference ids path v r = r @ new"
    and "\<exists>new. error_only new \<and> no_conditional_elements ids path i vs r = r @ new"
    and "\<exists>new. error_only new \<and> no_conditional_entries ids path kvs r = r @ new"
proof (induction ids path v r and ids path i vs r and ids path kvs r
    rule: validate_no_conditional_reference_no_conditional_elements_no_conditional_entries.induct)
qed (auto simp: report_error_def error_only_def split: option.splits)

interpretation no_conditional_value: validation_pass "validate_no_conditional_reference ids path v" for ids path v
  by unfold_locales (rule no_conditional_appends)

interpretation no_conditional_list: validation_pass "no_conditional_elements ids path i vs" for ids path i vs
  by unfold_locales (rule no_conditional_appends)

interpretation no_conditional_object: validation_pass "no_conditional_entries ids path kvs" for ids path kvs
  by unfold_locales (rule no_conditional_appends)

lemma visibility_pass: "validation_pass (validate_condition_reference_visibility path reference node)"
  by unfold_locales
    (auto simp: validate_condition_reference_visibility_def report_error_def error_only_def split: option.splits)

lemma conditional_node_pass: "validation_pass (validate_conditional_node goal node root condition)"
proof -
  have out: "validation_pass (\<lambda>r. case node_operation node of
      Op_Output _ \<Rightarrow> report_error ''conditional_output_node'' (root @ ''.when'') r | _ \<Rightarrow> r)"
    by (cases "node_operation node") (simp_all add: validation_pass_id validation_pass_error)
  have required: "validation_pass (fold (\<lambda>check r. case chk_kind check of
      RequiredNodes node_ids \<Rightarrow>
        if node_id node \<in> set node_ids then report_error ''conditional_required_node'' (root @ ''.when'') r else r
    | _ \<Rightarrow> r) (goal_completion_checks goal))"
  proof (rule validation_pass_fold)
    fix check
    show "validation_pass (\<lambda>r. case chk_kind check of
        RequiredNodes node_ids \<Rightarrow>
          if node_id node \<in> set node_ids then report_error ''conditional_required_node'' (root @ ''.when'') r else r
      | _ \<Rightarrow> r)"
      by (cases "chk_kind check") (simp_all add: validation_pass_id validation_pass_error validation_pass_if)
  qed
  have coverage: "validation_pass (fold (\<lambda>coverage r. report_error ''conditional_coverage_node'' (root @ ''.when'') r)
      (filter (\<lambda>coverage. cov_map_node_id coverage = node_id node) (goal_coverage goal)))"
    by (rule validation_pass_fold) (rule validation_pass_error)
  show ?thesis
    unfolding validate_conditional_node_def Let_def
    by (rule validation_pass_comp [OF validation_pass_comp [OF validation_pass_comp [OF visibility_pass out] required] coverage])
qed

lemma when_pass:
  "validation_pass (\<lambda>r. case node_when node of None \<Rightarrow> r
     | Some condition \<Rightarrow> validate_conditional_node goal node root condition r)"
  by (cases "node_when node") (simp_all add: validation_pass_id conditional_node_pass)

lemma operation_scope_pass:
  "validation_pass (\<lambda>r. case node_operation node of
       Op_Map items _ _ _ _ \<Rightarrow> validate_no_conditional_reference ids (root @ ''.operation.items'') items r
     | Op_Reduce items _ _ _ \<Rightarrow> validate_no_conditional_reference ids (root @ ''.operation.items'') items r
     | Op_Output value \<Rightarrow> validate_no_conditional_reference ids (root @ ''.operation.value'') value r
     | Op_WaitUntil _ res \<Rightarrow> validate_no_conditional_reference ids (root @ ''.operation.result'') res r
     | _ \<Rightarrow> r)"
  by (cases "node_operation node") (simp_all add: validation_pass_id no_conditional_value.validation_pass_axioms)

lemma node_scope_pass: "validation_pass (validate_node_scope goal ids indexed)"
proof (cases indexed)
  case (Pair index node)
  show ?thesis
    unfolding validate_node_scope_def Let_def Pair prod.case
    by (rule validation_pass_comp [OF validation_pass_comp [OF when_pass no_conditional_value.validation_pass_axioms]
          operation_scope_pass])
qed

lemma coverage_scope_pass:
  "validation_pass (fold (\<lambda>(index, coverage). validate_no_conditional_reference ids
     (index_path ''goal.coverage'' index @ ''.expected_items'') (cov_expected_items coverage)) cs)"
  by (rule validation_pass_fold) (auto intro: no_conditional_value.validation_pass_axioms)

lemma requirement_scope_pass:
  "validation_pass (fold (\<lambda>(req, nid) r.
     if req \<notin> set (unconditional_requirements plan)
     then report_error ''requirement_only_conditional'' (''plan.nodes.'' @ nid @ ''.requirement_ids'') r
     else r) pairs)"
  by (rule validation_pass_fold) (auto intro: validation_pass_if validation_pass_error validation_pass_id)

interpretation condition_scope: validation_pass "validate_condition_scope goal plan" for goal plan
proof (cases "conditional_ids plan = []")
  case True
  then show "validation_pass (validate_condition_scope goal plan)"
    unfolding validate_condition_scope_def by (simp add: validation_pass_id)
next
  case False
  then show "validation_pass (validate_condition_scope goal plan)"
    unfolding validate_condition_scope_def Let_def
    using validation_pass_comp [OF validation_pass_comp
        [OF validation_pass_fold [of "enumerate 0 (plan_nodes plan)", OF node_scope_pass [of goal "conditional_ids plan"]]
          coverage_scope_pass] requirement_scope_pass]
    by simp
qed

section \<open>What an accepted plan cannot read\<close>

text \<open>Two contexts of one node that differ at most in the outputs of the given nodes.\<close>

definition agree_outside :: "string list \<Rightarrow> binding_context \<Rightarrow> binding_context \<Rightarrow> bool" where
  "agree_outside ids c c' \<longleftrightarrow> bc_run_input c = bc_run_input c' \<and> bc_dependencies c = bc_dependencies c'
     \<and> bc_item c = bc_item c' \<and> bc_item_key c = bc_item_key c'
     \<and> (\<forall>nid. nid \<notin> set ids \<longrightarrow> map_of (bc_node_outputs c) nid = map_of (bc_node_outputs c') nid)"

lemma unread_reference:
  assumes "agree_outside ids c c'" and "\<forall>nid. condition_reference_node path = Some nid \<longrightarrow> nid \<notin> set ids"
  shows "try_resolve_reference path c = try_resolve_reference path c'"
proof -
  have same: "bc_run_input c = bc_run_input c'" "bc_dependencies c = bc_dependencies c'"
    "nid \<notin> set ids \<Longrightarrow> map_of (bc_node_outputs c) nid = map_of (bc_node_outputs c') nid" for nid
    using assms(1) by (simp_all add: agree_outside_def)
  consider "strip_prefix ''$.nodes.'' path = None"
    | rest where "strip_prefix ''$.nodes.'' path = Some rest" "split_once ''.output'' rest = None"
    | rest nid tail where "strip_prefix ''$.nodes.'' path = Some rest" "split_once ''.output'' rest = Some (nid, tail)"
    by (metis not_None_eq prod.exhaust)
  then show ?thesis
  proof cases
    case (3 rest nid tail)
    then have "nid \<notin> set ids" using assms(2) by (simp add: condition_reference_node_def)
    with 3 same show ?thesis by (simp add: try_resolve_reference_def split: option.splits)
  qed (use same in \<open>simp_all add: try_resolve_reference_def split: option.splits\<close>)
qed

lemma single_ref_obj:
  assumes "single_ref obj = Some reference"
  shows "dynamic_keys obj = [''$ref''] \<and> length obj = 1 \<and> (\<exists>v. obj_get obj ''$ref'' = Some v \<and> as_str v = Some reference)"
proof -
  from assms obtain v where v: "length obj = 1" "obj_get obj ''$ref'' = Some v" "as_str v = Some reference"
    by (auto simp: single_ref_def split: if_splits bind_splits)
  then obtain w where "obj = [(''$ref'', w)]"
    by (cases obj; cases "hd obj") (auto simp: obj_get_def split: if_splits)
  with v show ?thesis by (simp add: dynamic_keys_def obj_contains_def)
qed

lemma unread_dynamic:
  assumes "agree_outside ids c c'"
    and "\<forall>reference nid. key = ''$ref'' \<longrightarrow> as_str binding = Some reference \<longrightarrow>
           condition_reference_node reference = Some nid \<longrightarrow> nid \<notin> set ids"
  shows "resolve_dynamic c path key binding = resolve_dynamic c' path key binding"
proof (cases "key = ''$ref''")
  case True
  show ?thesis
  proof (cases "as_str binding")
    case (Some reference)
    with assms True have "try_resolve_reference reference c = try_resolve_reference reference c'"
      by (intro unread_reference) auto
    with True Some show ?thesis by (simp add: resolve_dynamic_def resolve_reference_def)
  qed (simp add: resolve_dynamic_def True)
next
  case False
  then show ?thesis using assms(1) by (simp add: resolve_dynamic_def agree_outside_def)
qed

lemma dynamic_single:
  assumes "dynamic_keys obj = [key]" and "length obj = 1" and "obj_get obj key = Some binding"
    and "key = ''$ref''" and "as_str binding = Some reference"
  shows "single_ref obj = Some reference"
  using assms by (simp add: single_ref_def)

lemma unread_value:
  shows "\<not> has_errors (validate_no_conditional_reference ids path v r) \<Longrightarrow> agree_outside ids c c' \<Longrightarrow>
      resolve_value c p v = resolve_value c' p v"
    and "\<not> has_errors (no_conditional_elements ids path i vs r) \<Longrightarrow> agree_outside ids c c' \<Longrightarrow>
      resolve_elements c p k vs = resolve_elements c' p k vs"
    and "\<not> has_errors (no_conditional_entries ids path kvs r) \<Longrightarrow> agree_outside ids c c' \<Longrightarrow>
      resolve_entries c p kvs acc = resolve_entries c' p kvs acc"
proof (induction ids path v r and ids path i vs r and ids path kvs r arbitrary: p and p k and p acc
    rule: validate_no_conditional_reference_no_conditional_elements_no_conditional_entries.induct)
  case (2 ids path obj r)
  show ?case
  proof (cases "dynamic_keys obj = []")
    case True
    then have "single_ref obj = None" using single_ref_obj [of obj] by (cases "single_ref obj") auto
    with 2 True show ?thesis by (auto simp: Let_def)
  next
    case False
    have "resolve_dynamic c p (hd (dynamic_keys obj)) binding = resolve_dynamic c' p (hd (dynamic_keys obj)) binding"
      if len: "length (dynamic_keys obj) = 1" "length obj = 1"
        and get: "obj_get obj (hd (dynamic_keys obj)) = Some binding" for binding
    proof (rule unread_dynamic [OF 2(3)], intro allI impI)
      fix reference nid
      assume a: "hd (dynamic_keys obj) = ''$ref''" "as_str binding = Some reference"
        "condition_reference_node reference = Some nid"
      have "dynamic_keys obj = [hd (dynamic_keys obj)]" using len(1) by (cases "dynamic_keys obj") auto
      then have "single_ref obj = Some reference" using dynamic_single [OF _ len(2) get] a by blast
      with 2(2) a(3) show "nid \<notin> set ids" by (auto split: if_splits)
    qed
    then show ?thesis using False by (auto simp: Let_def ok_or_eq_Inr intro!: bind_res_cong)
  qed
next
  case (8 ids path i v vs r)
  then have "\<not> has_errors (validate_no_conditional_reference ids (index_path path i) v r)"
    using no_conditional_list.pass_keeps by fastforce
  with 8 show ?case by (auto intro: bind_res_cong)
next
  case (10 ids path k v kvs r)
  then have "\<not> has_errors (validate_no_conditional_reference ids (path @ ''.'' @ k) v r)"
    using no_conditional_object.pass_keeps by fastforce
  with 10 show ?case by (auto intro!: bind_res_cong)
qed simp_all

lemma condition_scope_clean:
  assumes "\<not> has_errors (validate_condition_scope goal plan r)" and "conditional_ids plan \<noteq> []"
  shows "\<forall>i<length (plan_nodes plan). \<not> has_errors (validate_node_scope goal (conditional_ids plan) (i, plan_nodes plan ! i) r)"
    and "\<forall>pair\<in>set (conditional_requirements plan). fst pair \<in> set (unconditional_requirements plan)"
proof -
  let ?ids = "conditional_ids plan"
  let ?nodes = "fold (validate_node_scope goal ?ids) (enumerate 0 (plan_nodes plan))"
  let ?coverage = "fold (\<lambda>(index, coverage). validate_no_conditional_reference ?ids
      (index_path ''goal.coverage'' index @ ''.expected_items'') (cov_expected_items coverage)) (enumerate 0 (goal_coverage goal))"
  let ?step = "\<lambda>(req, nid) r. if req \<notin> set (unconditional_requirements plan)
      then report_error ''requirement_only_conditional'' (''plan.nodes.'' @ nid @ ''.requirement_ids'') r else r"
  have nodes: "validation_pass ?nodes" by (rule validation_pass_fold) (rule node_scope_pass)
  have clean: "\<not> has_errors (fold ?step (conditional_requirements plan) (?coverage (?nodes r)))"
    using assms by (simp add: validate_condition_scope_def Let_def)
  then have "\<not> has_errors (?coverage (?nodes r))" and reqs: "\<not> has_errors (fold ?step (conditional_requirements plan) r)"
    using pass_comp_clean [OF validation_pass_comp [OF nodes coverage_scope_pass] requirement_scope_pass] by blast+
  then have "\<not> has_errors (?nodes r)" using pass_comp_clean [OF nodes coverage_scope_pass] by blast
  then show "\<forall>i<length (plan_nodes plan). \<not> has_errors (validate_node_scope goal ?ids (i, plan_nodes plan ! i) r)"
    using pass_fold_clean [of "enumerate 0 (plan_nodes plan)" "validate_node_scope goal ?ids" r, OF node_scope_pass]
    by (simp add: enumerate_members)
  have "validation_pass (?step pair)" for pair
    by (cases pair) (simp add: validation_pass_if validation_pass_error validation_pass_id)
  then have "\<forall>pair\<in>set (conditional_requirements plan). \<not> has_errors (?step pair r)"
    using pass_fold_clean [of "conditional_requirements plan" ?step r] reqs by blast
  then show "\<forall>pair\<in>set (conditional_requirements plan). fst pair \<in> set (unconditional_requirements plan)"
    by (fastforce split: if_splits)
qed

lemma node_scope_clean:
  assumes "\<not> has_errors (validate_node_scope goal ids (i, node) r)"
  shows "\<exists>path. \<not> has_errors (validate_no_conditional_reference ids path (node_input node) r)"
    and "case node_operation node of
        Op_Map items _ _ _ _ \<Rightarrow> \<exists>path. \<not> has_errors (validate_no_conditional_reference ids path items r)
      | Op_Reduce items _ _ _ \<Rightarrow> \<exists>path. \<not> has_errors (validate_no_conditional_reference ids path items r)
      | Op_Output value \<Rightarrow> \<exists>path. \<not> has_errors (validate_no_conditional_reference ids path value r)
      | Op_WaitUntil _ res \<Rightarrow> \<exists>path. \<not> has_errors (validate_no_conditional_reference ids path res r)
      | _ \<Rightarrow> True"
    and "node_when node = Some condition \<Longrightarrow>
      \<not> has_errors (validate_conditional_node goal node (index_path ''plan.nodes'' i) condition r)"
proof -
  note comp = assms [unfolded validate_node_scope_def Let_def prod.case]
  note outer = pass_comp_clean [OF validation_pass_comp [OF when_pass no_conditional_value.validation_pass_axioms]
      operation_scope_pass, THEN iffD1, OF comp]
  note inner = pass_comp_clean [OF when_pass no_conditional_value.validation_pass_axioms, THEN iffD1, OF conjunct1 [OF outer]]
  show "\<exists>path. \<not> has_errors (validate_no_conditional_reference ids path (node_input node) r)"
    using inner by blast
  show "case node_operation node of
        Op_Map items _ _ _ _ \<Rightarrow> \<exists>path. \<not> has_errors (validate_no_conditional_reference ids path items r)
      | Op_Reduce items _ _ _ \<Rightarrow> \<exists>path. \<not> has_errors (validate_no_conditional_reference ids path items r)
      | Op_Output value \<Rightarrow> \<exists>path. \<not> has_errors (validate_no_conditional_reference ids path value r)
      | Op_WaitUntil _ res \<Rightarrow> \<exists>path. \<not> has_errors (validate_no_conditional_reference ids path res r)
      | _ \<Rightarrow> True"
    using conjunct2 [OF outer] by (cases "node_operation node") auto
  show "node_when node = Some condition \<Longrightarrow>
      \<not> has_errors (validate_conditional_node goal node (index_path ''plan.nodes'' i) condition r)"
    using conjunct1 [OF inner] by simp
qed

lemma conditional_node_clean:
  assumes "\<not> has_errors (validate_conditional_node goal node root condition r)"
  shows "(\<forall>nid. condition_reference_node (condition_reference condition) = Some nid \<longrightarrow>
        nid \<in> set (node_depends_on node) \<and> nid \<noteq> node_id node)
    \<and> (\<forall>value. node_operation node \<noteq> Op_Output value)
    \<and> (\<forall>check\<in>set (goal_completion_checks goal). \<forall>ids. chk_kind check = RequiredNodes ids \<longrightarrow> node_id node \<notin> set ids)
    \<and> (\<forall>coverage\<in>set (goal_coverage goal). cov_map_node_id coverage \<noteq> node_id node)"
proof -
  let ?out = "\<lambda>r. case node_operation node of
      Op_Output _ \<Rightarrow> report_error ''conditional_output_node'' (root @ ''.when'') r | _ \<Rightarrow> r"
  let ?check = "\<lambda>check r. case chk_kind check of
      RequiredNodes node_ids \<Rightarrow>
        if node_id node \<in> set node_ids then report_error ''conditional_required_node'' (root @ ''.when'') r else r
    | _ \<Rightarrow> r"
  let ?cover = "\<lambda>coverage r. report_error ''conditional_coverage_node'' (root @ ''.when'') r"
  have out: "validation_pass ?out"
    by (cases "node_operation node") (simp_all add: validation_pass_id validation_pass_error)
  have check: "validation_pass (?check c)" for c
    by (cases "chk_kind c") (simp_all add: validation_pass_id validation_pass_error validation_pass_if)
  have cover: "validation_pass (?cover c)" for c :: coverage_requirement by (rule validation_pass_error)
  note checks = validation_pass_fold [of "goal_completion_checks goal" ?check, OF check]
  note covers = validation_pass_fold [OF cover, of "filter (\<lambda>coverage. cov_map_node_id coverage = node_id node) (goal_coverage goal)"]
  note s1 = pass_comp_clean [OF validation_pass_comp [OF validation_pass_comp [OF visibility_pass out] checks] covers,
      THEN iffD1, OF assms [unfolded validate_conditional_node_def Let_def]]
  note s2 = pass_comp_clean [OF validation_pass_comp [OF visibility_pass out] checks, THEN iffD1, OF conjunct1 [OF s1]]
  note s3 = pass_comp_clean [OF visibility_pass out, THEN iffD1, OF conjunct1 [OF s2]]
  have "\<forall>c\<in>set (goal_completion_checks goal). \<not> has_errors (?check c r)"
    using pass_fold_clean [of "goal_completion_checks goal" ?check r, OF check] conjunct2 [OF s2] by blast
  then have "\<forall>check\<in>set (goal_completion_checks goal). \<forall>ids. chk_kind check = RequiredNodes ids \<longrightarrow> node_id node \<notin> set ids"
    by (fastforce split: if_splits)
  moreover have "filter (\<lambda>coverage. cov_map_node_id coverage = node_id node) (goal_coverage goal) = []"
    using pass_fold_clean [OF cover, of "filter (\<lambda>coverage. cov_map_node_id coverage = node_id node) (goal_coverage goal)" r]
      conjunct2 [OF s1] by (cases "filter (\<lambda>coverage. cov_map_node_id coverage = node_id node) (goal_coverage goal)") auto
  moreover have "\<forall>value. node_operation node \<noteq> Op_Output value" using conjunct2 [OF s3] by auto
  moreover have "\<forall>nid. condition_reference_node (condition_reference condition) = Some nid \<longrightarrow>
        nid \<in> set (node_depends_on node) \<and> nid \<noteq> node_id node"
    using conjunct1 [OF s3] by (auto simp: validate_condition_reference_visibility_def split: if_splits)
  ultimately show ?thesis unfolding filter_empty_conv by blast
qed

lemma agree_outside_view: "agree_outside [] c c' \<Longrightarrow> same_view c c'"
  by (simp add: agree_outside_def same_view_def)

text \<open>C32: A skipped branch cannot change a value or fail the run. In a plan the compiler's condition check
  accepts, the resolved input of every node, and the items, output value or wait result of its
  operation, are the same whatever the conditional nodes delivered, so nothing reads the null output
  of a skipped node; and a conditional node is never the output node, never required by a completion
  check, never measured for coverage, its condition reads the run input or another declared
  dependency, and every requirement it serves is also served by an unconditional node.\<close>

theorem conditional_outputs_unread:
  assumes "\<not> has_errors (validate_condition_scope goal plan r)" and "node \<in> set (plan_nodes plan)"
    and "agree_outside (conditional_ids plan) c c'"
  shows "resolve_bindings (node_input node) c = resolve_bindings (node_input node) c'
    \<and> (case node_operation node of
         Op_Map items _ _ _ _ \<Rightarrow> resolve_bindings items c = resolve_bindings items c'
       | Op_Reduce items _ _ _ \<Rightarrow> resolve_bindings items c = resolve_bindings items c'
       | Op_Output value \<Rightarrow> resolve_bindings value c = resolve_bindings value c'
       | Op_WaitUntil _ res \<Rightarrow> resolve_bindings res c = resolve_bindings res c'
       | _ \<Rightarrow> True)
    \<and> (\<forall>condition. node_when node = Some condition \<longrightarrow>
         (\<forall>nid. condition_reference_node (condition_reference condition) = Some nid \<longrightarrow>
            nid \<in> set (node_depends_on node) \<and> nid \<noteq> node_id node)
         \<and> (\<forall>value. node_operation node \<noteq> Op_Output value)
         \<and> (\<forall>check\<in>set (goal_completion_checks goal). \<forall>ids. chk_kind check = RequiredNodes ids \<longrightarrow> node_id node \<notin> set ids)
         \<and> (\<forall>coverage\<in>set (goal_coverage goal). cov_map_node_id coverage \<noteq> node_id node)
         \<and> set (node_requirement_ids node) \<subseteq> set (unconditional_requirements plan))"
proof (cases "conditional_ids plan = []")
  case True
  then have view: "same_view c c'" using assms(3) by (simp add: agree_outside_view)
  have "node_when node = None" using True assms(2) by (auto simp: conditional_ids_def filter_empty_conv)
  then show ?thesis
    using same_view_value(1) [OF view] by (simp add: resolve_bindings_def split: execution_operation.splits)
next
  case False
  obtain i where i: "i < length (plan_nodes plan)" "plan_nodes plan ! i = node"
    using assms(2) by (auto simp: in_set_conv_nth)
  have clean: "\<not> has_errors (validate_node_scope goal (conditional_ids plan) (i, node) r)"
    using condition_scope_clean(1) [OF assms(1) False] i by blast
  note parts = node_scope_clean [OF clean]
  have reqs: "set (node_requirement_ids node) \<subseteq> set (unconditional_requirements plan)" if "node_when node \<noteq> None"
    using condition_scope_clean(2) [OF assms(1) False] that assms(2)
    by (fastforce simp: conditional_requirements_def Let_def)
  have "resolve_bindings v c = resolve_bindings v c'"
    if "\<exists>path. \<not> has_errors (validate_no_conditional_reference (conditional_ids plan) path v r)" for v
    using that unread_value(1) [OF _ assms(3)] unfolding resolve_bindings_def by blast
  with parts(1, 2) have "resolve_bindings (node_input node) c = resolve_bindings (node_input node) c'
    \<and> (case node_operation node of
         Op_Map items _ _ _ _ \<Rightarrow> resolve_bindings items c = resolve_bindings items c'
       | Op_Reduce items _ _ _ \<Rightarrow> resolve_bindings items c = resolve_bindings items c'
       | Op_Output value \<Rightarrow> resolve_bindings value c = resolve_bindings value c'
       | Op_WaitUntil _ res \<Rightarrow> resolve_bindings res c = resolve_bindings res c'
       | _ \<Rightarrow> True)"
    by (cases "node_operation node") auto
  then show ?thesis using conditional_node_clean [OF parts(3)] reqs by simp
qed

section \<open>A plan with a branch\<close>

definition branch_node :: "string \<Rightarrow> string list \<Rightarrow> execution_condition option \<Rightarrow> json \<Rightarrow> execution_node" where
  "branch_node nid deps condition input = \<lparr>node_id = nid, node_requirement_ids = [], node_depends_on = deps,
     node_when = condition, node_input = input, node_output_schema = JObject [],
     node_operation = Op_Agent ''work'' [] [] 1, node_compensation = None,
     node_retry = \<lparr>rp_max_attempts = 1, rp_initial_backoff_ms = 0, rp_max_backoff_ms = 0\<rparr>, node_budget = None\<rparr>"

definition branch_plan :: execution_plan_definition where
  "branch_plan = \<lparr>plan_cancel_policy = RetainEffects, plan_input_schema = JObject [],
     plan_output_schema = JObject [],
     plan_nodes = [branch_node ''a'' [] None (JObject []),
       branch_node ''b'' [''a''] (Some (Cond_Exists ''$.nodes.a.output.go'')) (JObject []),
       branch_node ''c'' [''a'', ''b''] None (JObject [(''x'', JObject [(''$ref'', JString ''$.nodes.a.output'')])])]\<rparr>"

definition branch_goal :: execution_goal_contract where
  "branch_goal = \<lparr>goal_objective = ''work'', goal_requirements = [], goal_deliverables = [], goal_coverage = [],
     goal_constraints = [], goal_completion_checks = []\<rparr>"

definition branch_context :: "json \<Rightarrow> binding_context" where
  "branch_context b = \<lparr>bc_run_input = JNull, bc_node_outputs = [(''a'', JBool True), (''b'', b)],
     bc_dependencies = [''a'', ''b''], bc_item = None, bc_item_key = None\<rparr>"

theorem conditional_outputs_unread_witness:
  "resolve_bindings (node_input (plan_nodes branch_plan ! 2)) (branch_context JNull)
     = resolve_bindings (node_input (plan_nodes branch_plan ! 2)) (branch_context (JBool False))"
proof -
  have "\<not> has_errors (validate_condition_scope branch_goal branch_plan [])" by code_simp
  moreover have "plan_nodes branch_plan ! 2 \<in> set (plan_nodes branch_plan)" by (simp add: branch_plan_def)
  moreover have "agree_outside (conditional_ids branch_plan) (branch_context JNull) (branch_context (JBool False))"
    by (simp add: agree_outside_def branch_context_def conditional_ids_def branch_plan_def branch_node_def)
  ultimately show ?thesis using conditional_outputs_unread by blast
qed

text \<open>
  The comment above \<open>validate_condition_scope\<close> says that nothing may read the output of a conditional
  node. A condition may: the plan below makes node \<open>c\<close> depend on the conditional node \<open>b\<close> and test its
  output, is accepted by the check, and the test has different values for different outputs of \<open>b\<close>.
\<close>

lemma condition_reads_conditional:
  "\<not> has_errors (validate_condition_scope branch_goal
      (branch_plan\<lparr>plan_nodes := [branch_node ''b'' [] (Some (Cond_Exists ''$.input.go'')) (JObject []),
         branch_node ''c'' [''b''] (Some (Cond_Equals ''$.nodes.b.output'' JNull)) (JObject [])]\<rparr>) [])
   \<and> evaluate_condition (Cond_Equals ''$.nodes.b.output'' JNull) (branch_context JNull) = Inr True
   \<and> evaluate_condition (Cond_Equals ''$.nodes.b.output'' JNull) (branch_context (JBool False)) = Inr False"
  by code_simp

end
