(* ===== verification/Structure_Ids.thy ===== *)
theory Structure_Ids
  imports Compensation
begin

text \<open>
  Building blocks of the structural validation of plans (\<open>moa-artifacts/src/validation.rs\<close> and
  \<open>validation/json.rs\<close>): reports, identifiers, JSON pointers and reference lists.
\<close>

section \<open>Reports\<close>

text \<open>
  A structural report is the list of the paths of its errors; the message of an error is left out.
  A check may abort: \<open>to_string\<close> on a reference that has no canonical text panics.
\<close>

type_synonym structure_report = "string list"

definition push_error :: "string \<Rightarrow> structure_report \<Rightarrow> structure_report" where
  "push_error path r = r @ [path]"

definition push_if :: "bool \<Rightarrow> string \<Rightarrow> structure_report \<Rightarrow> structure_report" where
  "push_if b path r = (if b then push_error path r else r)"

named_theorems clean_iff \<open>when a structural check leaves an empty report empty\<close>

lemma push_clean [clean_iff]:
  "push_error path r \<noteq> []"
  "push_if b path r = [] \<longleftrightarrow> r = [] \<and> \<not> b"
  by (simp_all add: push_if_def push_error_def)

section \<open>Identifiers\<close>

definition is_ascii_lowercase :: "char \<Rightarrow> bool" where
  "is_ascii_lowercase c = (CHR ''a'' \<le> c \<and> c \<le> CHR ''z'')"

definition is_ascii :: "string \<Rightarrow> bool" where
  "is_ascii s = list_all (\<lambda>c. of_char c < (128 :: nat)) s"

definition is_stable_id :: "string \<Rightarrow> bool" where
  "is_stable_id value =
     (if value = [] \<or> 64 < length value \<or> \<not> is_ascii value then False
      else is_ascii_lowercase (hd value)
        \<and> list_all (\<lambda>b. is_ascii_lowercase b \<or> is_ascii_digit b \<or> b \<in> set ''_-'') (tl value))"

definition is_capability_component :: "string \<Rightarrow> nat \<Rightarrow> bool" where
  "is_capability_component value max_len =
     (if value = [] \<or> max_len < length value \<or> \<not> is_ascii value then False
      else list_all (\<lambda>b. is_ascii_alphanumeric b \<or> b \<in> set ''_-.:/#'') value
        \<and> is_ascii_alphanumeric (hd value) \<and> is_ascii_alphanumeric (last value))"

definition is_capability_version :: "string \<Rightarrow> bool" where
  "is_capability_version value =
     (if value = [] \<or> 64 < length value \<or> \<not> is_ascii value then False
      else list_all (\<lambda>b. is_ascii_alphanumeric b \<or> b \<in> set ''_-.+'') value
        \<and> is_ascii_alphanumeric (hd value) \<and> is_ascii_alphanumeric (last value))"

definition validate_stable_id :: "string \<Rightarrow> string \<Rightarrow> structure_report \<Rightarrow> structure_report" where
  "validate_stable_id path value r = push_if (\<not> is_stable_id value) path r"

fun stable_id_items ::
  "string \<Rightarrow> nat \<Rightarrow> string list \<Rightarrow> string list \<Rightarrow> structure_report \<Rightarrow> structure_report" where
  "stable_id_items path i seen [] r = r"
| "stable_id_items path i seen (v # vs) r =
     stable_id_items path (Suc i) (v # seen) vs
       (push_if (v \<in> set seen) (index_path path i) (validate_stable_id (index_path path i) v r))"

definition validate_stable_id_list ::
  "string \<Rightarrow> string list \<Rightarrow> bool \<Rightarrow> structure_report \<Rightarrow> structure_report" where
  "validate_stable_id_list path values require_items r =
     (if require_items \<and> values = [] then push_error path r else stable_id_items path 0 [] values r)"

definition validate_positive_u32 :: "string \<Rightarrow> u32 \<Rightarrow> structure_report \<Rightarrow> structure_report" where
  "validate_positive_u32 path value r = push_if (value = 0) path r"

definition validate_schema_version :: "string \<Rightarrow> u32 \<Rightarrow> structure_report \<Rightarrow> structure_report" where
  "validate_schema_version path version r = push_if (version \<noteq> 1) path r"

definition require_non_empty :: "string \<Rightarrow> string \<Rightarrow> structure_report \<Rightarrow> structure_report" where
  "require_non_empty path value r = push_if (is_blank value) path r"

definition validate_capability_reference ::
  "string \<Rightarrow> capability_reference \<Rightarrow> structure_report \<Rightarrow> structure_report" where
  "validate_capability_reference root reference r =
     push_if (\<not> is_capability_version (cap_version reference)) (root @ ''.version'')
       (push_if (\<not> is_capability_component (cap_name reference) 256) (root @ ''.name'') r)"

definition validate_contract_id ::
  "string \<Rightarrow> string \<Rightarrow> string list \<times> structure_report \<Rightarrow> string list \<times> structure_report" where
  "validate_contract_id path cid st =
     (let (ids, r) = st; r = validate_stable_id path cid r in
      if is_stable_id cid
      then if cid \<in> set ids then (ids, push_error path r) else (cid # ids, r)
      else (ids, r))"

lemma stable_id_items_clean:
  "stable_id_items path i seen vs r = [] \<longleftrightarrow>
     r = [] \<and> (\<forall>v\<in>set vs. is_stable_id v) \<and> distinct vs \<and> set vs \<inter> set seen = {}"
  by (induction vs arbitrary: i seen r) (auto simp: clean_iff validate_stable_id_def)

lemma identifier_clean [clean_iff]:
  "validate_stable_id path value r = [] \<longleftrightarrow> r = [] \<and> is_stable_id value"
  "validate_stable_id_list path vs require_items r = [] \<longleftrightarrow>
     r = [] \<and> (require_items \<longrightarrow> vs \<noteq> []) \<and> (\<forall>v\<in>set vs. is_stable_id v) \<and> distinct vs"
  "validate_positive_u32 path n r = [] \<longleftrightarrow> r = [] \<and> n \<noteq> 0"
  "validate_schema_version path n r = [] \<longleftrightarrow> r = [] \<and> n = 1"
  "require_non_empty path s r = [] \<longleftrightarrow> r = [] \<and> \<not> is_blank s"
  "validate_capability_reference path c r = [] \<longleftrightarrow>
     r = [] \<and> is_capability_component (cap_name c) 256 \<and> is_capability_version (cap_version c)"
  by (auto simp: clean_iff validate_stable_id_def validate_stable_id_list_def stable_id_items_clean
      validate_positive_u32_def validate_schema_version_def require_non_empty_def validate_capability_reference_def)

lemma contract_id_clean:
  "snd (validate_contract_id path c (ids, r)) = [] \<longleftrightarrow> r = [] \<and> is_stable_id c \<and> c \<notin> set ids"
  "snd (validate_contract_id path c (ids, r)) = [] \<Longrightarrow> fst (validate_contract_id path c (ids, r)) = c # ids"
  by (auto simp: validate_contract_id_def clean_iff Let_def split: if_splits)

section \<open>Reference lists\<close>

text \<open>
  \<open>to_string\<close> on a reference: \<open>Display\<close> fails when the reference has no canonical text, and the
  standard library's \<open>to_string\<close> panics on a failing \<open>Display\<close>.
\<close>

definition artifact_ref_to_string :: "artifact_ref \<Rightarrow> string result" where
  "artifact_ref_to_string reference = ok_or Panic (canonical_string reference)"

fun ref_list_items ::
  "string \<Rightarrow> (string \<Rightarrow> artifact_ref \<Rightarrow> structure_report \<Rightarrow> structure_report) \<Rightarrow> nat \<Rightarrow> string list
    \<Rightarrow> artifact_ref list \<Rightarrow> structure_report \<Rightarrow> structure_report result" where
  "ref_list_items path validate_kind i seen [] r = Inr r"
| "ref_list_items path validate_kind i seen (reference # refs) r =
     (let item_path = index_path path i;
          r = push_if (is_blank (target_name reference)) item_path r
      in bind_res (artifact_ref_to_string reference) (\<lambda>text.
         ref_list_items path validate_kind (Suc i) (text # seen) refs
           (validate_kind item_path reference (push_if (text \<in> set seen) item_path r))))"

definition validate_ref_list ::
  "string \<Rightarrow> artifact_ref list \<Rightarrow> (string \<Rightarrow> artifact_ref \<Rightarrow> structure_report \<Rightarrow> structure_report)
    \<Rightarrow> structure_report \<Rightarrow> structure_report result" where
  "validate_ref_list path refs validate_kind r = ref_list_items path validate_kind 0 [] refs r"

definition validate_ref_kind ::
  "string \<Rightarrow> artifact_ref \<Rightarrow> artifact_kind \<Rightarrow> structure_report \<Rightarrow> structure_report" where
  "validate_ref_kind path reference expected r =
     push_if (artifact_kind_of reference \<noteq> Some expected) path r"

definition validate_non_empty_unique_refs ::
  "string \<Rightarrow> artifact_ref list \<Rightarrow> artifact_kind option \<Rightarrow> structure_report \<Rightarrow> structure_report result" where
  "validate_non_empty_unique_refs path refs expected r =
     validate_ref_list path refs (\<lambda>item_path reference r.
       case expected of None \<Rightarrow> r | Some kind \<Rightarrow> validate_ref_kind item_path reference kind r) r"

lemma ref_kind_clean [clean_iff]:
  "validate_ref_kind path reference kind r = [] \<longleftrightarrow> r = [] \<and> artifact_kind_of reference = Some kind"
  by (auto simp: validate_ref_kind_def clean_iff)

lemma canonical_target: "canonical_string r = Some s \<Longrightarrow> validate_target (target_name r)"
  by (cases r) (auto simp: target_name_def split: if_splits)

lemma canonical_not_blank: "canonical_string r = Some s \<Longrightarrow> \<not> is_blank (target_name r)"
  using trim_alphanumeric [of "target_name r"] canonical_target [of r s]
  by (simp add: is_blank_def validate_target_def)

text \<open>
  A clean reference list holds distinct references with canonical text, all of the expected kind.
\<close>

lemma ref_list_items_clean:
  assumes "\<And>p x r. check p x r = [] \<longleftrightarrow> r = [] \<and> ok x"
  shows "ref_list_items path check i seen refs r = Inr [] \<longleftrightarrow>
     r = [] \<and> (\<forall>x\<in>set refs. canonical_string x \<noteq> None \<and> ok x \<and> the (canonical_string x) \<notin> set seen)
       \<and> distinct refs"
proof (induction refs arbitrary: i seen r)
  case (Cons x refs)
  show ?case
  proof (cases "canonical_string x")
    case (Some s)
    have same: "canonical_string y \<noteq> None \<and> the (canonical_string y) = s \<longleftrightarrow> y = x" for y
      using Some canonical_string_inj [of y s x] by auto
    have "ref_list_items path check i seen (x # refs) r = Inr [] \<longleftrightarrow>
        (r = [] \<and> s \<notin> set seen \<and> ok x) \<and> (\<forall>y\<in>set refs. canonical_string y \<noteq> None \<and> ok y
          \<and> the (canonical_string y) \<noteq> s \<and> the (canonical_string y) \<notin> set seen) \<and> distinct refs"
      using Some canonical_not_blank [OF Some]
      by (simp add: Cons.IH artifact_ref_to_string_def ok_or_def clean_iff assms Let_def conj_ac)
    also have "\<dots> \<longleftrightarrow> (r = [] \<and> s \<notin> set seen \<and> ok x) \<and> (\<forall>y\<in>set refs. canonical_string y \<noteq> None \<and> ok y
          \<and> y \<noteq> x \<and> the (canonical_string y) \<notin> set seen) \<and> distinct refs"
      by (intro conj_cong ball_cong refl) (use same in blast)
    finally show ?thesis using Some by auto
  qed (simp add: artifact_ref_to_string_def ok_or_def)
qed auto

lemma unique_refs_clean [clean_iff]:
  "validate_non_empty_unique_refs path refs (Some kind) r = Inr [] \<longleftrightarrow>
     r = [] \<and> distinct refs \<and> (\<forall>x\<in>set refs. canonical_string x \<noteq> None \<and> artifact_kind_of x = Some kind)"
  unfolding validate_non_empty_unique_refs_def validate_ref_list_def
  by (subst ref_list_items_clean) (auto simp: clean_iff)

section \<open>JSON pointers\<close>

definition validate_json_schema :: "string \<Rightarrow> json \<Rightarrow> structure_report \<Rightarrow> structure_report" where
  "validate_json_schema path schema r = push_if (as_object schema = None) path r"

fun pointer_escapes :: "string \<Rightarrow> bool" where
  "pointer_escapes [] = True"
| "pointer_escapes (c # cs) =
     (if c = CHR ''~''
      then (case cs of [] \<Rightarrow> False | e # es \<Rightarrow> if e \<notin> set ''01'' then False else pointer_escapes es)
      else pointer_escapes cs)"

definition is_json_pointer :: "string \<Rightarrow> bool" where
  "is_json_pointer pointer =
     (if pointer = [] then True
      else if \<not> starts_with ''/'' pointer then False
      else pointer_escapes pointer)"

definition validate_json_pointer :: "string \<Rightarrow> string \<Rightarrow> structure_report \<Rightarrow> structure_report" where
  "validate_json_pointer path pointer r = push_if (\<not> is_json_pointer pointer) path r"

fun decode_token :: "string \<Rightarrow> string option" where
  "decode_token [] = Some []"
| "decode_token (c # cs) =
     (if c \<noteq> CHR ''~'' then map_option (Cons c) (decode_token cs)
      else case cs of
        [] \<Rightarrow> None
      | e # es \<Rightarrow>
          if e = CHR ''0'' then map_option (Cons (CHR ''~'')) (decode_token es)
          else if e = CHR ''1'' then map_option (Cons (CHR ''/'')) (decode_token es)
          else None)"

definition decode_json_pointer_segments :: "string \<Rightarrow> string list option" where
  "decode_json_pointer_segments pointer =
     (if pointer = [] then Some []
      else case strip_prefix ''/'' pointer of
        None \<Rightarrow> None
      | Some encoded \<Rightarrow> those (map decode_token (split_char CHR ''/'' encoded)))"

definition pointer_segments_are_strict_prefix :: "string list \<Rightarrow> string list \<Rightarrow> bool" where
  "pointer_segments_are_strict_prefix left right =
     (length left < length right \<and> take (length left) right = left)"

section \<open>Pointers decode without loss\<close>

fun encode_token :: "string \<Rightarrow> string" where
  "encode_token [] = []"
| "encode_token (c # cs) =
     (if c = CHR ''~'' then ''~0'' else if c = CHR ''/'' then ''~1'' else [c]) @ encode_token cs"

lemma decode_token_encode: "decode_token (encode_token s) = Some s"
  by (induction s rule: encode_token.induct) auto

lemma encode_decode_token: "decode_token s = Some d \<Longrightarrow> CHR ''/'' \<notin> set s \<Longrightarrow> encode_token d = s"
proof (induction s arbitrary: d rule: decode_token.induct)
  case (2 c cs)
  show ?case
  proof (cases "c = CHR ''~''")
    case True
    with "2.prems"(1) obtain e es where cs: "cs = e # es" by (cases cs) auto
    have "e = CHR ''0'' \<or> e = CHR ''1''" using "2.prems"(1) True cs by (auto split: if_splits)
    then show ?thesis
    proof
      assume "e = CHR ''0''"
      with "2.prems" True cs obtain d' where "decode_token es = Some d'" "d = CHR ''~'' # d'" by auto
      with "2.IH"(2) [of e es d'] "2.prems"(2) True cs \<open>e = _\<close> show ?thesis by simp
    next
      assume "e = CHR ''1''"
      with "2.prems" True cs obtain d' where "decode_token es = Some d'" "d = CHR ''/'' # d'" by auto
      with "2.IH"(3) [of e es d'] "2.prems"(2) True cs \<open>e = _\<close> show ?thesis by simp
    qed
  next
    case False
    with 2 show ?thesis by auto
  qed
qed simp

lemma decode_token_iff: "decode_token s \<noteq> None \<longleftrightarrow> pointer_escapes s"
  by (induction s rule: decode_token.induct) (auto split: list.splits)

lemma pointer_escapes_append:
  "pointer_escapes (a @ CHR ''/'' # b) \<longleftrightarrow> pointer_escapes a \<and> pointer_escapes b"
proof (induction a rule: pointer_escapes.induct)
  case (2 c cs)
  show ?case
  proof (cases "c = CHR ''~''")
    case True
    then show ?thesis using "2.IH"(1) by (cases cs) auto
  next
    case False
    with "2.IH"(2) show ?thesis by simp
  qed
qed simp

lemma pointer_escapes_join:
  "pointer_escapes (join ''/'' ts) \<longleftrightarrow> (\<forall>t\<in>set ts. pointer_escapes t)"
proof (induction ts)
  case (Cons t ts)
  then show ?case by (cases ts) (simp_all add: pointer_escapes_append)
qed simp

lemma those_Some_iff: "those xs = Some ys \<longleftrightarrow> xs = map Some ys"
proof (induction xs arbitrary: ys)
  case (Cons x xs)
  then show ?case by (cases ys) (auto split: option.splits)
qed auto

lemma those_None_iff: "those xs = None \<longleftrightarrow> None \<in> set xs"
  by (induction xs) (auto split: option.splits)

text \<open>The syntax check of artifact validation is the decodability the compiler and the runtime rely on.\<close>

lemma is_json_pointer_iff: "is_json_pointer p \<longleftrightarrow> decode_json_pointer_segments p \<noteq> None"
proof (cases p)
  case (Cons c encoded)
  have "pointer_escapes encoded \<longleftrightarrow> (\<forall>t\<in>set (split_char CHR ''/'' encoded). decode_token t \<noteq> None)"
    using pointer_escapes_join [of "split_char CHR ''/'' encoded"] by (simp only: join_split_char decode_token_iff)
  also have "\<dots> \<longleftrightarrow> those (map decode_token (split_char CHR ''/'' encoded)) \<noteq> None"
    unfolding those_None_iff set_map by (metis imageE imageI)
  finally show ?thesis
    using Cons by (simp add: is_json_pointer_def decode_json_pointer_segments_def starts_with_def strip_prefix_def)
qed (simp_all add: is_json_pointer_def decode_json_pointer_segments_def)

lemma decode_pointer_encoded:
  assumes "decode_json_pointer_segments p = Some segs" and "p \<noteq> []"
  shows "p = CHR ''/'' # join ''/'' (map encode_token segs) \<and> segs \<noteq> []"
proof -
  from assms obtain encoded where enc: "p = CHR ''/'' # encoded"
    and toks: "map decode_token (split_char CHR ''/'' encoded) = map Some segs"
    by (auto simp: decode_json_pointer_segments_def those_Some_iff strip_prefix_Some split: option.splits)
  have "map encode_token segs = split_char CHR ''/'' encoded"
  proof (rule nth_equalityI)
    show len: "length (map encode_token segs) = length (split_char CHR ''/'' encoded)"
      using arg_cong [OF toks, of length] by simp
    fix i assume i: "i < length (map encode_token segs)"
    have "decode_token (split_char CHR ''/'' encoded ! i) = Some (segs ! i)"
      using arg_cong [OF toks, of "\<lambda>xs. xs ! i"] i len by simp
    with encode_decode_token i len split_char_no_sep
    show "map encode_token segs ! i = split_char CHR ''/'' encoded ! i"
      by (metis length_map nth_map nth_mem)
  qed
  with enc show ?thesis by (metis join_split_char list.map_disc_iff split_char_nonempty)
qed

lemma decode_pointer_inj:
  assumes "decode_json_pointer_segments p = Some segs" and "decode_json_pointer_segments q = Some segs"
  shows "p = q"
proof (cases "p = [] \<or> q = []")
  case True
  with assms decode_pointer_encoded show ?thesis
    by (metis decode_json_pointer_segments_def option.inject)
next
  case False
  with decode_pointer_encoded [OF assms(1)] decode_pointer_encoded [OF assms(2)] show ?thesis by metis
qed

section \<open>The pointers of the runtime\<close>

lemma decode_segment_eq:
  "decode_pointer_segment s pointer = ok_or (Err_Binding pointer) (decode_token s)"
proof (induction s pointer rule: decode_pointer_segment.induct)
  case (2 c cs pointer)
  show ?case
  proof (cases "c = CHR ''~''")
    case True
    then show ?thesis using "2.IH"(2, 3) by (cases cs) (auto simp: ok_or_def split: option.splits)
  next
    case False
    with "2.IH"(1) show ?thesis by (cases "decode_token cs") (simp_all add: ok_or_def)
  qed
qed (simp add: ok_or_def)

lemma map_res_ok_or:
  "map_res (\<lambda>x. ok_or e (f x)) xs = ok_or e (those (map f xs))"
  by (induction xs) (auto simp: ok_or_def split: option.splits)

text \<open>
  Where the syntax is valid, the runtime decodes a target to the same segments, the root and the
  bare slash apart: both are pointers for the artifact validation, the bare slash selecting the
  empty key, and the runtime refuses both.
\<close>

lemma decode_target_eq:
  "decode_target_pointer p =
     (if p = [] \<or> p = ''/'' then Inl (Err_Binding p)
      else ok_or (Err_Binding p) (decode_json_pointer_segments p))"
proof (cases p)
  case (Cons c encoded)
  then show ?thesis
    by (simp add: decode_target_pointer_def decode_json_pointer_segments_def decode_segment_eq
        strip_prefix_def map_res_ok_or [unfolded ok_or_def] ok_or_def)
qed (simp add: decode_target_pointer_def strip_prefix_def ok_or_def)

lemma bare_slash_divergence:
  "is_json_pointer ''/'' \<and> decode_json_pointer_segments ''/'' = Some [''''] \<and> decode_target_pointer ''/'' = Inl (Err_Binding ''/'')"
  by (simp add: is_json_pointer_def starts_with_def decode_json_pointer_segments_def strip_prefix_def decode_target_eq)

lemma json_clean [clean_iff]:
  "validate_json_schema path schema r = [] \<longleftrightarrow> r = [] \<and> (\<exists>obj. schema = JObject obj)"
  "validate_json_pointer path pointer r = [] \<longleftrightarrow> r = [] \<and> is_json_pointer pointer"
  by (auto simp: validate_json_schema_def validate_json_pointer_def clean_iff as_object_eq)

text \<open>
  The empty-target and kind errors are never reported for a reference without canonical text: the
  validation of such a list aborts.
\<close>

lemma ref_list_aborts:
  "validate_ref_list path refs check r = Inl e \<longleftrightarrow> e = Panic \<and> (\<exists>x\<in>set refs. canonical_string x = None)"
proof -
  have "ref_list_items path check i seen refs r = Inl e \<longleftrightarrow>
      e = Panic \<and> (\<exists>x\<in>set refs. canonical_string x = None)" for i seen
    by (induction refs arbitrary: i seen r) (auto simp: artifact_ref_to_string_def ok_or_def Let_def split: option.splits)
  then show ?thesis by (simp add: validate_ref_list_def)
qed

end
