(* ===== verification/Structure_Values.thy ===== *)
theory Structure_Values
  imports Structure_Ids Bindings
begin

text \<open>
  Dynamic values of a plan (\<open>moa-artifacts/src/validation.rs\<close>): the static check of the references and
  map variables inside a value, and the keys of static map items. A value that passes the check
  cannot go wrong when the interpreter resolves it; only an absent output field can stop it.
\<close>

section \<open>References\<close>

definition is_reference_segment :: "string \<Rightarrow> bool" where
  "is_reference_segment segment =
     (case segment of
        [] \<Rightarrow> False
      | c # cs \<Rightarrow> (is_ascii_alphabetic c \<or> c = CHR ''_'')
          \<and> list_all (\<lambda>d. is_ascii_alphanumeric d \<or> d \<in> set ''_-'') cs)"

text \<open>The error message of a rejected reference is left out: \<open>None\<close> stands for every \<open>Err\<close>.\<close>

definition validate_reference_tail :: "string \<Rightarrow> unit option" where
  "validate_reference_tail tail =
     (if tail = [] then Some ()
      else case strip_prefix ''.'' tail of
        None \<Rightarrow> None
      | Some segments \<Rightarrow>
          if segments = [] \<or> list_ex (\<lambda>s. \<not> is_reference_segment s) (split_char CHR ''.'' segments)
          then None else Some ())"

definition execution_reference_node :: "string \<Rightarrow> string option option" where
  "execution_reference_node reference =
     (case strip_prefix ''$.input'' reference of
        Some tail \<Rightarrow> map_option (\<lambda>_. None) (validate_reference_tail tail)
      | None \<Rightarrow>
        (case strip_prefix ''$.nodes.'' reference of
           None \<Rightarrow> None
         | Some rest \<Rightarrow>
           (case split_once ''.output'' rest of
              None \<Rightarrow> None
            | Some (nid, tail) \<Rightarrow>
                if \<not> is_stable_id nid then None
                else map_option (\<lambda>_. Some nid) (validate_reference_tail tail))))"

definition validate_visible_reference ::
  "string \<Rightarrow> string \<Rightarrow> execution_node \<Rightarrow> structure_report \<Rightarrow> structure_report" where
  "validate_visible_reference path reference node r =
     (case execution_reference_node reference of
        Some (Some referenced_node) \<Rightarrow>
          if referenced_node = node_id node then push_error path r
          else if referenced_node \<notin> set (node_depends_on node) then push_error path r
          else r
      | Some None \<Rightarrow> r
      | None \<Rightarrow> push_error path r)"

section \<open>Values\<close>

definition validate_dynamic_binding ::
  "string \<Rightarrow> string \<Rightarrow> json \<Rightarrow> execution_node \<Rightarrow> bool \<Rightarrow> structure_report \<Rightarrow> structure_report" where
  "validate_dynamic_binding path key binding node allow_map_variables r =
     (if key = ''$ref'' then
        (case as_str binding of
           Some reference \<Rightarrow> validate_visible_reference path reference node r
         | None \<Rightarrow> push_error path r)
      else if key = ''$item'' \<or> key = ''$item_key'' then
        push_if (\<not> allow_map_variables) path (push_if (\<not> json_eq binding (JBool True)) path r)
      else r)"

function validate_dynamic_value ::
    "string \<Rightarrow> json \<Rightarrow> execution_node \<Rightarrow> bool \<Rightarrow> structure_report \<Rightarrow> structure_report"
  and validate_dynamic_elements ::
    "string \<Rightarrow> nat \<Rightarrow> json list \<Rightarrow> execution_node \<Rightarrow> bool \<Rightarrow> structure_report \<Rightarrow> structure_report"
  and validate_dynamic_entries ::
    "string \<Rightarrow> object \<Rightarrow> execution_node \<Rightarrow> bool \<Rightarrow> structure_report \<Rightarrow> structure_report" where
  "validate_dynamic_value path (JArray values) node allow r =
     validate_dynamic_elements path 0 values node allow r"
| "validate_dynamic_value path (JObject obj) node allow r =
     (let keys = dynamic_keys obj in
      if keys \<noteq> [] then
        (if length keys \<noteq> 1 \<or> length obj \<noteq> 1 then push_error path r
         else case obj_get obj (hd keys) of
           None \<Rightarrow> r
         | Some binding \<Rightarrow> validate_dynamic_binding path (hd keys) binding node allow r)
      else if \<exists>kv\<in>set obj. starts_with ''$'' (fst kv) then push_error path r
      else validate_dynamic_entries path obj node allow r)"
| "validate_dynamic_value path JNull node allow r = r"
| "validate_dynamic_value path (JBool _) node allow r = r"
| "validate_dynamic_value path (JNumber _) node allow r = r"
| "validate_dynamic_value path (JString _) node allow r = r"
| "validate_dynamic_elements path i [] node allow r = r"
| "validate_dynamic_elements path i (v # vs) node allow r =
     validate_dynamic_elements path (Suc i) vs node allow
       (validate_dynamic_value (index_path path i) v node allow r)"
| "validate_dynamic_entries path [] node allow r = r"
| "validate_dynamic_entries path ((k, v) # kvs) node allow r =
     validate_dynamic_entries path kvs node allow
       (validate_dynamic_value (path @ ''.'' @ k) v node allow r)"
  by pat_completeness auto

termination
  by (relation "measure (case_sum (\<lambda>(_, v, _). size v)
      (case_sum (\<lambda>(_, _, vs, _). size_list size vs)
        (\<lambda>(_, kvs, _). size_list (size_prod (\<lambda>_. 0) size) kvs)))") auto

section \<open>Static map keys\<close>

definition encode_static_map_key :: "serde_lib \<Rightarrow> json \<Rightarrow> string" where
  "encode_static_map_key lib value =
     (case value of
        JNull \<Rightarrow> ''null:''
      | JBool _ \<Rightarrow> ''bool:'' @ canonical_json_bytes lib value
      | JNumber _ \<Rightarrow> ''number:'' @ canonical_json_bytes lib value
      | JString _ \<Rightarrow> ''string:'' @ canonical_json_bytes lib value
      | JArray _ \<Rightarrow> ''array:'' @ canonical_json_bytes lib value
      | JObject _ \<Rightarrow> ''object:'' @ canonical_json_bytes lib value)"

fun static_key_items ::
  "serde_lib \<Rightarrow> string \<Rightarrow> string \<Rightarrow> nat \<Rightarrow> string list \<Rightarrow> json list \<Rightarrow> structure_report \<Rightarrow> structure_report" where
  "static_key_items lib root item_key i keys [] r = r"
| "static_key_items lib root item_key i keys (item # items) r =
     (let path = index_path (root @ ''.items'') i in
      case (if item_key = [] then Some item else json_pointer lib item item_key) of
        None \<Rightarrow> static_key_items lib root item_key (Suc i) keys items (push_error path r)
      | Some key_value \<Rightarrow>
          let key = encode_static_map_key lib key_value in
          if 1024 < length key
          then static_key_items lib root item_key (Suc i) keys items (push_error path r)
          else static_key_items lib root item_key (Suc i) (key # keys) items
                 (push_if (key \<in> set keys) path r))"

definition validate_static_map_keys ::
  "serde_lib \<Rightarrow> string \<Rightarrow> json \<Rightarrow> string \<Rightarrow> structure_report \<Rightarrow> structure_report" where
  "validate_static_map_keys lib root items item_key r =
     (case as_array items of
        None \<Rightarrow> r
      | Some items \<Rightarrow>
          if \<not> is_json_pointer item_key then r
          else static_key_items lib root item_key 0 [] items r)"

section \<open>Validated references cannot go wrong\<close>

lemma is_reference_segment_eq: "is_reference_segment = valid_reference_segment"
  by (rule ext) (auto simp: is_reference_segment_def valid_reference_segment_def split: list.splits)

lemma lookup_fields_valid:
  "\<forall>s\<in>set segs. valid_reference_segment s \<Longrightarrow> is_ok (lookup_fields v segs path)"
  by (induction v segs path rule: lookup_fields.induct) (auto simp: is_ok_iff split: option.splits)

lemma lookup_tail_valid:
  "validate_reference_tail tail = Some () \<Longrightarrow> is_ok (lookup_tail v tail path)"
  by (auto simp: validate_reference_tail_def lookup_tail_def is_reference_segment_eq list_ex_iff
      strip_prefix_Some ok_or_def is_ok_iff split: option.splits if_splits
      intro: lookup_fields_valid [unfolded is_ok_iff])

definition reads_node :: "execution_node \<Rightarrow> binding_context \<Rightarrow> bool" where
  "reads_node node context \<longleftrightarrow> set (node_depends_on node) \<subseteq> set (bc_dependencies context)"

lemma visible_reference_resolves:
  assumes "validate_visible_reference path reference node r = []" and "reads_node node context"
  shows "is_ok (try_resolve_reference reference context)"
proof (cases "strip_prefix ''$.input'' reference")
  case (Some tail)
  with assms(1) have "validate_reference_tail tail = Some ()"
    by (auto simp: validate_visible_reference_def execution_reference_node_def clean_iff split: option.splits)
  with Some lookup_tail_valid show ?thesis by (simp add: try_resolve_reference_def)
next
  case None
  with assms(1) obtain rest nid tail where ref: "strip_prefix ''$.nodes.'' reference = Some rest"
      "split_once ''.output'' rest = Some (nid, tail)"
    and valid: "validate_reference_tail tail = Some ()" "nid \<in> set (node_depends_on node)"
    by (auto simp: validate_visible_reference_def execution_reference_node_def clean_iff
        split: option.splits if_splits)
  from valid(2) assms(2) have "nid \<in> set (bc_dependencies context)" by (auto simp: reads_node_def)
  with None ref lookup_tail_valid [OF valid(1)] show ?thesis
    by (auto simp: try_resolve_reference_def ok_or_def is_ok_iff split: option.splits)
qed

text \<open>The references that resolving a value reads.\<close>

fun value_references :: "json \<Rightarrow> string list"
  and entry_references :: "object \<Rightarrow> string list" where
  "value_references (JArray values) = concat (map value_references values)"
| "value_references (JObject obj) =
     (case obj_get obj ''$ref'' of
        Some (JString reference) \<Rightarrow> [reference]
      | _ \<Rightarrow> entry_references obj)"
| "value_references _ = []"
| "entry_references [] = []"
| "entry_references ((k, v) # kvs) = value_references v @ entry_references kvs"

definition reference_present :: "binding_context \<Rightarrow> string \<Rightarrow> bool" where
  "reference_present context reference \<longleftrightarrow> (\<exists>v. try_resolve_reference reference context = Inr (Some v))"

text \<open>The map variables a value may read are there when the value may use them.\<close>

definition map_variables :: "binding_context \<Rightarrow> bool" where
  "map_variables context \<longleftrightarrow> bc_item context \<noteq> None \<and> bc_item_key context \<noteq> None"

text \<open>A result that is a value when every reference is present, and otherwise names an absent one.\<close>

definition stops_at_absent :: "binding_context \<Rightarrow> string list \<Rightarrow> 'a result \<Rightarrow> bool" where
  "stops_at_absent context refs res \<longleftrightarrow>
     (\<forall>ref\<in>set refs. is_ok (try_resolve_reference ref context))
     \<and> (case res of
          Inr _ \<Rightarrow> \<forall>ref\<in>set refs. reference_present context ref
        | Inl e \<Rightarrow> \<exists>ref\<in>set refs. \<not> reference_present context ref \<and> e = Err_Binding ref)"

lemma stops_Inr: "stops_at_absent context [] (Inr v)"
  by (simp add: stops_at_absent_def)

lemma stops_bind:
  assumes "stops_at_absent context as res" and "\<And>v. res = Inr v \<Longrightarrow> stops_at_absent context bs (f v)"
    and "\<forall>ref\<in>set bs. is_ok (try_resolve_reference ref context)"
  shows "stops_at_absent context (as @ bs) (bind_res res f)"
proof (cases res)
  case (Inr v)
  with assms(1) assms(2) [OF Inr] show ?thesis by (auto simp: stops_at_absent_def split: sum.splits)
qed (use assms in \<open>auto simp: stops_at_absent_def\<close>)

lemma stops_map: "stops_at_absent context as res \<Longrightarrow> stops_at_absent context as (bind_res res (\<lambda>v. Inr (g v)))"
  by (cases res) (auto simp: stops_at_absent_def)

lemma stops_resolve_reference:
  assumes "is_ok (try_resolve_reference reference context)"
  shows "stops_at_absent context [reference] (resolve_reference reference context)"
proof -
  obtain res where "try_resolve_reference reference context = Inr res" using assms by (auto simp: is_ok_iff)
  then show ?thesis
    by (cases res) (auto simp: stops_at_absent_def resolve_reference_def reference_present_def ok_or_def is_ok_iff)
qed

lemma dynamic_keys_cases:
  assumes "dynamic_keys obj \<noteq> []" and "length (dynamic_keys obj) = 1" and "length obj = 1"
  obtains key binding where "obj = [(key, binding)]" and "dynamic_keys obj = [key]"
    and "key \<in> {''$ref'', ''$item'', ''$item_key''}"
proof -
  from assms(3) obtain k b where obj: "obj = [(k, b)]" by (cases obj) auto
  have "dynamic_keys obj = [k] \<and> k \<in> {''$ref'', ''$item'', ''$item_key''}"
    using assms(1) obj by (auto simp: dynamic_keys_def obj_contains_def split: if_splits)
  with obj that show thesis by blast
qed

lemma dynamic_binding_safe:
  assumes "validate_dynamic_binding path key binding node allow r = []"
    and "key \<in> {''$ref'', ''$item'', ''$item_key''}"
    and "reads_node node context" and "allow \<longrightarrow> map_variables context"
  shows "stops_at_absent context (value_references (JObject [(key, binding)])) (resolve_dynamic context p key binding)"
proof (cases "key = ''$ref''")
  case True
  with assms(1) obtain reference where "binding = JString reference"
      "validate_visible_reference path reference node r = []"
    by (cases binding) (auto simp: validate_dynamic_binding_def clean_iff)
  with True stops_resolve_reference [OF visible_reference_resolves [OF _ assms(3)]] show ?thesis
    by (simp add: resolve_dynamic_def obj_get_def ok_or_def)
next
  case False
  with assms have "allow" "json_eq binding (JBool True)"
    by (auto simp: validate_dynamic_binding_def clean_iff)
  moreover from this(2) have "binding = JBool True" by (cases binding) auto
  ultimately show ?thesis
    using assms(2, 4) False
    by (auto simp: resolve_dynamic_def obj_get_def ok_or_def require_true_def ensure_def map_variables_def stops_at_absent_def)
qed

lemma dynamic_value_keeps:
  "validate_dynamic_value path v node allow r = [] \<Longrightarrow> r = []"
  "validate_dynamic_elements path i vs node allow r = [] \<Longrightarrow> r = []"
  "validate_dynamic_entries path kvs node allow r = [] \<Longrightarrow> r = []"
proof (induction path v node allow r and path i vs node allow r and path kvs node allow r
    rule: validate_dynamic_value_validate_dynamic_elements_validate_dynamic_entries.induct)
  case (2 path obj node allow r)
  then show ?case
    by (auto simp: Let_def clean_iff validate_dynamic_binding_def validate_visible_reference_def
        split: if_splits option.splits)
qed auto

lemma static_no_ref: "dynamic_keys obj = [] \<Longrightarrow> obj_get obj ''$ref'' = None"
  by (simp add: dynamic_keys_def obj_contains_get split: if_splits)

lemma dynamic_value_safe:
  assumes "reads_node node context" and "allow \<longrightarrow> map_variables context"
  shows "validate_dynamic_value path v node allow r = [] \<Longrightarrow>
      \<forall>p. stops_at_absent context (value_references v) (resolve_value context p v)"
    and "validate_dynamic_elements path i vs node allow r = [] \<Longrightarrow>
      \<forall>p j. stops_at_absent context (concat (map value_references vs)) (resolve_elements context p j vs)"
    and "validate_dynamic_entries path kvs node allow r = [] \<Longrightarrow>
      \<forall>p acc. stops_at_absent context (entry_references kvs) (resolve_entries context p kvs acc)"
  using assms
proof (induction path v node allow r and path i vs node allow r and path kvs node allow r
    rule: validate_dynamic_value_validate_dynamic_elements_validate_dynamic_entries.induct)
  case (1 path vs node allow r)
  then show ?case by (simp add: stops_map)
next
  case (2 path obj node allow r)
  show ?case
  proof (cases "dynamic_keys obj = []")
    case True
    with 2 show ?thesis
      by (simp add: static_no_ref Let_def clean_iff stops_map split: if_splits)
  next
    case False
    with "2.prems"(1) have "length (dynamic_keys obj) = 1" "length obj = 1"
      by (auto simp: Let_def clean_iff split: if_splits)
    with False obtain key binding where obj: "obj = [(key, binding)]" "dynamic_keys obj = [key]"
      and key: "key \<in> {''$ref'', ''$item'', ''$item_key''}" by (rule dynamic_keys_cases)
    with "2.prems"(1) have "validate_dynamic_binding path key binding node allow r = []"
      by (simp add: obj_get_def)
    from dynamic_binding_safe [OF this key "2.prems"(2, 3)] obj show ?thesis
      by (simp add: obj_get_def ok_or_def del: value_references.simps)
  qed
next
  case (8 path i v vs node allow r)
  then have "\<forall>p. stops_at_absent context (value_references v) (resolve_value context p v)"
    using dynamic_value_keeps(2) by auto
  moreover have rest: "\<forall>p j. stops_at_absent context (concat (map value_references vs)) (resolve_elements context p j vs)"
    using 8 by auto
  moreover from rest have "\<forall>ref\<in>set (concat (map value_references vs)). is_ok (try_resolve_reference ref context)"
    unfolding stops_at_absent_def by blast
  ultimately show ?case
    unfolding resolve_elements.simps list.map concat.simps by (blast intro: stops_bind stops_map)
next
  case (10 path k v kvs node allow r)
  then have "\<forall>p. stops_at_absent context (value_references v) (resolve_value context p v)"
    using dynamic_value_keeps(3) by auto
  moreover have rest: "\<forall>p acc. stops_at_absent context (entry_references kvs) (resolve_entries context p kvs acc)"
    using 10 by auto
  moreover from rest have "\<forall>ref\<in>set (entry_references kvs). is_ok (try_resolve_reference ref context)"
    unfolding stops_at_absent_def by blast
  ultimately show ?case
    unfolding resolve_entries.simps entry_references.simps by (blast intro: stops_bind)
qed (simp_all add: stops_Inr)

section \<open>Static map keys are the keys of the runtime\<close>

lemma encode_static_eq:
  "encode_map_key lib v =
     (if 1024 < length (encode_static_map_key lib v) then Inl (Err_Binding ''$item_key'')
      else Inr (encode_static_map_key lib v))"
  by (cases v) (simp_all add: encode_map_key_def map_key_parts_def encode_static_map_key_def canonical_json_string_def)

lemma static_key_items_clean:
  "static_key_items lib root item_key i keys items r = [] \<longleftrightarrow>
     r = [] \<and> (\<exists>ks. map_res (\<lambda>item. extract_map_key lib item item_key) items = Inr ks
       \<and> distinct ks \<and> set ks \<inter> set keys = {})"
proof (induction items arbitrary: i keys r)
  case (Cons item items)
  show ?case
  proof (cases "extract_map_key lib item item_key")
    case (Inl e)
    then have "static_key_items lib root item_key i keys (item # items) r =
        static_key_items lib root item_key (Suc i) keys items (push_error (index_path (root @ ''.items'') i) r)"
      by (auto simp: extract_map_key_def encode_static_eq ok_or_def split: if_splits option.splits)
    with Inl show ?thesis by (simp add: Cons.IH clean_iff)
  next
    case (Inr k)
    then have "static_key_items lib root item_key i keys (item # items) r =
        static_key_items lib root item_key (Suc i) (k # keys) items (push_if (k \<in> set keys) (index_path (root @ ''.items'') i) r)"
      by (auto simp: extract_map_key_def encode_static_eq ok_or_def bind_res_eq_Inr Let_def split: if_splits option.splits)
    with Inr show ?thesis by (auto simp: Cons.IH clean_iff bind_res_eq_Inr)
  qed
qed auto

lemma static_map_keys_clean:
  "validate_static_map_keys lib root (JArray items) item_key r = [] \<Longrightarrow> is_json_pointer item_key \<Longrightarrow>
     \<exists>ks. map_res (\<lambda>item. extract_map_key lib item item_key) items = Inr ks \<and> distinct ks"
  by (auto simp: validate_static_map_keys_def static_key_items_clean)

lemma static_map_keys_keeps: "validate_static_map_keys lib root items item_key r = [] \<Longrightarrow> r = []"
  by (auto simp: validate_static_map_keys_def static_key_items_clean split: option.splits if_splits)

end
