(* ===== verification/Structure_Graph.thy ===== *)
theory Structure_Graph
  imports Structure_Ids Plan_Types "HOL-Library.While_Combinator"
begin

text \<open>
  The dependency graph of a plan (\<open>moa-artifacts/src/validation.rs\<close>): the acyclicity check, which counts
  open dependencies down, and the search from the output node. Both loops end, the first accepts
  exactly the acyclic graphs, whatever the iteration order of its hash maps, and the second finds
  exactly the ancestors.
\<close>

section \<open>Loops that end\<close>

lemma while_total:
  assumes step: "\<And>s. P s \<Longrightarrow> b s \<Longrightarrow> P (c s) \<and> f (c s) < (f s :: nat)"
    and stop: "\<And>s. P s \<Longrightarrow> \<not> b s \<Longrightarrow> Q s" and start: "P s"
  shows "\<exists>t. while_option b c s = Some t \<and> while b c s = t \<and> Q t"
proof -
  obtain t where t: "while_option b c s = Some t"
    using measure_while_option_Some [of P b c f s] step start by blast
  have "P t" using while_option_rule [of P b c s t] step t start by blast
  with t stop while_option_stop [OF t] show ?thesis by (simp add: while_def)
qed

section \<open>Acyclicity\<close>

text \<open>
  Open dependencies per node, and the nodes waiting for a node. A hash map is a function to an
  optional value; the hash set of node identifiers is a list without repetitions.
\<close>

type_synonym dag_maps = "(string \<Rightarrow> nat option) \<times> (string \<Rightarrow> string list option)"

definition dag_edge :: "string list \<Rightarrow> string \<Rightarrow> string \<Rightarrow> dag_maps \<Rightarrow> dag_maps" where
  "dag_edge node_ids nid dependency maps =
     (if dependency \<notin> set node_ids then maps
      else let (indegree, dependents) = maps in
        (case indegree nid of None \<Rightarrow> indegree | Some d \<Rightarrow> indegree(nid \<mapsto> d + 1),
         case dependents dependency of None \<Rightarrow> dependents | Some vs \<Rightarrow> dependents(dependency \<mapsto> vs @ [nid])))"

definition dag_node :: "string list \<Rightarrow> execution_node \<Rightarrow> dag_maps \<Rightarrow> dag_maps" where
  "dag_node node_ids node maps =
     (if node_id node \<notin> set node_ids then maps
      else fold (dag_edge node_ids (node_id node)) (node_depends_on node) maps)"

definition dag_of :: "execution_node list \<Rightarrow> string list \<Rightarrow> dag_maps" where
  "dag_of nodes node_ids =
     fold (dag_node node_ids) nodes
       (\<lambda>i. if i \<in> set node_ids then Some 0 else None, \<lambda>i. if i \<in> set node_ids then Some [] else None)"

text \<open>The loop keeps the ready identifiers as a stack, its top first.\<close>

record dag_state =
  dag_indegree :: "string \<Rightarrow> nat option"
  dag_ready :: "string list"
  dag_visited :: nat

definition release_dependent :: "string \<Rightarrow> dag_state \<Rightarrow> dag_state" where
  "release_dependent dependent st =
     (case dag_indegree st dependent of
        None \<Rightarrow> st
      | Some degree \<Rightarrow>
          let degree = degree - 1; st = st\<lparr>dag_indegree := (dag_indegree st)(dependent \<mapsto> degree)\<rparr> in
          if degree = 0 then st\<lparr>dag_ready := dependent # dag_ready st\<rparr> else st)"

definition dag_step :: "(string \<Rightarrow> string list option) \<Rightarrow> dag_state \<Rightarrow> dag_state" where
  "dag_step dependents st =
     (case dag_ready st of
        [] \<Rightarrow> st
      | nid # ready \<Rightarrow>
          let st = st\<lparr>dag_ready := ready, dag_visited := dag_visited st + 1\<rparr> in
          (case dependents nid of None \<Rightarrow> st | Some vs \<Rightarrow> fold release_dependent vs st))"

definition dag_start :: "(string \<Rightarrow> nat option) \<Rightarrow> string list \<Rightarrow> dag_state" where
  "dag_start indegree order =
     \<lparr>dag_indegree = indegree, dag_ready = rev (filter (\<lambda>i. indegree i = Some 0) order), dag_visited = 0\<rparr>"

definition dag_visit_count :: "execution_node list \<Rightarrow> string list \<Rightarrow> string list \<Rightarrow> nat" where
  "dag_visit_count nodes node_ids order =
     (let (indegree, dependents) = dag_of nodes node_ids in
      dag_visited (while (\<lambda>st. dag_ready st \<noteq> []) (dag_step dependents) (dag_start indegree order)))"

text \<open>
  The count does not depend on the order in which the initial ready identifiers are iterated (see
  below), so the check iterates the identifiers as listed.
\<close>

definition validate_execution_dag ::
  "string \<Rightarrow> execution_node list \<Rightarrow> string list \<Rightarrow> structure_report \<Rightarrow> structure_report" where
  "validate_execution_dag root nodes node_ids r =
     push_if (dag_visit_count nodes node_ids node_ids \<noteq> length node_ids) (root @ ''.nodes'') r"

section \<open>The output node\<close>

definition is_output_node :: "execution_node \<Rightarrow> bool" where
  "is_output_node node = (case node_operation node of Op_Output _ \<Rightarrow> True | _ \<Rightarrow> False)"

text \<open>Collecting into a hash map keeps the last of several nodes with one identifier.\<close>

definition node_by_id :: "execution_node list \<Rightarrow> string \<Rightarrow> execution_node option" where
  "node_by_id nodes = map_of (rev (map (\<lambda>node. (node_id node, node)) nodes))"

definition ancestor_step :: "execution_node list \<Rightarrow> string list \<times> string list \<Rightarrow> string list \<times> string list" where
  "ancestor_step nodes st =
     (let (stack, ancestors) = st in
      case stack of
        [] \<Rightarrow> st
      | i # stack \<Rightarrow>
          if i \<in> set ancestors then (stack, ancestors)
          else case node_by_id nodes i of
            None \<Rightarrow> (stack, i # ancestors)
          | Some node \<Rightarrow> (rev (node_depends_on node) @ stack, i # ancestors))"

definition output_ancestors :: "execution_node list \<Rightarrow> execution_node \<Rightarrow> string list" where
  "output_ancestors nodes output_node =
     snd (while (\<lambda>st. fst st \<noteq> []) (ancestor_step nodes) (rev (node_depends_on output_node), []))"

definition validate_terminal_output ::
  "string \<Rightarrow> execution_node list \<Rightarrow> structure_report \<Rightarrow> structure_report" where
  "validate_terminal_output root nodes r =
     (case filter (\<lambda>(i, node). is_output_node node) (enumerate 0 nodes) of
        [(output_index, output_node)] \<Rightarrow>
          let r = fold (\<lambda>(i, node). push_if (node_id output_node \<in> set (node_depends_on node))
                    (index_path (root @ ''.nodes'') i @ ''.depends_on'')) (enumerate 0 nodes) r;
              ancestors = output_ancestors nodes output_node
          in fold (\<lambda>(i, node). push_if (i \<noteq> output_index \<and> node_id node \<notin> set ancestors)
               (index_path (root @ ''.nodes'') i @ ''.id'')) (enumerate 0 nodes) r
      | _ \<Rightarrow> push_error (root @ ''.nodes'') r)"

section \<open>Counting down\<close>

text \<open>The edges the maps are built from, one per occurrence of a known dependency at a known node.\<close>

definition dag_edges :: "execution_node list \<Rightarrow> string list \<Rightarrow> (string \<times> string) list" where
  "dag_edges nodes node_ids =
     concat (map (\<lambda>node. map (Pair (node_id node)) (filter (\<lambda>d. d \<in> set node_ids) (node_depends_on node)))
       (filter (\<lambda>node. node_id node \<in> set node_ids) nodes))"

definition edge_maps :: "string list \<Rightarrow> (string \<times> string) list \<Rightarrow> dag_maps" where
  "edge_maps node_ids es =
     (\<lambda>a. if a \<in> set node_ids then Some (length (filter (\<lambda>e. fst e = a) es)) else None,
      \<lambda>b. if b \<in> set node_ids then Some (map fst (filter (\<lambda>e. snd e = b) es)) else None)"

lemma dag_edge_maps:
  "a \<in> set node_ids \<Longrightarrow>
   dag_edge node_ids a b (edge_maps node_ids es) =
     edge_maps node_ids (es @ (if b \<in> set node_ids then [(a, b)] else []))"
  by (auto simp: dag_edge_def edge_maps_def fun_eq_iff)

lemma dag_node_maps:
  "dag_node node_ids node (edge_maps node_ids es) =
     edge_maps node_ids (es @ dag_edges [node] node_ids)"
proof (cases "node_id node \<in> set node_ids")
  case True
  have "fold (dag_edge node_ids (node_id node)) ds (edge_maps node_ids es) =
      edge_maps node_ids (es @ map (Pair (node_id node)) (filter (\<lambda>d. d \<in> set node_ids) ds))" for ds
    by (induction ds arbitrary: es) (simp_all add: dag_edge_maps [OF True])
  with True show ?thesis by (simp add: dag_node_def dag_edges_def)
qed (simp add: dag_node_def dag_edges_def)

lemma dag_of_edges: "dag_of nodes node_ids = edge_maps node_ids (dag_edges nodes node_ids)"
proof -
  have "fold (dag_node node_ids) ns (edge_maps node_ids es) = edge_maps node_ids (es @ dag_edges ns node_ids)" for ns es
    by (induction ns arbitrary: es) (simp_all add: dag_node_maps dag_edges_def)
  from this [of nodes "[]"] show ?thesis
    by (simp add: dag_of_def edge_maps_def cong: if_cong)
qed

text \<open>One pass over the dependents of a node.\<close>

lemma release_dependents:
  assumes "\<forall>a\<in>set vs. \<exists>n. dag_indegree st a = Some n \<and> count_list vs a \<le> n"
    and "distinct (dag_ready st)" and "\<forall>a\<in>set (dag_ready st). dag_indegree st a = Some 0"
  shows "dag_indegree (fold release_dependent vs st) = (\<lambda>a. map_option (\<lambda>n. n - count_list vs a) (dag_indegree st a))
    \<and> set (dag_ready (fold release_dependent vs st)) =
        set (dag_ready st) \<union> {a \<in> set vs. dag_indegree st a = Some (count_list vs a)}
    \<and> distinct (dag_ready (fold release_dependent vs st))
    \<and> dag_visited (fold release_dependent vs st) = dag_visited st"
  using assms
proof (induction vs arbitrary: st)
  case Nil
  then show ?case by (auto simp: option.map_ident)
next
  case (Cons v vs)
  from Cons.prems(1) obtain n where n: "dag_indegree st v = Some n" "Suc (count_list vs v) \<le> n" by auto
  define st' where "st' = release_dependent v st"
  have st': "dag_indegree st' = (dag_indegree st)(v \<mapsto> n - 1)"
    "dag_ready st' = (if n = 1 then v # dag_ready st else dag_ready st)" "dag_visited st' = dag_visited st"
    using n by (simp_all add: st'_def release_dependent_def Let_def)
  have fresh: "v \<notin> set (dag_ready st)" using Cons.prems(3) n by auto
  have "\<forall>a\<in>set vs. \<exists>m. dag_indegree st' a = Some m \<and> count_list vs a \<le> m"
    using Cons.prems(1) n by (auto simp: st'(1))
  moreover have "distinct (dag_ready st')" using Cons.prems(2) fresh by (simp add: st'(2))
  moreover have "\<forall>a\<in>set (dag_ready st'). dag_indegree st' a = Some 0"
    using Cons.prems(3) fresh by (auto simp: st'(1, 2))
  ultimately have IH: "dag_indegree (fold release_dependent vs st') = (\<lambda>a. map_option (\<lambda>n. n - count_list vs a) (dag_indegree st' a))"
    "set (dag_ready (fold release_dependent vs st')) =
       set (dag_ready st') \<union> {a \<in> set vs. dag_indegree st' a = Some (count_list vs a)}"
    "distinct (dag_ready (fold release_dependent vs st'))"
    "dag_visited (fold release_dependent vs st') = dag_visited st'"
    using Cons.IH [of st'] by blast+
  have "set (dag_ready st') \<union> {a \<in> set vs. dag_indegree st' a = Some (count_list vs a)} =
      set (dag_ready st) \<union> {a \<in> set (v # vs). dag_indegree st a = Some (count_list (v # vs) a)}"
    using n by (auto simp: st' count_list_0_iff split: if_splits)
  with IH st' n show ?case by (auto simp: fun_eq_iff simp flip: st'_def)
qed

definition dag_order :: "(string \<times> string) list \<Rightarrow> (string \<times> string) set" where
  "dag_order es = {(b, a). (a, b) \<in> set es}"

definition open_edges :: "(string \<times> string) list \<Rightarrow> string set \<Rightarrow> string \<Rightarrow> nat" where
  "open_edges es D a = length (filter (\<lambda>e. fst e = a \<and> snd e \<notin> D) es)"

definition dag_inv :: "string set \<Rightarrow> (string \<times> string) list \<Rightarrow> string set \<Rightarrow> dag_state \<Rightarrow> bool" where
  "dag_inv ids es D st \<longleftrightarrow>
     dag_indegree st = (\<lambda>a. if a \<in> ids then Some (open_edges es D a) else None)
     \<and> set (dag_ready st) \<union> D = {a \<in> ids. open_edges es D a = 0}
     \<and> set (dag_ready st) \<inter> D = {} \<and> distinct (dag_ready st)
     \<and> dag_visited st = card D \<and> D \<subseteq> Wellfounded.acc (dag_order es)"

lemma count_dependents:
  "count_list (map fst (filter (\<lambda>e. snd e = x) es)) a = length (filter (\<lambda>e. fst e = a \<and> snd e = x) es)"
  by (induction es) auto

lemma open_edges_insert:
  "x \<notin> D \<Longrightarrow> open_edges es D a = open_edges es (insert x D) a + length (filter (\<lambda>e. fst e = a \<and> snd e = x) es)"
  unfolding open_edges_def by (induction es) auto

lemma open_edges_0: "open_edges es D a = 0 \<longleftrightarrow> (\<forall>b. (a, b) \<in> set es \<longrightarrow> b \<in> D)"
  by (auto simp: open_edges_def filter_empty_conv)

lemma dag_step_inv:
  assumes inv: "dag_inv ids es D st" and ready: "dag_ready st = x # ready"
    and es: "set es \<subseteq> ids \<times> ids" and "finite ids"
    and dependents: "\<And>b. b \<in> ids \<Longrightarrow> dependents b = Some (map fst (filter (\<lambda>e. snd e = b) es))"
  shows "dag_inv ids es (insert x D) (dag_step dependents st)"
proof -
  let ?vs = "map fst (filter (\<lambda>e. snd e = x) es)"
  let ?st = "st\<lparr>dag_ready := ready, dag_visited := dag_visited st + 1\<rparr>"
  from inv ready have x: "x \<in> ids" "open_edges es D x = 0" "x \<notin> D" "x \<notin> set ready"
    and D: "D \<subseteq> ids" "D \<subseteq> Wellfounded.acc (dag_order es)" by (auto simp: dag_inv_def)
  have step: "dag_step dependents st = fold release_dependent ?vs ?st"
    using ready dependents [OF x(1)] by (simp add: dag_step_def Let_def)
  have split: "open_edges es D a = open_edges es (insert x D) a + count_list ?vs a" for a
    unfolding count_dependents by (rule open_edges_insert [OF x(3)])
  have zero: "\<forall>a\<in>set ready. a \<in> ids \<and> open_edges es D a = 0" using inv ready by (auto simp: dag_inv_def)
  have "\<forall>a\<in>set ?vs. \<exists>n. dag_indegree ?st a = Some n \<and> count_list ?vs a \<le> n"
    using inv es split by (fastforce simp: dag_inv_def)
  moreover have "distinct (dag_ready ?st)" using inv ready by (simp add: dag_inv_def)
  moreover have "\<forall>a\<in>set (dag_ready ?st). dag_indegree ?st a = Some 0" using inv zero by (simp add: dag_inv_def)
  ultimately have "dag_indegree (fold release_dependent ?vs ?st) = (\<lambda>a. map_option (\<lambda>n. n - count_list ?vs a) (dag_indegree ?st a))
      \<and> set (dag_ready (fold release_dependent ?vs ?st)) =
          set (dag_ready ?st) \<union> {a \<in> set ?vs. dag_indegree ?st a = Some (count_list ?vs a)}
      \<and> distinct (dag_ready (fold release_dependent ?vs ?st))
      \<and> dag_visited (fold release_dependent ?vs ?st) = dag_visited ?st" by (rule release_dependents)
  then have fold: "dag_indegree (fold release_dependent ?vs ?st) = (\<lambda>a. map_option (\<lambda>n. n - count_list ?vs a) (dag_indegree st a))"
    "set (dag_ready (fold release_dependent ?vs ?st)) =
       set ready \<union> {a \<in> set ?vs. dag_indegree st a = Some (count_list ?vs a)}"
    "distinct (dag_ready (fold release_dependent ?vs ?st))"
    "dag_visited (fold release_dependent ?vs ?st) = Suc (card D)"
    using inv by (simp_all add: dag_inv_def)
  have degree: "dag_indegree (fold release_dependent ?vs ?st) = (\<lambda>a. if a \<in> ids then Some (open_edges es (insert x D) a) else None)"
    unfolding fold(1) using inv by (simp add: dag_inv_def fun_eq_iff split)
  have new: "{a \<in> set ?vs. dag_indegree st a = Some (count_list ?vs a)} =
      {a \<in> ids. open_edges es (insert x D) a = 0 \<and> open_edges es D a \<noteq> 0}"
    using inv es split by (auto simp: dag_inv_def count_list_0_iff simp flip: count_notin)
  have all: "{a \<in> ids. open_edges es (insert x D) a = 0} =
      {a \<in> ids. open_edges es D a = 0} \<union> {a \<in> ids. open_edges es (insert x D) a = 0 \<and> open_edges es D a \<noteq> 0}"
    using split by auto
  have "x \<in> Wellfounded.acc (dag_order es)"
    by (rule accI) (use x(2) D(2) in \<open>auto simp: dag_order_def open_edges_0\<close>)
  with D(2) have acc: "insert x D \<subseteq> Wellfounded.acc (dag_order es)" by simp
  have ready': "set (dag_ready (dag_step dependents st)) \<union> insert x D = {a \<in> ids. open_edges es (insert x D) a = 0}"
    unfolding step fold(2) new all using inv ready by (auto simp: dag_inv_def)
  have "set (dag_ready (dag_step dependents st)) \<inter> insert x D = {}"
    unfolding step fold(2) new using inv ready x by (auto simp: dag_inv_def)
  moreover have "Suc (card D) = card (insert x D)"
    using x(3) finite_subset [OF D(1) \<open>finite ids\<close>] by simp
  ultimately show ?thesis
    using ready' degree fold(3, 4) acc unfolding dag_inv_def step by simp
qed

lemma dag_edges_known: "set (dag_edges nodes node_ids) \<subseteq> set node_ids \<times> set node_ids"
  by (auto simp: dag_edges_def)

lemma dag_edges_iff:
  "(a, b) \<in> set (dag_edges nodes node_ids) \<longleftrightarrow>
     a \<in> set node_ids \<and> b \<in> set node_ids \<and> (\<exists>node\<in>set nodes. node_id node = a \<and> b \<in> set (node_depends_on node))"
  by (auto simp: dag_edges_def)

lemma dag_start_inv:
  assumes "set order = set node_ids" and "distinct order"
  shows "dag_inv (set node_ids) es {} (dag_start (fst (edge_maps node_ids es)) order)"
  using assms
  by (auto simp: dag_inv_def dag_start_def edge_maps_def open_edges_def fun_eq_iff)

text \<open>A set of nodes that each depend on one of their own keeps them all out of the count.\<close>

lemma dag_exhausted:
  assumes inv: "dag_inv ids es D st" and "dag_ready st = []" and es: "set es \<subseteq> ids \<times> ids" and "finite ids"
  shows "card D = card ids \<longleftrightarrow> acyclic (dag_order es)"
proof
  have D: "D \<subseteq> ids" "D \<subseteq> Wellfounded.acc (dag_order es)" using inv by (auto simp: dag_inv_def)
  assume "card D = card ids"
  with card_subset_eq [OF \<open>finite ids\<close> D(1)] D(2) have ids: "ids \<subseteq> Wellfounded.acc (dag_order es)" by simp
  have "a \<in> Wellfounded.acc (dag_order es)" for a
    by (rule accI) (use es ids in \<open>auto simp: dag_order_def\<close>)
  then have "wf (dag_order es)" by (simp add: wf_iff_acc)
  then show "acyclic (dag_order es)" by (rule wf_acyclic)
next
  assume acyclic: "acyclic (dag_order es)"
  have "finite (dag_order es)"
    by (rule finite_subset [of _ "(\<lambda>(a, b). (b, a)) ` set es"]) (auto simp: dag_order_def image_iff)
  from finite_acyclic_wf [OF this acyclic] have wf: "wf (dag_order es)" .
  have closed: "a \<in> D" if "a \<in> ids" "\<forall>b. (a, b) \<in> set es \<longrightarrow> b \<in> D" for a
    using assms(1, 2) that by (auto simp: dag_inv_def open_edges_0)
  have "a \<in> ids \<longrightarrow> a \<in> D" for a
    using wf
  proof (induction a rule: wf_induct_rule)
    case (less a)
    then show ?case using es closed [of a] by (auto simp: dag_order_def)
  qed
  then have "ids \<subseteq> D" by blast
  moreover have "D \<subseteq> ids" using inv by (auto simp: dag_inv_def)
  ultimately show "card D = card ids" by simp
qed

lemma dag_loop_exact:
  assumes "set order = set node_ids" and "distinct order" and "distinct node_ids"
  shows "\<exists>st. while_option (\<lambda>st. dag_ready st \<noteq> []) (dag_step (snd (dag_of nodes node_ids)))
           (dag_start (fst (dag_of nodes node_ids)) order) = Some st
      \<and> dag_visit_count nodes node_ids order = dag_visited st
      \<and> (dag_visited st = length node_ids \<longleftrightarrow> acyclic (dag_order (dag_edges nodes node_ids)))"
proof -
  let ?es = "dag_edges nodes node_ids" and ?ids = "set node_ids"
  let ?c = "dag_step (snd (dag_of nodes node_ids))"
  let ?s = "dag_start (fst (dag_of nodes node_ids)) order"
  let ?P = "\<lambda>st. \<exists>D. dag_inv ?ids ?es D st"
  let ?Q = "\<lambda>st. dag_visited st = length node_ids \<longleftrightarrow> acyclic (dag_order ?es)"
  have step: "?P (?c st) \<and> length node_ids - dag_visited (?c st) < length node_ids - dag_visited st"
    if inv: "?P st" and ready: "dag_ready st \<noteq> []" for st
  proof -
    from inv obtain D where D: "dag_inv ?ids ?es D st" by blast
    from ready obtain x rest where x: "dag_ready st = x # rest" by (cases "dag_ready st") auto
    have inv': "dag_inv ?ids ?es (insert x D) (?c st)"
      by (rule dag_step_inv [OF D x dag_edges_known]) (auto simp: dag_of_edges edge_maps_def)
    have "insert x D \<subseteq> ?ids" "x \<notin> D" using inv' D x by (auto simp: dag_inv_def)
    then have "card (insert x D) \<le> length node_ids" "card D < card (insert x D)"
      using card_mono [of ?ids "insert x D"] card_length [of node_ids] finite_subset [of "insert x D" ?ids]
      by (auto simp: card_insert_if)
    with inv' D show ?thesis by (auto simp: dag_inv_def)
  qed
  have stop: "?Q st" if "?P st" "\<not> dag_ready st \<noteq> []" for st
    using that dag_exhausted [of ?ids ?es _ st, OF _ _ dag_edges_known] assms(3)
    by (auto simp: dag_inv_def distinct_card)
  have "?P ?s" using dag_start_inv [OF assms(1, 2), of ?es] by (auto simp: dag_of_edges)
  from while_total [where P = ?P and Q = ?Q and f = "\<lambda>st. length node_ids - dag_visited st", OF step stop this]
  have "\<exists>st. while_option (\<lambda>st. dag_ready st \<noteq> []) ?c ?s = Some st
      \<and> while (\<lambda>st. dag_ready st \<noteq> []) ?c ?s = st \<and> ?Q st" .
  then show ?thesis by (auto simp: dag_visit_count_def split_def Let_def)
qed

text \<open>The check itself: any iteration order gives the same verdict.\<close>

lemma execution_dag_clean [clean_iff]:
  assumes "distinct node_ids"
  shows "validate_execution_dag root nodes node_ids r = [] \<longleftrightarrow>
    r = [] \<and> acyclic (dag_order (dag_edges nodes node_ids))"
  using dag_loop_exact [of node_ids node_ids nodes] assms
  by (auto simp: validate_execution_dag_def clean_iff)

section \<open>The ancestors of the output\<close>

definition dependency_of :: "execution_node list \<Rightarrow> (string \<times> string) set" where
  "dependency_of nodes =
     {(i, j). \<exists>node. node_by_id nodes i = Some node \<and> j \<in> set (node_depends_on node)}"

definition ancestor_inv :: "execution_node list \<Rightarrow> string set \<Rightarrow> string list \<times> string list \<Rightarrow> bool" where
  "ancestor_inv nodes start st \<longleftrightarrow>
     start \<subseteq> set (fst st) \<union> set (snd st) \<and> set (fst st) \<union> set (snd st) \<subseteq> (dependency_of nodes)\<^sup>* `` start
     \<and> dependency_of nodes `` set (snd st) \<subseteq> set (fst st) \<union> set (snd st) \<and> distinct (snd st)"

lemma node_by_id_mem: "node_by_id nodes i = Some node \<Longrightarrow> node \<in> set nodes \<and> node_id node = i"
  by (auto simp: node_by_id_def dest!: map_of_SomeD)

lemma ancestor_step_sets:
  "i \<notin> set ancestors \<Longrightarrow>
     set (fst (ancestor_step nodes (i # stack, ancestors))) = dependency_of nodes `` {i} \<union> set stack
     \<and> snd (ancestor_step nodes (i # stack, ancestors)) = i # ancestors"
  by (cases "node_by_id nodes i") (auto simp: ancestor_step_def dependency_of_def)

lemma ancestor_step_inv:
  assumes inv: "ancestor_inv nodes start (i # stack, ancestors)"
  shows "ancestor_inv nodes start (ancestor_step nodes (i # stack, ancestors))"
proof (cases "i \<in> set ancestors")
  case True
  then have "insert i (set stack \<union> set ancestors) = set stack \<union> set ancestors" by blast
  with True inv show ?thesis by (simp add: ancestor_inv_def ancestor_step_def)
next
  case False
  have "i \<in> (dependency_of nodes)\<^sup>* `` start" using inv by (simp add: ancestor_inv_def)
  then have "dependency_of nodes `` {i} \<subseteq> (dependency_of nodes)\<^sup>* `` start"
    by (auto intro: rtrancl_into_rtrancl)
  moreover have "dependency_of nodes `` set (i # ancestors) = dependency_of nodes `` {i} \<union> dependency_of nodes `` set ancestors"
    by auto
  ultimately show ?thesis
    using inv False ancestor_step_sets [OF False, of nodes stack] unfolding ancestor_inv_def by auto
qed

definition dependency_total :: "execution_node list \<Rightarrow> nat" where
  "dependency_total nodes = sum_list (map (length \<circ> node_depends_on) nodes)"

definition ancestor_measure :: "execution_node list \<Rightarrow> string set \<Rightarrow> string list \<times> string list \<Rightarrow> nat" where
  "ancestor_measure nodes start st =
     card ((dependency_of nodes)\<^sup>* `` start - set (snd st)) * Suc (dependency_total nodes) + length (fst st)"

lemma reachable_finite:
  assumes "finite start"
  shows "finite ((dependency_of nodes)\<^sup>* `` start)"
proof -
  have "(dependency_of nodes)\<^sup>* `` start \<subseteq> start \<union> (\<Union>node\<in>set nodes. set (node_depends_on node))"
  proof clarify
    fix i j assume "(i, j) \<in> (dependency_of nodes)\<^sup>*" and "i \<in> start" and "j \<notin> (\<Union>node\<in>set nodes. set (node_depends_on node))"
    then show "j \<in> start" by (cases rule: rtranclE) (auto simp: dependency_of_def dest: node_by_id_mem)
  qed
  then show ?thesis by (rule finite_subset) (use assms in simp)
qed

lemma ancestor_step_measure:
  assumes inv: "ancestor_inv nodes start (i # stack, ancestors)" and "finite start"
  shows "ancestor_measure nodes start (ancestor_step nodes (i # stack, ancestors))
       < ancestor_measure nodes start (i # stack, ancestors)"
proof (cases "i \<in> set ancestors")
  case True
  then show ?thesis by (simp add: ancestor_measure_def ancestor_step_def)
next
  case False
  let ?U = "(dependency_of nodes)\<^sup>* `` start"
  have "i \<in> ?U - set ancestors" using inv False by (auto simp: ancestor_inv_def)
  then have "card (?U - set ancestors) = Suc (card (?U - set (i # ancestors)))"
    using card.remove [of "?U - set ancestors" i] reachable_finite [OF \<open>finite start\<close>, of nodes]
    by (simp add: Diff_insert [symmetric])
  moreover have "length (node_depends_on node) \<le> dependency_total nodes" if "node_by_id nodes i = Some node" for node
    using node_by_id_mem [OF that] unfolding dependency_total_def
    by (intro member_le_sum_list) auto
  ultimately show ?thesis
    using False by (cases "node_by_id nodes i") (auto simp: ancestor_measure_def ancestor_step_def)
qed

text \<open>The search returns, and it returns every direct and indirect dependency of the output node.\<close>

lemma output_ancestors_exact:
  "\<exists>st. while_option (\<lambda>st. fst st \<noteq> []) (ancestor_step nodes) (rev (node_depends_on out), []) = Some st
     \<and> output_ancestors nodes out = snd st
     \<and> set (snd st) = (dependency_of nodes)\<^sup>* `` set (node_depends_on out)"
proof -
  let ?start = "set (node_depends_on out)"
  let ?P = "ancestor_inv nodes ?start"
  let ?Q = "\<lambda>st. set (snd st) = (dependency_of nodes)\<^sup>* `` ?start"
  have step: "?P (ancestor_step nodes st)
      \<and> ancestor_measure nodes ?start (ancestor_step nodes st) < ancestor_measure nodes ?start st"
    if "?P st" "fst st \<noteq> []" for st
    using that ancestor_step_inv ancestor_step_measure by (cases st; cases "fst st") auto
  have stop: "?Q st" if "?P st" "\<not> fst st \<noteq> []" for st
  proof
    have closed: "dependency_of nodes `` set (snd st) \<subseteq> set (snd st)" "?start \<subseteq> set (snd st)"
      using that by (auto simp: ancestor_inv_def)
    then show "(dependency_of nodes)\<^sup>* `` ?start \<subseteq> set (snd st)"
      by (metis Image_closed_trancl Image_mono order_refl)
  qed (use that in \<open>auto simp: ancestor_inv_def\<close>)
  have "?P (rev (node_depends_on out), [])" by (auto simp: ancestor_inv_def)
  from while_total [where P = ?P and Q = ?Q and f = "ancestor_measure nodes ?start", OF step stop this]
  have "\<exists>st. while_option (\<lambda>st. fst st \<noteq> []) (ancestor_step nodes) (rev (node_depends_on out), []) = Some st
      \<and> while (\<lambda>st. fst st \<noteq> []) (ancestor_step nodes) (rev (node_depends_on out), []) = st \<and> ?Q st" .
  then show ?thesis by (auto simp: output_ancestors_def)
qed

lemma fold_push_clean:
  "fold (\<lambda>x. push_if (b x) (p x)) xs r = [] \<longleftrightarrow> r = [] \<and> (\<forall>x\<in>set xs. \<not> b x)"
  by (induction xs arbitrary: r) (auto simp: clean_iff)

lemma enumerate_set: "set (enumerate 0 xs) = {(i, x). i < length xs \<and> x = xs ! i}"
  by (auto simp: in_set_enumerate_eq)

text \<open>
  A clean plan has one output node; nothing depends on it, and it depends, directly or not, on
  every other node.
\<close>

definition single_output :: "execution_node list \<Rightarrow> nat \<Rightarrow> bool" where
  "single_output nodes i \<longleftrightarrow>
     i < length nodes \<and> (\<forall>j < length nodes. is_output_node (nodes ! j) \<longleftrightarrow> j = i)
     \<and> (\<forall>node\<in>set nodes. node_id (nodes ! i) \<notin> set (node_depends_on node))
     \<and> (\<forall>j < length nodes. j \<noteq> i \<longrightarrow>
          node_id (nodes ! j) \<in> (dependency_of nodes)\<^sup>* `` set (node_depends_on (nodes ! i)))"

lemma terminal_output_one:
  assumes "filter (\<lambda>(i, node). is_output_node node) (enumerate 0 nodes) = [(k, out)]"
  shows "validate_terminal_output root nodes r = [] \<longleftrightarrow> r = [] \<and> single_output nodes k"
proof -
  have "set (filter (\<lambda>(i, node). is_output_node node) (enumerate 0 nodes)) = {(k, out)}"
    using assms by simp
  then have mem: "(i, x) \<in> set (filter (\<lambda>(i, node). is_output_node node) (enumerate 0 nodes)) \<longleftrightarrow> i = k \<and> x = out" for i x
    by simp
  from mem [of k out] have k: "k < length nodes" "out = nodes ! k" "is_output_node (nodes ! k)"
    by (auto simp: enumerate_set)
  have only: "i < length nodes \<and> is_output_node (nodes ! i) \<longleftrightarrow> i = k" for i
    using mem [of i "nodes ! i"] k by (auto simp: enumerate_set)
  have anc: "set (output_ancestors nodes out) = (dependency_of nodes)\<^sup>* `` set (node_depends_on out)"
    using output_ancestors_exact [of nodes out] by auto
  have "validate_terminal_output root nodes r = [] \<longleftrightarrow> r = []
      \<and> (\<forall>x\<in>set (enumerate 0 nodes). node_id out \<notin> set (node_depends_on (snd x)))
      \<and> (\<forall>x\<in>set (enumerate 0 nodes). fst x \<noteq> k \<longrightarrow> node_id (snd x) \<in> set (output_ancestors nodes out))"
    unfolding validate_terminal_output_def assms by (simp add: Let_def split_def fold_push_clean imp_conv_disj)
  also have "\<dots> \<longleftrightarrow> r = [] \<and> single_output nodes k"
    unfolding single_output_def anc using only k(1, 2) by (auto simp: enumerate_set all_set_conv_all_nth [of nodes])
  finally show ?thesis .
qed

lemma distinct_singleton: "distinct xs \<Longrightarrow> set xs = {x} \<Longrightarrow> xs = [x]"
  by (cases xs; cases "tl xs") auto

lemma terminal_output_clean [clean_iff]:
  "validate_terminal_output root nodes r = [] \<longleftrightarrow> r = [] \<and> (\<exists>i. single_output nodes i)"
proof (cases "\<exists>k out. filter (\<lambda>(i, node). is_output_node node) (enumerate 0 nodes) = [(k, out)]")
  case True
  then obtain k out where k: "filter (\<lambda>(i, node). is_output_node node) (enumerate 0 nodes) = [(k, out)]" by blast
  have "i = k" if "single_output nodes i" for i
  proof -
    have "(i, nodes ! i) \<in> set (filter (\<lambda>(i, node). is_output_node node) (enumerate 0 nodes))"
      using that by (auto simp: single_output_def enumerate_set)
    with k show ?thesis by simp
  qed
  with terminal_output_one [OF k] show ?thesis by blast
next
  case False
  have "\<not> single_output nodes i" for i
  proof
    assume single: "single_output nodes i"
    have "x = (i, nodes ! i)" if "x \<in> set (filter (\<lambda>(i, node). is_output_node node) (enumerate 0 nodes))" for x
      using that single by (auto simp: single_output_def enumerate_set)
    moreover have "(i, nodes ! i) \<in> set (filter (\<lambda>(i, node). is_output_node node) (enumerate 0 nodes))"
      using single by (auto simp: single_output_def enumerate_set)
    ultimately have "set (filter (\<lambda>(i, node). is_output_node node) (enumerate 0 nodes)) = {(i, nodes ! i)}" by blast
    then have "filter (\<lambda>(i, node). is_output_node node) (enumerate 0 nodes) = [(i, nodes ! i)]"
      by (rule distinct_singleton [OF distinct_filter [OF distinct_enumerate]])
    with False show False by blast
  qed
  moreover have "validate_terminal_output root nodes r \<noteq> []"
    using False unfolding validate_terminal_output_def
    by (auto simp: clean_iff split: list.splits)
  ultimately show ?thesis by blast
qed

end
