(* ===== verification/Plan_Structure.thy ===== *)
theory Plan_Structure
  imports Structure_Values Structure_Graph Estimates
begin

text \<open>
  Structural validation of nodes, operations, plans, goal contracts, amendments and task outcomes
  (\<open>moa-artifacts/src/validation.rs\<close> and \<open>validation/execution_plan.rs\<close>). A check returns the report or,
  where a skill reference has no canonical text, the abort of its \<open>to_string\<close>.
\<close>

section \<open>Operations\<close>

fun capability_ref_items ::
  "string \<Rightarrow> nat \<Rightarrow> capability_reference list \<Rightarrow> capability_reference list \<Rightarrow> structure_report \<Rightarrow> structure_report" where
  "capability_ref_items path i seen [] r = r"
| "capability_ref_items path i seen (reference # refs) r =
     capability_ref_items path (Suc i) (reference # seen) refs
       (push_if (reference \<in> set seen) (index_path path i)
         (validate_capability_reference (index_path path i) reference r))"

definition validate_agent_operation ::
  "string \<Rightarrow> string \<Rightarrow> artifact_ref list \<Rightarrow> capability_reference list \<Rightarrow> u32
    \<Rightarrow> structure_report \<Rightarrow> structure_report result" where
  "validate_agent_operation root instructions skill_refs capability_refs max_turns r =
     bind_res (validate_non_empty_unique_refs (root @ ''.skill_refs'') skill_refs (Some Kind_Skill)
         (require_non_empty (root @ ''.instructions'') instructions r)) (\<lambda>r.
     Inr (validate_positive_u32 (root @ ''.max_turns'') max_turns
       (capability_ref_items (root @ ''.capability_refs'') 0 [] capability_refs r)))"

definition validate_temporal_shape ::
  "string \<Rightarrow> execution_temporal_target \<Rightarrow> bool \<Rightarrow> structure_report \<Rightarrow> structure_report" where
  "validate_temporal_shape root target allow_absolute r =
     (case target of
        At _ \<Rightarrow> if \<not> allow_absolute then push_error root r else r
      | After delay_seconds \<Rightarrow> if delay_seconds = 0 then push_error root r else r)"

definition validate_policy_shape ::
  "string \<Rightarrow> execution_wait_policy \<Rightarrow> execution_node \<Rightarrow> bool \<Rightarrow> structure_report \<Rightarrow> structure_report" where
  "validate_policy_shape root policy node allow_absolute r =
     (let r = validate_temporal_shape (root @ ''.expiry'') (wp_expiry policy) allow_absolute r in
      case wp_on_expiry policy of
        FailTask \<Rightarrow> r
      | ContinueWith output \<Rightarrow> validate_dynamic_value (root @ ''.on_expiry.output'') output node False r)"

definition exceeds_max_items :: "json \<Rightarrow> u64 \<Rightarrow> bool" where
  "exceeds_max_items items max_items =
     (case as_array items of
        None \<Rightarrow> False
      | Some items \<Rightarrow> (case try_from_nat (length items) of None \<Rightarrow> True | Some n \<Rightarrow> max_items < n))"

definition validate_map_operation ::
  "serde_lib \<Rightarrow> string \<Rightarrow> execution_node \<Rightarrow> json \<Rightarrow> string \<Rightarrow> u64 \<Rightarrow> json \<Rightarrow> map_task
    \<Rightarrow> structure_report \<Rightarrow> structure_report result" where
  "validate_map_operation lib operation_root node items item_key max_items item_output_schema task r =
     (let r = validate_dynamic_value (operation_root @ ''.items'') items node False r;
          r = validate_json_pointer (operation_root @ ''.item_key'') item_key r;
          r = push_if (max_items = 0) (operation_root @ ''.max_items'') r;
          r = push_if (exceeds_max_items items max_items) (operation_root @ ''.items'') r;
          r = validate_json_schema (operation_root @ ''.item_output_schema'') item_output_schema r;
          r = validate_static_map_keys lib operation_root items item_key r
      in case task of
           Map_Capability reference \<Rightarrow>
             Inr (validate_capability_reference (operation_root @ ''.task.reference'') reference r)
         | Map_Agent instructions skill_refs capability_refs max_turns \<Rightarrow>
             validate_agent_operation (operation_root @ ''.task'') instructions skill_refs capability_refs max_turns r)"

definition validate_reduce_operation ::
  "string \<Rightarrow> execution_node \<Rightarrow> json \<Rightarrow> u64 \<Rightarrow> execution_reducer \<Rightarrow> u32
    \<Rightarrow> structure_report \<Rightarrow> structure_report result" where
  "validate_reduce_operation operation_root node items max_items reducer batch_size r =
     (let r = validate_dynamic_value (operation_root @ ''.items'') items node False r;
          r = push_if (max_items = 0) (operation_root @ ''.max_items'') r;
          r = push_if (exceeds_max_items items max_items) (operation_root @ ''.items'') r;
          r = push_if (batch_size < 2) (operation_root @ ''.batch_size'') r
      in case reducer of
           Red_Capability reference \<Rightarrow>
             Inr (validate_capability_reference (operation_root @ ''.reducer.reference'') reference r)
         | Red_Agent instructions skill_refs capability_refs max_turns \<Rightarrow>
             validate_agent_operation (operation_root @ ''.reducer'') instructions skill_refs capability_refs max_turns r)"

definition validate_operation ::
  "serde_lib \<Rightarrow> string \<Rightarrow> execution_node \<Rightarrow> bool \<Rightarrow> structure_report \<Rightarrow> structure_report result" where
  "validate_operation lib root node allow_absolute r =
     (let operation_root = root @ ''.operation'' in
      case node_operation node of
        Op_Capability reference \<Rightarrow>
          Inr (validate_capability_reference (operation_root @ ''.reference'') reference r)
      | Op_Agent instructions skill_refs capability_refs max_turns \<Rightarrow>
          validate_agent_operation operation_root instructions skill_refs capability_refs max_turns r
      | Op_Map items item_key max_items item_output_schema task \<Rightarrow>
          validate_map_operation lib operation_root node items item_key max_items item_output_schema task r
      | Op_Reduce items max_items reducer batch_size \<Rightarrow>
          validate_reduce_operation operation_root node items max_items reducer batch_size r
      | Op_Review prompt wait_policy \<Rightarrow>
          Inr (validate_policy_shape (operation_root @ ''.wait_policy'') wait_policy node allow_absolute
            (require_non_empty (operation_root @ ''.prompt'') prompt r))
      | Op_WaitSignal signal_name wait_policy \<Rightarrow>
          Inr (validate_policy_shape (operation_root @ ''.wait_policy'') wait_policy node allow_absolute
            (push_if (\<not> is_capability_component signal_name 64) (operation_root @ ''.signal_name'') r))
      | Op_WaitUntil wake res \<Rightarrow>
          Inr (validate_dynamic_value (operation_root @ ''.result'') res node False
            (validate_temporal_shape (operation_root @ ''.wake'') wake allow_absolute r))
      | Op_Output value \<Rightarrow> Inr (validate_dynamic_value (operation_root @ ''.value'') value node False r))"

section \<open>Compensation\<close>

record compensation_scan =
  cs_targets :: "string list"
  cs_decoded :: "string list list"
  cs_previous :: "string option"

definition binding_source_pointer :: "compensation_value_source \<Rightarrow> string" where
  "binding_source_pointer source = (case source of OriginalInput p \<Rightarrow> p | OriginalOutput p \<Rightarrow> p)"

fun compensation_bindings ::
  "string \<Rightarrow> nat \<Rightarrow> compensation_scan \<Rightarrow> compensation_input_binding list \<Rightarrow> structure_report \<Rightarrow> structure_report" where
  "compensation_bindings path i st [] r = r"
| "compensation_bindings path i st (binding # bindings) r =
     (let root = index_path path i; target = cib_target_pointer binding; target_root = root @ ''.target_pointer'';
          decoded = (if target = [] then None else decode_json_pointer_segments target);
          r = (if target = [] then push_error target_root r else validate_json_pointer target_root target r);
          r = (case decoded of None \<Rightarrow> r
               | Some segments \<Rightarrow>
                   push_if (\<exists>existing\<in>set (cs_decoded st). pointer_segments_are_strict_prefix existing segments
                       \<or> pointer_segments_are_strict_prefix segments existing) target_root r);
          r = push_if (target \<in> set (cs_targets st)) target_root r;
          r = push_if (case cs_previous st of None \<Rightarrow> False | Some previous \<Rightarrow> target < previous) target_root r;
          r = validate_json_pointer (root @ ''.source.pointer'') (binding_source_pointer (cib_source binding)) r
      in compensation_bindings path (Suc i)
           \<lparr>cs_targets = target # cs_targets st,
            cs_decoded = (case decoded of None \<Rightarrow> cs_decoded st | Some segments \<Rightarrow> cs_decoded st @ [segments]),
            cs_previous = Some target\<rparr> bindings r)"

definition validate_execution_compensation ::
  "string \<Rightarrow> execution_node \<Rightarrow> structure_report \<Rightarrow> structure_report" where
  "validate_execution_compensation root node r =
     (case node_compensation node of
        None \<Rightarrow> r
      | Some compensation \<Rightarrow>
          let compensation_root = root @ ''.compensation'';
              bindings_root = compensation_root @ ''.input_mapping.bindings'';
              bindings = comp_input_mapping compensation;
              r = push_if (case node_operation node of Op_Capability _ \<Rightarrow> False | _ \<Rightarrow> True) compensation_root r;
              r = validate_capability_reference (compensation_root @ ''.compensator'') (comp_compensator compensation) r;
              r = push_if (bindings = []) bindings_root r;
              r = push_if (64 < length bindings) bindings_root r
          in compensation_bindings bindings_root 0
               \<lparr>cs_targets = [], cs_decoded = [], cs_previous = None\<rparr> bindings r)"

section \<open>Nodes\<close>

definition validate_retry_policy :: "string \<Rightarrow> execution_node \<Rightarrow> structure_report \<Rightarrow> structure_report" where
  "validate_retry_policy root node r =
     push_if (rp_max_backoff_ms (node_retry node) < rp_initial_backoff_ms (node_retry node)) (root @ ''.retry.max_backoff_ms'')
       (validate_positive_u32 (root @ ''.retry.max_attempts'') (rp_max_attempts (node_retry node)) r)"

definition validate_dependency ::
  "string \<Rightarrow> execution_node \<Rightarrow> string list option \<Rightarrow> nat \<times> string \<Rightarrow> structure_report \<Rightarrow> structure_report" where
  "validate_dependency root node known_node_ids indexed r =
     (let (i, dependency) = indexed; path = index_path (root @ ''.depends_on'') i in
      push_if (case known_node_ids of None \<Rightarrow> False | Some ids \<Rightarrow> dependency \<notin> set ids) path
        (push_if (dependency = node_id node) path r))"

definition validate_node_condition :: "string \<Rightarrow> execution_node \<Rightarrow> structure_report \<Rightarrow> structure_report" where
  "validate_node_condition root node r =
     (case node_when node of
        None \<Rightarrow> r
      | Some condition \<Rightarrow>
          push_if (is_output_node node) (root @ ''.when'')
            (validate_visible_reference (root @ ''.when.reference.$ref'')
              (case condition of Cond_Exists reference \<Rightarrow> reference | Cond_Equals reference _ \<Rightarrow> reference) node r))"

definition validate_execution_node ::
  "serde_lib \<Rightarrow> string \<Rightarrow> execution_node \<Rightarrow> string list option \<Rightarrow> bool \<Rightarrow> structure_report \<Rightarrow> structure_report result" where
  "validate_execution_node lib root node known_node_ids allow_absolute r =
     (let r = validate_stable_id (root @ ''.id'') (node_id node) r;
          r = validate_stable_id_list (root @ ''.requirement_ids'') (node_requirement_ids node) True r;
          r = validate_stable_id_list (root @ ''.depends_on'') (node_depends_on node) False r;
          r = fold (validate_dependency root node known_node_ids) (enumerate 0 (node_depends_on node)) r;
          r = validate_node_condition root node r;
          map_input_scope = (case node_operation node of Op_Map _ _ _ _ _ \<Rightarrow> True | _ \<Rightarrow> False);
          r = validate_dynamic_value (root @ ''.input'') (node_input node) node map_input_scope r;
          r = validate_json_schema (root @ ''.output_schema'') (node_output_schema node) r;
          r = validate_retry_policy root node r
      in bind_res (validate_operation lib root node allow_absolute r) (\<lambda>r.
         Inr (validate_execution_compensation root node r)))"

section \<open>Conditional nodes\<close>

text \<open>The plan-wide half of the scope of conditions; the compiler repeats it with its own references.\<close>

function no_conditional_reference :: "string \<Rightarrow> json \<Rightarrow> string list \<Rightarrow> structure_report \<Rightarrow> structure_report"
  and no_conditional_reference_elements :: "string \<Rightarrow> nat \<Rightarrow> json list \<Rightarrow> string list \<Rightarrow> structure_report \<Rightarrow> structure_report"
  and no_conditional_reference_entries :: "string \<Rightarrow> object \<Rightarrow> string list \<Rightarrow> structure_report \<Rightarrow> structure_report" where
  "no_conditional_reference path (JArray vs) ids r = no_conditional_reference_elements path 0 vs ids r"
| "no_conditional_reference path (JObject obj) ids r =
     (case (if length obj = 1 then Option.bind (obj_get obj ''$ref'') as_str else None) of
        Some reference \<Rightarrow>
          (case execution_reference_node reference of
             Some (Some nid) \<Rightarrow> push_if (nid \<in> set ids) path r
           | _ \<Rightarrow> r)
      | None \<Rightarrow>
          if \<exists>kv\<in>set obj. starts_with ''$'' (fst kv) then r
          else no_conditional_reference_entries path obj ids r)"
| "no_conditional_reference path JNull ids r = r"
| "no_conditional_reference path (JBool _) ids r = r"
| "no_conditional_reference path (JNumber _) ids r = r"
| "no_conditional_reference path (JString _) ids r = r"
| "no_conditional_reference_elements path i [] ids r = r"
| "no_conditional_reference_elements path i (v # vs) ids r =
     no_conditional_reference_elements path (Suc i) vs ids (no_conditional_reference (index_path path i) v ids r)"
| "no_conditional_reference_entries path [] ids r = r"
| "no_conditional_reference_entries path ((k, v) # kvs) ids r =
     no_conditional_reference_entries path kvs ids (no_conditional_reference (path @ ''.'' @ k) v ids r)"
  by pat_completeness auto

termination
  by (relation "measure (case_sum (\<lambda>(_, v, _). size v)
      (case_sum (\<lambda>(_, _, vs, _). size_list size vs)
        (\<lambda>(_, kvs, _). size_list (size_prod (\<lambda>_. 0) size) kvs)))") auto

definition node_reads_conditional ::
  "string \<Rightarrow> string list \<Rightarrow> nat \<times> execution_node \<Rightarrow> structure_report \<Rightarrow> structure_report" where
  "node_reads_conditional root ids indexed r =
     (let (i, node) = indexed; node_root = index_path (root @ ''.nodes'') i;
          r = no_conditional_reference (node_root @ ''.input'') (node_input node) ids r
      in case node_operation node of
           Op_Map items _ _ _ _ \<Rightarrow> no_conditional_reference (node_root @ ''.operation.items'') items ids r
         | Op_Reduce items _ _ _ \<Rightarrow> no_conditional_reference (node_root @ ''.operation.items'') items ids r
         | Op_Output value \<Rightarrow> no_conditional_reference (node_root @ ''.operation.value'') value ids r
         | Op_WaitUntil _ res \<Rightarrow> no_conditional_reference (node_root @ ''.operation.result'') res ids r
         | _ \<Rightarrow> r)"

definition requirements_where :: "(execution_node \<Rightarrow> bool) \<Rightarrow> execution_node list \<Rightarrow> string list" where
  "requirements_where p nodes = concat (map node_requirement_ids (filter p nodes))"

definition validate_plan_condition_scope ::
  "string \<Rightarrow> execution_node list \<Rightarrow> structure_report \<Rightarrow> structure_report" where
  "validate_plan_condition_scope root nodes r =
     (let ids = map node_id (filter (\<lambda>node. node_when node \<noteq> None) nodes) in
      if ids = [] then r
      else
        let r = fold (node_reads_conditional root ids) (enumerate 0 nodes) r;
            unconditional = requirements_where (\<lambda>node. node_when node = None) nodes;
            conditional = sort (remdups (requirements_where (\<lambda>node. node_when node \<noteq> None) nodes))
        in fold (\<lambda>requirement. push_if (requirement \<notin> set unconditional) (root @ ''.nodes'')) conditional r)"

section \<open>Plans and amendments\<close>

text \<open>The identifiers seen so far, the latest first, and the report.\<close>

definition scan_node_id ::
  "string \<Rightarrow> nat \<times> execution_node \<Rightarrow> string list \<times> structure_report \<Rightarrow> string list \<times> structure_report" where
  "scan_node_id root indexed st =
     (let (i, node) = indexed; (ids, r) = st; id_path = index_path (root @ ''.nodes'') i @ ''.id'';
          r = validate_stable_id id_path (node_id node) r
      in if is_stable_id (node_id node)
         then if node_id node \<in> set ids then (ids, push_error id_path r) else (node_id node # ids, r)
         else (ids, r))"

definition validate_execution_plan_at ::
  "serde_lib \<Rightarrow> string \<Rightarrow> execution_plan_definition \<Rightarrow> bool \<Rightarrow> structure_report \<Rightarrow> structure_report result" where
  "validate_execution_plan_at lib root plan allow_absolute r =
     (let r = validate_json_schema (root @ ''.input_schema'') (plan_input_schema plan) r;
          r = validate_json_schema (root @ ''.output_schema'') (plan_output_schema plan) r;
          (node_ids, r) = fold (scan_node_id root) (enumerate 0 (plan_nodes plan)) ([], r)
      in bind_res (fold_res (\<lambda>(i, node). validate_execution_node lib (index_path (root @ ''.nodes'') i) node
                       (Some node_ids) allow_absolute) (enumerate 0 (plan_nodes plan)) r) (\<lambda>r.
         Inr (validate_plan_condition_scope root (plan_nodes plan)
           (validate_terminal_output root (plan_nodes plan)
             (validate_execution_dag root (plan_nodes plan) node_ids r)))))"

definition validate_execution_plan_definition ::
  "serde_lib \<Rightarrow> execution_plan_definition \<Rightarrow> structure_report result" where
  "validate_execution_plan_definition lib plan = validate_execution_plan_at lib ''execution_plan'' plan True []"

definition validate_amendment_operation ::
  "serde_lib \<Rightarrow> nat \<times> plan_amendment_operation \<Rightarrow> structure_report \<Rightarrow> structure_report result" where
  "validate_amendment_operation lib indexed r =
     (let (i, operation) = indexed; root = index_path ''plan_amendment.operations'' i in
      case operation of
        AddNode node \<Rightarrow> validate_execution_node lib (root @ ''.node'') node None True r
      | ReplacePendingNode nid node \<Rightarrow>
          validate_execution_node lib (root @ ''.node'') node None True (validate_stable_id (root @ ''.node_id'') nid r)
      | RemovePendingNode nid \<Rightarrow> Inr (validate_stable_id (root @ ''.node_id'') nid r))"

definition validate_plan_amendment :: "serde_lib \<Rightarrow> plan_amendment \<Rightarrow> structure_report result" where
  "validate_plan_amendment lib amendment =
     fold_res (validate_amendment_operation lib) (enumerate 0 (am_operations amendment)) []"

section \<open>Goals\<close>

definition validate_check_kind :: "string \<Rightarrow> completion_check_kind \<Rightarrow> structure_report \<Rightarrow> structure_report" where
  "validate_check_kind root kind r =
     (case kind of
        OutputSchema \<Rightarrow> r
      | RequiredNodes ids \<Rightarrow> validate_stable_id_list (root @ ''.kind.node_ids'') ids True r
      | Citations ids _ \<Rightarrow> validate_stable_id_list (root @ ''.kind.node_ids'') ids True r
      | MapCoverage map_node_id \<Rightarrow> validate_stable_id (root @ ''.kind.map_node_id'') map_node_id r
      | AgentVerifier instructions max_turns \<Rightarrow>
          validate_positive_u32 (root @ ''.kind.max_turns'') max_turns
            (require_non_empty (root @ ''.kind.instructions'') instructions r))"

type_synonym id_scan = "string list \<times> structure_report"

definition scan_requirement :: "nat \<times> execution_requirement \<Rightarrow> id_scan \<Rightarrow> id_scan" where
  "scan_requirement indexed st =
     (let (i, requirement) = indexed in
      validate_contract_id (index_path ''goal_contract.requirements'' i @ ''.id'') (req_id requirement) st)"

definition scan_deliverable :: "nat \<times> execution_deliverable \<Rightarrow> id_scan \<Rightarrow> id_scan" where
  "scan_deliverable indexed st =
     (let (i, deliverable) = indexed; root = index_path ''goal_contract.deliverables'' i;
          (ids, r) = validate_contract_id (root @ ''.id'') (dlv_id deliverable) st
      in (ids, validate_json_schema (root @ ''.schema'') (dlv_schema deliverable)
            (validate_json_pointer (root @ ''.output_pointer'') (dlv_output_pointer deliverable) r)))"

definition scan_coverage :: "nat \<times> coverage_requirement \<Rightarrow> id_scan \<Rightarrow> id_scan" where
  "scan_coverage indexed st =
     (let (i, coverage) = indexed; root = index_path ''goal_contract.coverage'' i;
          (ids, r) = validate_contract_id (root @ ''.id'') (cov_id coverage) st
      in (ids, validate_stable_id (root @ ''.map_node_id'') (cov_map_node_id coverage) r))"

definition scan_constraint :: "nat \<times> execution_constraint \<Rightarrow> id_scan \<Rightarrow> id_scan" where
  "scan_constraint indexed st =
     (let (i, constraint) = indexed in
      validate_contract_id (index_path ''goal_contract.constraints'' i @ ''.id'') (con_id constraint) st)"

definition scan_check :: "nat \<times> completion_check \<Rightarrow> id_scan \<Rightarrow> id_scan" where
  "scan_check indexed st =
     (let (i, check) = indexed; root = index_path ''goal_contract.completion_checks'' i;
          (ids, r) = validate_contract_id (root @ ''.id'') (chk_id check) st;
          r = validate_stable_id_list (root @ ''.requirement_ids'') (chk_requirement_ids check) False r;
          r = validate_stable_id_list (root @ ''.constraint_ids'') (chk_constraint_ids check) False r
      in (ids, validate_check_kind root (chk_kind check) r))"

definition validate_execution_goal_contract :: "execution_goal_contract \<Rightarrow> structure_report" where
  "validate_execution_goal_contract contract =
     (let st = fold scan_requirement (enumerate 0 (goal_requirements contract)) ([], []);
          st = fold scan_deliverable (enumerate 0 (goal_deliverables contract)) st;
          st = fold scan_coverage (enumerate 0 (goal_coverage contract)) st;
          st = fold scan_constraint (enumerate 0 (goal_constraints contract)) st
      in snd (fold scan_check (enumerate 0 (goal_completion_checks contract)) st))"

text \<open>
  The template of a goal. The known requirement and constraint identifiers are the stable ones; the
  covered constraints are those some check names.
\<close>

definition template_check ::
  "string \<Rightarrow> string list \<Rightarrow> string list \<Rightarrow> nat \<times> completion_check \<Rightarrow> structure_report \<Rightarrow> structure_report" where
  "template_check root requirement_ids constraint_ids indexed r =
     (let (i, check) = indexed; path = index_path (root @ ''.completion_checks'') i;
          r = validate_stable_id (path @ ''.id'') (chk_id check) r;
          r = fold (\<lambda>rid. push_if (rid \<notin> set requirement_ids) (path @ ''.requirement_ids'')) (chk_requirement_ids check) r
      in fold (\<lambda>cid. push_if (cid \<notin> set constraint_ids) (path @ ''.constraint_ids'')) (chk_constraint_ids check) r)"

definition validate_execution_goal_template ::
  "string \<Rightarrow> execution_goal_template \<Rightarrow> structure_report \<Rightarrow> structure_report" where
  "validate_execution_goal_template root goal r =
     (let r = fold (\<lambda>(i, requirement). validate_stable_id (index_path (root @ ''.requirements'') i @ ''.id'') (req_id requirement))
            (enumerate 0 (gt_requirements goal)) r;
          requirement_ids = filter is_stable_id (map req_id (gt_requirements goal));
          r = fold (\<lambda>(i, constraint). validate_stable_id (index_path (root @ ''.constraints'') i @ ''.id'') (con_id constraint))
            (enumerate 0 (gt_constraints goal)) r;
          constraint_ids = filter is_stable_id (map con_id (gt_constraints goal));
          r = fold (template_check root requirement_ids constraint_ids) (enumerate 0 (gt_completion_checks goal)) r;
          covered = filter (\<lambda>c. c \<in> set constraint_ids) (concat (map chk_constraint_ids (gt_completion_checks goal)))
      in fold (\<lambda>constraint. push_if (con_id constraint \<notin> set covered) root) (gt_constraints goal) r)"

section \<open>Task outcomes\<close>

text \<open>\<open>chars().count()\<close> on UTF-8 counts the bytes that do not continue a character.\<close>

definition chars_count :: "string \<Rightarrow> nat" where
  "chars_count s = length (filter (\<lambda>c. \<not> (128 \<le> (of_char c :: nat) \<and> (of_char c :: nat) < 192)) s)"

definition validate_citation :: "nat \<times> execution_citation \<Rightarrow> structure_report \<Rightarrow> structure_report" where
  "validate_citation indexed r =
     (let (i, citation) = indexed; path = index_path ''execution_task_outcome.citations'' i @ ''.source_id'' in
      push_if (512 < chars_count (cit_source_id citation)) path (require_non_empty path (cit_source_id citation) r))"

definition validate_execution_task_outcome :: "execution_task_outcome \<Rightarrow> structure_report" where
  "validate_execution_task_outcome outcome =
     (let r = validate_schema_version ''execution_task_outcome.schema_version'' (out_schema_version outcome) [] in
      case out_result outcome of
        Res_Completed _ citations \<Rightarrow> fold validate_citation (enumerate 0 citations) r
      | _ \<Rightarrow> r)"

end
