(* ===== verification/Plan_Wf.thy ===== *)
theory Plan_Wf
  imports Plan_Structure
begin

text \<open>
  What the structural validation of plans establishes: a report is clean exactly when the plan is
  well formed, and the validation aborts exactly when a skill reference has no canonical text.
\<close>

section \<open>What a clean report means\<close>

text \<open>Well-formed values: every binding is well formed, every reference visible at the node.\<close>

definition wf_reference :: "execution_node \<Rightarrow> string \<Rightarrow> bool" where
  "wf_reference node reference \<longleftrightarrow>
     (case execution_reference_node reference of
        None \<Rightarrow> False
      | Some None \<Rightarrow> True
      | Some (Some nid) \<Rightarrow> nid \<noteq> node_id node \<and> nid \<in> set (node_depends_on node))"

definition wf_binding :: "execution_node \<Rightarrow> bool \<Rightarrow> string \<Rightarrow> json \<Rightarrow> bool" where
  "wf_binding node allow key binding \<longleftrightarrow>
     (if key = ''$ref'' then (case binding of JString reference \<Rightarrow> wf_reference node reference | _ \<Rightarrow> False)
      else allow \<and> binding = JBool True)"

fun wf_value :: "execution_node \<Rightarrow> bool \<Rightarrow> json \<Rightarrow> bool" where
  "wf_value node allow (JArray vs) = (\<forall>v\<in>set vs. wf_value node allow v)"
| "wf_value node allow (JObject obj) =
     (case dynamic_keys obj of
        [] \<Rightarrow> (\<forall>kv\<in>set obj. \<not> starts_with ''$'' (fst kv) \<and> wf_value node allow (snd kv))
      | [key] \<Rightarrow> (case obj of [(_, binding)] \<Rightarrow> wf_binding node allow key binding | _ \<Rightarrow> False)
      | _ \<Rightarrow> False)"
| "wf_value node allow _ = True"

lemma visible_reference_clean [clean_iff]:
  "validate_visible_reference path reference node r = [] \<longleftrightarrow> r = [] \<and> wf_reference node reference"
  by (auto simp: validate_visible_reference_def wf_reference_def clean_iff split: option.splits)

lemma dynamic_binding_clean:
  "key \<in> {''$ref'', ''$item'', ''$item_key''} \<Longrightarrow>
   validate_dynamic_binding path key binding node allow r = [] \<longleftrightarrow> r = [] \<and> wf_binding node allow key binding"
  by (cases binding) (auto simp: validate_dynamic_binding_def wf_binding_def clean_iff)

lemma dynamic_object_clean:
  assumes "dynamic_keys obj \<noteq> []"
  shows "validate_dynamic_value path (JObject obj) node allow r = [] \<longleftrightarrow> r = [] \<and> wf_value node allow (JObject obj)"
proof (cases "length (dynamic_keys obj) = 1 \<and> length obj = 1")
  case True
  with assms obtain key binding where obj: "obj = [(key, binding)]" and keys: "dynamic_keys obj = [key]"
    and key: "key \<in> {''$ref'', ''$item'', ''$item_key''}" by (meson dynamic_keys_cases)
  have "validate_dynamic_value path (JObject obj) node allow r = validate_dynamic_binding path key binding node allow r"
    "wf_value node allow (JObject obj) = wf_binding node allow key binding"
    using keys by (simp_all add: obj_get_def) (simp_all add: obj obj_get_def)
  with dynamic_binding_clean [OF key] show ?thesis by simp
next
  case False
  then have "\<not> wf_value node allow (JObject obj)" using assms by (auto split: list.splits)
  with False assms show ?thesis by (simp add: Let_def clean_iff)
qed

lemma dynamic_value_clean [clean_iff]:
  "validate_dynamic_value path v node allow r = [] \<longleftrightarrow> r = [] \<and> wf_value node allow v"
  "validate_dynamic_elements path i vs node allow r = [] \<longleftrightarrow> r = [] \<and> (\<forall>v\<in>set vs. wf_value node allow v)"
  "validate_dynamic_entries path kvs node allow r = [] \<longleftrightarrow> r = [] \<and> (\<forall>kv\<in>set kvs. wf_value node allow (snd kv))"
proof (induction path v node allow r and path i vs node allow r and path kvs node allow r
    rule: validate_dynamic_value_validate_dynamic_elements_validate_dynamic_entries.induct)
  case (2 path obj node allow r)
  show ?case
  proof (cases "dynamic_keys obj = []")
    case True
    with 2 show ?thesis by (cases "\<exists>kv\<in>set obj. starts_with ''$'' (fst kv)") (auto simp: Let_def clean_iff)
  next
    case False
    then show ?thesis by (rule dynamic_object_clean)
  qed
qed (auto simp: clean_iff)

text \<open>Well-formed operations.\<close>

definition wf_capability :: "capability_reference \<Rightarrow> bool" where
  "wf_capability c \<longleftrightarrow> is_capability_component (cap_name c) 256 \<and> is_capability_version (cap_version c)"

definition wf_agent :: "string \<Rightarrow> artifact_ref list \<Rightarrow> capability_reference list \<Rightarrow> u32 \<Rightarrow> bool" where
  "wf_agent instructions skill_refs capability_refs max_turns \<longleftrightarrow>
     \<not> is_blank instructions \<and> max_turns \<noteq> 0
     \<and> distinct skill_refs \<and> (\<forall>x\<in>set skill_refs. canonical_string x \<noteq> None \<and> artifact_kind_of x = Some Kind_Skill)
     \<and> distinct capability_refs \<and> (\<forall>c\<in>set capability_refs. wf_capability c)"

definition wf_target :: "bool \<Rightarrow> execution_temporal_target \<Rightarrow> bool" where
  "wf_target allow_absolute target \<longleftrightarrow> (case target of At _ \<Rightarrow> allow_absolute | After delay \<Rightarrow> delay \<noteq> 0)"

definition wf_wait_policy :: "execution_node \<Rightarrow> bool \<Rightarrow> execution_wait_policy \<Rightarrow> bool" where
  "wf_wait_policy node allow_absolute policy \<longleftrightarrow>
     wf_target allow_absolute (wp_expiry policy)
     \<and> (case wp_on_expiry policy of FailTask \<Rightarrow> True | ContinueWith output \<Rightarrow> wf_value node False output)"

definition wf_items :: "execution_node \<Rightarrow> json \<Rightarrow> u64 \<Rightarrow> bool" where
  "wf_items node items max_items \<longleftrightarrow>
     wf_value node False items \<and> max_items \<noteq> 0
     \<and> (\<forall>vs. items = JArray vs \<longrightarrow> length vs \<le> unat max_items)"

definition wf_static_keys :: "serde_lib \<Rightarrow> json \<Rightarrow> string \<Rightarrow> bool" where
  "wf_static_keys lib items item_key \<longleftrightarrow>
     (\<forall>vs. items = JArray vs \<longrightarrow>
       (\<exists>ks. map_res (\<lambda>item. extract_map_key lib item item_key) vs = Inr ks \<and> distinct ks))"

definition wf_operation :: "serde_lib \<Rightarrow> execution_node \<Rightarrow> bool \<Rightarrow> bool" where
  "wf_operation lib node allow_absolute \<longleftrightarrow>
     (case node_operation node of
        Op_Capability reference \<Rightarrow> wf_capability reference
      | Op_Agent instructions skill_refs capability_refs max_turns \<Rightarrow>
          wf_agent instructions skill_refs capability_refs max_turns
      | Op_Map items item_key max_items schema task \<Rightarrow>
          wf_items node items max_items \<and> is_json_pointer item_key \<and> as_object schema \<noteq> None
          \<and> wf_static_keys lib items item_key
          \<and> (case task of Map_Capability reference \<Rightarrow> wf_capability reference
             | Map_Agent instructions skill_refs capability_refs max_turns \<Rightarrow>
                 wf_agent instructions skill_refs capability_refs max_turns)
      | Op_Reduce items max_items reducer batch_size \<Rightarrow>
          wf_items node items max_items \<and> 2 \<le> batch_size
          \<and> (case reducer of Red_Capability reference \<Rightarrow> wf_capability reference
             | Red_Agent instructions skill_refs capability_refs max_turns \<Rightarrow>
                 wf_agent instructions skill_refs capability_refs max_turns)
      | Op_Review prompt policy \<Rightarrow> \<not> is_blank prompt \<and> wf_wait_policy node allow_absolute policy
      | Op_WaitSignal signal policy \<Rightarrow> is_capability_component signal 64 \<and> wf_wait_policy node allow_absolute policy
      | Op_WaitUntil wake res \<Rightarrow> wf_target allow_absolute wake \<and> wf_value node False res
      | Op_Output value \<Rightarrow> wf_value node False value)"

lemma capability_reference_clean:
  "validate_capability_reference path c r = [] \<longleftrightarrow> r = [] \<and> wf_capability c"
  by (simp add: clean_iff wf_capability_def)

lemma capability_ref_items_clean:
  "capability_ref_items path i seen refs r = [] \<longleftrightarrow>
     r = [] \<and> (\<forall>c\<in>set refs. wf_capability c) \<and> distinct refs \<and> set refs \<inter> set seen = {}"
  by (induction refs arbitrary: i seen r) (auto simp: capability_reference_clean push_clean)

lemma agent_operation_clean [clean_iff]:
  "validate_agent_operation root instructions skill_refs capability_refs max_turns r = Inr [] \<longleftrightarrow>
     r = [] \<and> wf_agent instructions skill_refs capability_refs max_turns"
  by (auto simp: validate_agent_operation_def wf_agent_def bind_res_eq_Inr identifier_clean(3, 5)
      capability_ref_items_clean unique_refs_clean)

lemma temporal_shape_clean [clean_iff]:
  "validate_temporal_shape root target allow r = [] \<longleftrightarrow> r = [] \<and> wf_target allow target"
  by (auto simp: validate_temporal_shape_def wf_target_def clean_iff split: execution_temporal_target.splits)

lemma policy_shape_clean [clean_iff]:
  "validate_policy_shape root policy node allow r = [] \<longleftrightarrow> r = [] \<and> wf_wait_policy node allow policy"
  by (auto simp: validate_policy_shape_def wf_wait_policy_def Let_def temporal_shape_clean dynamic_value_clean(1)
      split: execution_wait_expiry_action.splits)

lemma exceeds_max_items_iff:
  "exceeds_max_items items max_items \<longleftrightarrow> (\<exists>vs. items = JArray vs \<and> unat max_items < length vs)"
proof (cases items)
  case (JArray vs)
  show ?thesis
  proof (cases "try_from_nat (length vs) :: u64 option")
    case None
    with try_from_nat_eq_None [of "length vs", where ?'a = 64] unat_bound [of max_items]
    have "unat max_items < length vs" by simp
    with None JArray show ?thesis by (simp add: exceeds_max_items_def)
  next
    case (Some n)
    then have "unat n = length vs" by (simp add: try_from_nat_eq_Some)
    with Some JArray show ?thesis by (simp add: exceeds_max_items_def word_less_nat_alt)
  qed
qed (simp_all add: exceeds_max_items_def)

lemma static_keys_clean:
  assumes "is_json_pointer item_key"
  shows "validate_static_map_keys lib root items item_key r = [] \<longleftrightarrow> r = [] \<and> wf_static_keys lib items item_key"
  using assms by (cases items) (auto simp: validate_static_map_keys_def wf_static_keys_def static_key_items_clean)

lemma map_operation_clean:
  "validate_map_operation lib root node items item_key max_items schema task r = Inr [] \<longleftrightarrow>
     r = [] \<and> wf_items node items max_items \<and> is_json_pointer item_key \<and> as_object schema \<noteq> None
       \<and> wf_static_keys lib items item_key
       \<and> (case task of Map_Capability reference \<Rightarrow> wf_capability reference
          | Map_Agent instructions skill_refs capability_refs max_turns \<Rightarrow>
              wf_agent instructions skill_refs capability_refs max_turns)"
proof (cases "is_json_pointer item_key")
  case True
  show ?thesis
    by (cases task) (auto simp: validate_map_operation_def Let_def clean_iff static_keys_clean [OF True] wf_items_def
        wf_capability_def exceeds_max_items_iff not_less as_object_eq)
next
  case False
  have "validate_static_map_keys lib root items item_key (x @ [y]) \<noteq> []" for x y
    using static_map_keys_keeps [of lib root items item_key "x @ [y]"] by auto
  with False show ?thesis
    by (cases task) (auto simp: validate_map_operation_def Let_def clean_iff dest!: static_map_keys_keeps)
qed

lemma reduce_operation_clean:
  "validate_reduce_operation root node items max_items reducer batch_size r = Inr [] \<longleftrightarrow>
     r = [] \<and> wf_items node items max_items \<and> 2 \<le> batch_size
       \<and> (case reducer of Red_Capability reference \<Rightarrow> wf_capability reference
          | Red_Agent instructions skill_refs capability_refs max_turns \<Rightarrow>
              wf_agent instructions skill_refs capability_refs max_turns)"
  by (cases reducer) (auto simp: validate_reduce_operation_def Let_def clean_iff wf_items_def
      wf_capability_def exceeds_max_items_iff not_less)

lemma operation_clean [clean_iff]:
  "validate_operation lib root node allow r = Inr [] \<longleftrightarrow> r = [] \<and> wf_operation lib node allow"
  by (cases "node_operation node")
    (auto simp: validate_operation_def wf_operation_def Let_def clean_iff wf_capability_def
      map_operation_clean reduce_operation_clean)

lemma strict_prefix_eq: "pointer_segments_are_strict_prefix = is_prefix"
  by (simp add: fun_eq_iff pointer_segments_are_strict_prefix_def is_prefix_def)

text \<open>The scan of the bindings, relative to the targets seen before.\<close>

definition scan_of :: "string list \<Rightarrow> compensation_scan \<Rightarrow> bool" where
  "scan_of seen st \<longleftrightarrow>
     set (cs_targets st) = set seen \<and> (\<forall>t\<in>set seen. t \<noteq> [] \<and> is_json_pointer t)
     \<and> set (cs_decoded st) = (\<lambda>t. the (decode_json_pointer_segments t)) ` set seen
     \<and> cs_previous st = (if seen = [] then None else Some (last seen))"

abbreviation apart :: "string \<Rightarrow> string \<Rightarrow> bool" where
  "apart p q \<equiv> incomparable (the (decode_json_pointer_segments p)) (the (decode_json_pointer_segments q))"

definition wf_bindings :: "compensation_input_binding list \<Rightarrow> bool" where
  "wf_bindings bindings \<longleftrightarrow>
     (let targets = map cib_target_pointer bindings in
      (\<forall>t\<in>set targets. t \<noteq> [] \<and> is_json_pointer t) \<and> sorted_wrt apart targets \<and> sorted targets
      \<and> (\<forall>b\<in>set bindings. is_json_pointer (binding_source_pointer (cib_source b))))"

lemma apart_iff:
  assumes "is_json_pointer p" and "is_json_pointer q"
  shows "apart p q \<longleftrightarrow> p \<noteq> q
    \<and> \<not> is_prefix (the (decode_json_pointer_segments p)) (the (decode_json_pointer_segments q))
    \<and> \<not> is_prefix (the (decode_json_pointer_segments q)) (the (decode_json_pointer_segments p))"
proof -
  have "the (decode_json_pointer_segments p) = the (decode_json_pointer_segments q) \<longleftrightarrow> p = q"
    using assms decode_pointer_inj unfolding is_json_pointer_iff by (metis option.collapse)
  then show ?thesis by (simp add: incomparable_def)
qed

lemma apart_sym: "apart p q \<longleftrightarrow> apart q p"
  by (auto simp: incomparable_def)

lemma sorted_snoc: "sorted xs \<Longrightarrow> sorted (xs @ [x]) \<longleftrightarrow> xs = [] \<or> last xs \<le> x" for x :: "'a::linorder"
proof (cases xs rule: rev_cases)
  case (snoc ys y)
  assume "sorted xs"
  with snoc show ?thesis by (auto simp: sorted_append intro: order_trans [of _ y])
qed simp

lemma compensation_bindings_keeps: "compensation_bindings path i st bindings r = [] \<Longrightarrow> r = []"
proof (induction bindings arbitrary: i st r)
  case (Cons b bindings)
  from Cons.IH [OF Cons.prems [unfolded compensation_bindings.simps Let_def]] show ?case
    by (simp add: clean_iff split: if_splits option.splits)
qed simp

lemma compensation_bindings_split:
  "compensation_bindings path i st bindings r = [] \<longleftrightarrow> r = [] \<and> compensation_bindings path i st bindings [] = []"
  using compensation_bindings_keeps by blast

lemma compensation_binding_step:
  assumes st: "scan_of seen st" and seen: "sorted seen"
  shows "compensation_bindings path i st (binding # bindings) r = [] \<longleftrightarrow>
    (let target = cib_target_pointer binding in
     r = [] \<and> target \<noteq> [] \<and> is_json_pointer target \<and> (\<forall>t\<in>set seen. apart t target)
     \<and> sorted (seen @ [target]) \<and> is_json_pointer (binding_source_pointer (cib_source binding))
     \<and> compensation_bindings path (Suc i)
         \<lparr>cs_targets = target # cs_targets st,
          cs_decoded = cs_decoded st @ [the (decode_json_pointer_segments target)],
          cs_previous = Some target\<rparr> bindings [] = [])"
proof (cases "cib_target_pointer binding \<noteq> [] \<and> is_json_pointer (cib_target_pointer binding)")
  case True
  define target where "target = cib_target_pointer binding"
  define segs where "segs = the (decode_json_pointer_segments target)"
  from True have target: "target \<noteq> []" "is_json_pointer target" "decode_json_pointer_segments target = Some segs"
    by (auto simp: target_def segs_def is_json_pointer_iff)
  have apart: "(\<forall>t\<in>set seen. apart t target) \<longleftrightarrow> target \<notin> set (cs_targets st)
      \<and> \<not> (\<exists>existing\<in>set (cs_decoded st). pointer_segments_are_strict_prefix existing segs
          \<or> pointer_segments_are_strict_prefix segs existing)"
    using st target(2) apart_iff [of _ target] by (auto simp: scan_of_def strict_prefix_eq segs_def)
  have order: "sorted (seen @ [target]) \<longleftrightarrow>
      \<not> (case cs_previous st of None \<Rightarrow> False | Some previous \<Rightarrow> target < previous)"
    using st sorted_snoc [OF seen, of target] by (auto simp: scan_of_def)
  show ?thesis
    unfolding compensation_bindings.simps(2) Let_def target_def [symmetric]
    apply (subst compensation_bindings_split)
    using target apart order by (simp add: clean_iff segs_def [symmetric] conj_ac)
next
  case False
  then show ?thesis
    unfolding compensation_bindings.simps(2) Let_def
    by (subst compensation_bindings_split) (auto simp: clean_iff split: option.splits)
qed

lemma compensation_bindings_clean:
  "scan_of seen st \<Longrightarrow> sorted seen \<Longrightarrow> sorted_wrt apart seen \<Longrightarrow>
   compensation_bindings path i st bindings r = [] \<longleftrightarrow>
     r = [] \<and> (\<forall>b\<in>set bindings. cib_target_pointer b \<noteq> [] \<and> is_json_pointer (cib_target_pointer b)
         \<and> is_json_pointer (binding_source_pointer (cib_source b)))
       \<and> sorted_wrt apart (seen @ map cib_target_pointer bindings) \<and> sorted (seen @ map cib_target_pointer bindings)"
proof (induction bindings arbitrary: i st seen r)
  case (Cons b bindings)
  let ?t = "cib_target_pointer b"
  let ?st = "\<lparr>cs_targets = ?t # cs_targets st, cs_decoded = cs_decoded st @ [the (decode_json_pointer_segments ?t)],
    cs_previous = Some ?t\<rparr>"
  show ?case
  proof (cases "?t \<noteq> [] \<and> is_json_pointer ?t \<and> (\<forall>t\<in>set seen. apart t ?t) \<and> sorted (seen @ [?t])")
    case True
    then have "scan_of (seen @ [?t]) ?st" using Cons.prems(1) by (auto simp: scan_of_def)
    moreover have "sorted_wrt apart (seen @ [?t])" using True Cons.prems(3) by (simp add: sorted_wrt_append)
    ultimately have "compensation_bindings path (Suc i) ?st bindings [] = [] \<longleftrightarrow>
        (\<forall>b\<in>set bindings. cib_target_pointer b \<noteq> [] \<and> is_json_pointer (cib_target_pointer b)
         \<and> is_json_pointer (binding_source_pointer (cib_source b)))
       \<and> sorted_wrt apart (seen @ map cib_target_pointer (b # bindings)) \<and> sorted (seen @ map cib_target_pointer (b # bindings))"
      using Cons.IH [of "seen @ [?t]" ?st "Suc i" "[]"] True by simp
    with True show ?thesis
      unfolding compensation_binding_step [OF Cons.prems(1, 2)] Let_def by auto
  next
    case False
    then have "\<not> (?t \<noteq> [] \<and> is_json_pointer ?t \<and> sorted_wrt apart (seen @ ?t # map cib_target_pointer bindings)
        \<and> sorted (seen @ ?t # map cib_target_pointer bindings))"
      by (auto simp: sorted_wrt_append sorted_append)
    with False show ?thesis
      unfolding compensation_binding_step [OF Cons.prems(1, 2)] Let_def by auto
  qed
qed simp

text \<open>Well-formed compensations, nodes and plans.\<close>

definition wf_compensation :: "execution_node \<Rightarrow> bool" where
  "wf_compensation node \<longleftrightarrow>
     (case node_compensation node of
        None \<Rightarrow> True
      | Some compensation \<Rightarrow>
          (\<exists>reference. node_operation node = Op_Capability reference)
          \<and> wf_capability (comp_compensator compensation)
          \<and> comp_input_mapping compensation \<noteq> [] \<and> length (comp_input_mapping compensation) \<le> 64
          \<and> wf_bindings (comp_input_mapping compensation))"

lemma compensation_clean [clean_iff]:
  "validate_execution_compensation root node r = [] \<longleftrightarrow> r = [] \<and> wf_compensation node"
proof (cases "node_compensation node")
  case (Some compensation)
  have start: "scan_of [] \<lparr>cs_targets = [], cs_decoded = [], cs_previous = None\<rparr>" by (simp add: scan_of_def)
  show ?thesis
    using Some
    by (cases "node_operation node")
      (auto simp: validate_execution_compensation_def wf_compensation_def wf_bindings_def Let_def clean_iff
        wf_capability_def compensation_bindings_clean [OF start])
qed (simp add: validate_execution_compensation_def wf_compensation_def)

definition wf_condition :: "execution_node \<Rightarrow> bool" where
  "wf_condition node \<longleftrightarrow>
     (case node_when node of
        None \<Rightarrow> True
      | Some condition \<Rightarrow> \<not> is_output_node node
          \<and> wf_reference node (case condition of Cond_Exists reference \<Rightarrow> reference | Cond_Equals reference _ \<Rightarrow> reference))"

definition is_map_node :: "execution_node \<Rightarrow> bool" where
  "is_map_node node \<longleftrightarrow> (case node_operation node of Op_Map _ _ _ _ _ \<Rightarrow> True | _ \<Rightarrow> False)"

definition wf_node :: "serde_lib \<Rightarrow> string list option \<Rightarrow> bool \<Rightarrow> execution_node \<Rightarrow> bool" where
  "wf_node lib known allow_absolute node \<longleftrightarrow>
     is_stable_id (node_id node)
     \<and> node_requirement_ids node \<noteq> [] \<and> distinct (node_requirement_ids node)
     \<and> (\<forall>rid\<in>set (node_requirement_ids node). is_stable_id rid)
     \<and> distinct (node_depends_on node) \<and> (\<forall>d\<in>set (node_depends_on node). is_stable_id d \<and> d \<noteq> node_id node)
     \<and> (\<forall>ids. known = Some ids \<longrightarrow> set (node_depends_on node) \<subseteq> set ids)
     \<and> wf_condition node \<and> wf_value node (is_map_node node) (node_input node)
     \<and> (\<exists>obj. node_output_schema node = JObject obj)
     \<and> rp_max_attempts (node_retry node) \<noteq> 0 \<and> rp_initial_backoff_ms (node_retry node) \<le> rp_max_backoff_ms (node_retry node)
     \<and> wf_operation lib node allow_absolute \<and> wf_compensation node"

lemma ball_enumerate: "(\<forall>p\<in>set (enumerate 0 xs). P (snd p)) \<longleftrightarrow> (\<forall>x\<in>set xs. P x)"
proof -
  have "set xs = snd ` set (enumerate 0 xs)" by (simp flip: set_map)
  then show ?thesis by simp
qed

lemma dependency_clean:
  "validate_dependency root node known (i, d) r = [] \<longleftrightarrow>
     r = [] \<and> d \<noteq> node_id node \<and> (\<forall>ids. known = Some ids \<longrightarrow> d \<in> set ids)"
  by (cases known) (auto simp: validate_dependency_def Let_def clean_iff)

lemma dependencies_clean:
  "fold (validate_dependency root node known) ds r = [] \<longleftrightarrow>
     r = [] \<and> (\<forall>p\<in>set ds. snd p \<noteq> node_id node \<and> (\<forall>ids. known = Some ids \<longrightarrow> snd p \<in> set ids))"
proof (induction ds arbitrary: r)
  case (Cons d ds)
  then show ?case by (cases d) (simp add: dependency_clean conj_ac)
qed simp

lemma node_condition_clean [clean_iff]:
  "validate_node_condition root node r = [] \<longleftrightarrow> r = [] \<and> wf_condition node"
  by (auto simp: validate_node_condition_def wf_condition_def clean_iff split: option.splits)

lemma node_clean:
  "validate_execution_node lib root node known allow r = Inr [] \<longleftrightarrow> r = [] \<and> wf_node lib known allow node"
proof -
  have deps: "(\<forall>p\<in>set (enumerate 0 (node_depends_on node)). snd p \<noteq> node_id node \<and> (\<forall>ids. known = Some ids \<longrightarrow> snd p \<in> set ids))
      \<longleftrightarrow> (\<forall>d\<in>set (node_depends_on node). d \<noteq> node_id node) \<and> (\<forall>ids. known = Some ids \<longrightarrow> set (node_depends_on node) \<subseteq> set ids)"
    using ball_enumerate [of "node_depends_on node" "\<lambda>d. d \<noteq> node_id node \<and> (\<forall>ids. known = Some ids \<longrightarrow> d \<in> set ids)"]
    by blast
  have scope: "(case node_operation node of Op_Map _ _ _ _ _ \<Rightarrow> True | _ \<Rightarrow> False) = is_map_node node"
    by (simp add: is_map_node_def)
  show ?thesis
    unfolding validate_execution_node_def Let_def scope wf_node_def
    by (simp add: bind_res_eq_Inr clean_iff dependencies_clean deps validate_retry_policy_def not_less) blast
qed

section \<open>Plans\<close>

lemma scan_node_id_new:
  "is_stable_id (node_id node) \<and> node_id node \<notin> set ids \<Longrightarrow>
   scan_node_id root (i, node) (ids, r) =
     (node_id node # ids, validate_stable_id (index_path (root @ ''.nodes'') i @ ''.id'') (node_id node) r)"
  by (simp add: scan_node_id_def Let_def)

lemma scan_node_id_clean:
  "snd (fold (scan_node_id root) (enumerate i nodes) (ids, r)) = [] \<longleftrightarrow>
     r = [] \<and> (\<forall>node\<in>set nodes. is_stable_id (node_id node)) \<and> distinct (map node_id nodes)
       \<and> set ids \<inter> node_id ` set nodes = {}"
proof (induction nodes arbitrary: i ids r)
  case (Cons node nodes)
  show ?case
  proof (cases "is_stable_id (node_id node) \<and> node_id node \<notin> set ids")
    case True
    with scan_node_id_new [OF True] show ?thesis by (auto simp: Cons.IH identifier_clean(1))
  next
    case False
    then have "fst (scan_node_id root (i, node) (ids, r)) = ids" "snd (scan_node_id root (i, node) (ids, r)) \<noteq> []"
      by (auto simp: scan_node_id_def Let_def identifier_clean(1) push_clean(1))
    then obtain e where "scan_node_id root (i, node) (ids, r) = (ids, e)" "e \<noteq> []" by (metis prod.collapse)
    with False show ?thesis by (auto simp: Cons.IH)
  qed
qed auto

lemma scan_node_id_ids:
  "snd (fold (scan_node_id root) (enumerate i nodes) (ids, r)) = [] \<Longrightarrow>
   fst (fold (scan_node_id root) (enumerate i nodes) (ids, r)) = rev (map node_id nodes) @ ids"
proof (induction nodes arbitrary: i ids r)
  case (Cons node nodes)
  from Cons.prems have "is_stable_id (node_id node)" "node_id node \<notin> set ids"
    using scan_node_id_clean [of root i "node # nodes" ids r] by auto
  then have "is_stable_id (node_id node) \<and> node_id node \<notin> set ids" by simp
  from scan_node_id_new [OF this] Cons.IH Cons.prems show ?case by simp
qed simp

lemma fold_res_clean:
  assumes "\<And>x r. f x r = Inr [] \<longleftrightarrow> r = [] \<and> ok x"
  shows "fold_res f xs r = Inr [] \<longleftrightarrow> r = [] \<and> (\<forall>x\<in>set xs. ok x)"
proof (induction xs arbitrary: r)
  case (Cons x xs)
  have "fold_res f (x # xs) r = Inr [] \<longleftrightarrow> (\<exists>m. f x r = Inr m \<and> m = []) \<and> (\<forall>y\<in>set xs. ok y)"
    by (auto simp: bind_res_eq_Inr Cons.IH)
  also have "\<dots> \<longleftrightarrow> (r = [] \<and> ok x) \<and> (\<forall>y\<in>set xs. ok y)" using assms by simp
  finally show ?case by simp
qed auto

text \<open>The references the scope check of conditions looks at.\<close>

fun checked_references :: "json \<Rightarrow> string list" where
  "checked_references (JArray vs) = concat (map checked_references vs)"
| "checked_references (JObject obj) =
     (case (if length obj = 1 then Option.bind (obj_get obj ''$ref'') as_str else None) of
        Some reference \<Rightarrow> [reference]
      | None \<Rightarrow>
          if \<exists>kv\<in>set obj. starts_with ''$'' (fst kv) then []
          else concat (map (\<lambda>kv. checked_references (snd kv)) obj))"
| "checked_references _ = []"

definition avoids :: "string list \<Rightarrow> json \<Rightarrow> bool" where
  "avoids ids v \<longleftrightarrow> (\<forall>reference\<in>set (checked_references v). \<forall>nid. execution_reference_node reference = Some (Some nid) \<longrightarrow> nid \<notin> set ids)"

lemma no_conditional_reference_clean [clean_iff]:
  "no_conditional_reference path v ids r = [] \<longleftrightarrow> r = [] \<and> avoids ids v"
  "no_conditional_reference_elements path i vs ids r = [] \<longleftrightarrow> r = [] \<and> (\<forall>v\<in>set vs. avoids ids v)"
  "no_conditional_reference_entries path kvs ids r = [] \<longleftrightarrow> r = [] \<and> (\<forall>kv\<in>set kvs. avoids ids (snd kv))"
proof (induction path v ids r and path i vs ids r and path kvs ids r
    rule: no_conditional_reference_no_conditional_reference_elements_no_conditional_reference_entries.induct)
  case (2 path obj ids r)
  show ?case
  proof (cases "if length obj = 1 then Option.bind (obj_get obj ''$ref'') as_str else None")
    case None
    with 2 show ?thesis by (auto simp: avoids_def split del: if_split split: if_split_asm)
  next
    case (Some reference)
    then show ?thesis
      by (auto simp: avoids_def clean_iff split del: if_split split: option.splits)
  qed
qed (auto simp: avoids_def)

definition unread_by :: "string list \<Rightarrow> execution_node \<Rightarrow> bool" where
  "unread_by ids node \<longleftrightarrow>
     avoids ids (node_input node)
     \<and> (case node_operation node of
          Op_Map items _ _ _ _ \<Rightarrow> avoids ids items
        | Op_Reduce items _ _ _ \<Rightarrow> avoids ids items
        | Op_Output value \<Rightarrow> avoids ids value
        | Op_WaitUntil _ res \<Rightarrow> avoids ids res
        | _ \<Rightarrow> True)"

definition wf_conditions :: "execution_node list \<Rightarrow> bool" where
  "wf_conditions nodes \<longleftrightarrow>
     (let ids = map node_id (filter (\<lambda>node. node_when node \<noteq> None) nodes) in
      (\<forall>node\<in>set nodes. unread_by ids node)
      \<and> set (requirements_where (\<lambda>node. node_when node \<noteq> None) nodes)
          \<subseteq> set (requirements_where (\<lambda>node. node_when node = None) nodes))"

lemma reads_conditional_clean:
  "node_reads_conditional root ids (i, node) r = [] \<longleftrightarrow> r = [] \<and> unread_by ids node"
  by (cases "node_operation node") (auto simp: node_reads_conditional_def unread_by_def Let_def clean_iff)

lemma fold_clean:
  assumes "\<And>x r. f x r = [] \<longleftrightarrow> r = [] \<and> ok x"
  shows "fold f xs r = [] \<longleftrightarrow> r = [] \<and> (\<forall>x\<in>set xs. ok x)"
  by (induction xs arbitrary: r) (auto simp: assms)

lemma avoids_none: "avoids [] v"
  by (simp add: avoids_def)

lemma plan_condition_scope_clean [clean_iff]:
  "validate_plan_condition_scope root nodes r = [] \<longleftrightarrow> r = [] \<and> wf_conditions nodes"
proof (cases "filter (\<lambda>node. node_when node \<noteq> None) nodes = []")
  case True
  then have "unread_by [] node" for node by (auto simp: unread_by_def avoids_none split: execution_operation.split)
  with True show ?thesis
    by (simp add: validate_plan_condition_scope_def wf_conditions_def requirements_where_def)
next
  case False
  let ?ids = "map node_id (filter (\<lambda>node. node_when node \<noteq> None) nodes)"
  have reads: "fold (node_reads_conditional root ?ids) (enumerate 0 nodes) r = [] \<longleftrightarrow> r = [] \<and> (\<forall>node\<in>set nodes. unread_by ?ids node)"
    using fold_clean [of "node_reads_conditional root ?ids" "\<lambda>p. unread_by ?ids (snd p)" "enumerate 0 nodes" r]
      ball_enumerate [of nodes "unread_by ?ids"] reads_conditional_clean by auto
  show ?thesis
    using False unfolding validate_plan_condition_scope_def Let_def wf_conditions_def
    by (simp add: fold_push_clean reads del: not_None_eq) blast
qed

definition wf_plan :: "serde_lib \<Rightarrow> bool \<Rightarrow> execution_plan_definition \<Rightarrow> bool" where
  "wf_plan lib allow_absolute plan \<longleftrightarrow>
     (\<exists>obj. plan_input_schema plan = JObject obj) \<and> (\<exists>obj. plan_output_schema plan = JObject obj)
     \<and> distinct (map node_id (plan_nodes plan))
     \<and> (\<forall>node\<in>set (plan_nodes plan). wf_node lib (Some (map node_id (plan_nodes plan))) allow_absolute node)
     \<and> acyclic {(b, a). \<exists>node\<in>set (plan_nodes plan). node_id node = a \<and> b \<in> set (node_depends_on node)}
     \<and> (\<exists>i. single_output (plan_nodes plan) i)
     \<and> wf_conditions (plan_nodes plan)"

lemma wf_node_known: "set ids = set ids' \<Longrightarrow> wf_node lib (Some ids) allow node = wf_node lib (Some ids') allow node"
  by (simp add: wf_node_def)

lemma dag_order_plan:
  assumes "\<forall>node\<in>set nodes. set (node_depends_on node) \<subseteq> node_id ` set nodes" and "set ids = node_id ` set nodes"
  shows "dag_order (dag_edges nodes ids) =
    {(b, a). \<exists>node\<in>set nodes. node_id node = a \<and> b \<in> set (node_depends_on node)}"
  using assms unfolding dag_order_def dag_edges_iff by auto

text \<open>The identifiers in any order, and the edges between them.\<close>

lemma wf_plan_ids:
  assumes "set ids = node_id ` set (plan_nodes plan)"
  shows "(\<forall>node\<in>set (plan_nodes plan). wf_node lib (Some ids) allow node)
      \<and> acyclic (dag_order (dag_edges (plan_nodes plan) ids)) \<longleftrightarrow>
    (\<forall>node\<in>set (plan_nodes plan). wf_node lib (Some (map node_id (plan_nodes plan))) allow node)
      \<and> acyclic {(b, a). \<exists>node\<in>set (plan_nodes plan). node_id node = a \<and> b \<in> set (node_depends_on node)}"
proof -
  have known: "wf_node lib (Some ids) allow = wf_node lib (Some (map node_id (plan_nodes plan))) allow"
    by (rule ext, rule wf_node_known) (simp add: assms)
  have "dag_order (dag_edges (plan_nodes plan) ids) =
      {(b, a). \<exists>node\<in>set (plan_nodes plan). node_id node = a \<and> b \<in> set (node_depends_on node)}"
    if "\<forall>node\<in>set (plan_nodes plan). wf_node lib (Some ids) allow node"
    by (rule dag_order_plan) (use that assms in \<open>auto simp: wf_node_def\<close>)
  then show ?thesis
    unfolding known by (cases "\<forall>node\<in>set (plan_nodes plan). wf_node lib (Some (map node_id (plan_nodes plan))) allow node") (simp, blast)
qed

lemma plan_at_clean:
  "validate_execution_plan_at lib root plan allow r = Inr [] \<longleftrightarrow> r = [] \<and> wf_plan lib allow plan"
proof -
  let ?nodes = "plan_nodes plan"
  let ?r = "validate_json_schema (root @ ''.output_schema'') (plan_output_schema plan)
    (validate_json_schema (root @ ''.input_schema'') (plan_input_schema plan) r)"
  obtain ids e where scan: "fold (scan_node_id root) (enumerate 0 ?nodes) ([], ?r) = (ids, e)" by fastforce
  have nodes: "fold_res (\<lambda>(i, node). validate_execution_node lib (index_path (root @ ''.nodes'') i) node (Some ids) allow)
        (enumerate 0 ?nodes) e = Inr [] \<longleftrightarrow> e = [] \<and> (\<forall>node\<in>set ?nodes. wf_node lib (Some ids) allow node)"
    by (subst fold_res_clean [where ok = "\<lambda>p. wf_node lib (Some ids) allow (snd p)"])
      (auto simp: node_clean ball_enumerate split_def)
  have clean: "e = [] \<longleftrightarrow> ?r = [] \<and> (\<forall>node\<in>set ?nodes. is_stable_id (node_id node)) \<and> distinct (map node_id ?nodes)"
    using scan_node_id_clean [of root 0 ?nodes "[]" ?r] scan by simp
  show ?thesis
  proof (cases "e = []")
    case True
    then have ids: "ids = rev (map node_id ?nodes)" using scan_node_id_ids [of root 0 ?nodes "[]" ?r] scan by simp
    have dag: "validate_execution_dag root ?nodes ids x = [] \<longleftrightarrow> x = [] \<and> acyclic (dag_order (dag_edges ?nodes ids))" for x
      using True clean ids by (intro execution_dag_clean) simp
    have "validate_execution_plan_at lib root plan allow r = Inr [] \<longleftrightarrow> (\<forall>node\<in>set ?nodes. wf_node lib (Some ids) allow node)
        \<and> acyclic (dag_order (dag_edges ?nodes ids)) \<and> (\<exists>i. single_output ?nodes i) \<and> wf_conditions ?nodes"
      unfolding validate_execution_plan_at_def Let_def scan prod.case bind_res_eq_Inr
      using nodes True by (auto simp: dag terminal_output_clean plan_condition_scope_clean)
    also have "\<dots> \<longleftrightarrow> r = [] \<and> wf_plan lib allow plan"
      using True clean wf_plan_ids [of ids plan lib allow] ids unfolding wf_plan_def json_clean(1) by auto
    finally show ?thesis .
  next
    case False
    then have "\<not> (r = [] \<and> wf_plan lib allow plan)"
      unfolding clean wf_plan_def wf_node_def by (auto simp: json_clean(1))
    moreover have "validate_execution_plan_at lib root plan allow r \<noteq> Inr []"
      unfolding validate_execution_plan_at_def Let_def scan prod.case bind_res_eq_Inr
      using False nodes by (auto simp: validate_execution_dag_def clean_iff)
    ultimately show ?thesis by blast
  qed
qed

section \<open>When the validation aborts\<close>

definition unprintable :: "artifact_ref list \<Rightarrow> bool" where
  "unprintable refs \<longleftrightarrow> (\<exists>x\<in>set refs. canonical_string x = None)"

definition node_skills :: "execution_node \<Rightarrow> artifact_ref list" where
  "node_skills node = map snd (node_skill_refs [] node)"

lemma append_skill_refs_snd: "map snd (append_skill_refs path refs) = refs"
  by (simp add: append_skill_refs_def split_def comp_def)

lemma node_skills_of: "map snd (node_skill_refs path node) = node_skills node"
  by (cases "node_operation node")
    (simp_all add: node_skills_def node_skill_refs_def append_skill_refs_snd split: map_task.splits execution_reducer.splits)

lemma node_skills_eq:
  "node_skills node =
     (case node_operation node of
        Op_Agent _ skill_refs _ _ \<Rightarrow> skill_refs
      | Op_Map _ _ _ _ (Map_Agent _ skill_refs _ _) \<Rightarrow> skill_refs
      | Op_Reduce _ _ (Red_Agent _ skill_refs _ _) _ \<Rightarrow> skill_refs
      | _ \<Rightarrow> [])"
  by (cases "node_operation node")
    (simp_all add: node_skills_def node_skill_refs_def append_skill_refs_snd split: map_task.splits execution_reducer.splits)

lemma agent_operation_aborts:
  "validate_agent_operation root instructions skill_refs capability_refs max_turns r = Inl e \<longleftrightarrow>
     e = Panic \<and> unprintable skill_refs"
  using ref_list_aborts
  by (auto simp: validate_agent_operation_def bind_res_eq_Inl validate_non_empty_unique_refs_def unprintable_def)

lemma node_aborts:
  "validate_execution_node lib root node known allow r = Inl e \<longleftrightarrow> e = Panic \<and> unprintable (node_skills node)"
proof -
  have operation: "validate_operation lib root node allow m = Inl e \<longleftrightarrow> e = Panic \<and> unprintable (node_skills node)" for m
    by (cases "node_operation node")
      (auto simp: validate_operation_def validate_map_operation_def validate_reduce_operation_def Let_def
        agent_operation_aborts node_skills_eq unprintable_def
        split: map_task.splits execution_reducer.splits)
  show ?thesis
    unfolding validate_execution_node_def Let_def bind_res_eq_Inl by (simp add: operation)
qed

lemma fold_res_aborts:
  assumes "\<And>x r e. f x r = Inl e \<longleftrightarrow> e = Panic \<and> bad x"
  shows "fold_res f xs r = Inl e \<longleftrightarrow> e = Panic \<and> (\<exists>x\<in>set xs. bad x)"
proof (induction xs arbitrary: r)
  case (Cons x xs)
  show ?case
  proof (cases "f x r")
    case (Inr m)
    then have "\<not> bad x" using assms [of x r Panic] by simp
    with Inr show ?thesis by (simp add: Cons.IH)
  next
    case (Inl e')
    then have "e' = Panic \<and> bad x" using assms [of x r e'] by simp
    with Inl show ?thesis by auto
  qed
qed simp

lemma plan_skills:
  "(\<exists>reference\<in>snd ` set (skill_reference_paths plan root). canonical_string reference = None) \<longleftrightarrow>
     (\<exists>node\<in>set (plan_nodes plan). unprintable (node_skills node))"
proof -
  have img: "snd ` set (node_skill_refs path node) = set (node_skills node)" for path node
    by (metis node_skills_of set_map)
  have "snd ` set (skill_reference_paths plan root) =
      (\<Union>p\<in>set (enumerate 0 (plan_nodes plan)). set (node_skills (snd p)))"
    unfolding skill_reference_paths_def
    by (simp add: split_def image_UN img)
  moreover have "(\<exists>p\<in>set (enumerate 0 (plan_nodes plan)). unprintable (node_skills (snd p))) \<longleftrightarrow>
      (\<exists>node\<in>set (plan_nodes plan). unprintable (node_skills node))"
    using ball_enumerate [of "plan_nodes plan" "\<lambda>node. \<not> unprintable (node_skills node)"] by blast
  ultimately show ?thesis by (auto simp: unprintable_def)
qed

lemma plan_at_aborts:
  "validate_execution_plan_at lib root plan allow r = Inl e \<longleftrightarrow>
     e = Panic \<and> (\<exists>node\<in>set (plan_nodes plan). unprintable (node_skills node))"
proof -
  have "fold_res (\<lambda>(i, node). validate_execution_node lib (index_path (root @ ''.nodes'') i) node known allow)
      (enumerate 0 (plan_nodes plan)) m = Inl e \<longleftrightarrow>
      e = Panic \<and> (\<exists>p\<in>set (enumerate 0 (plan_nodes plan)). unprintable (node_skills (snd p)))" for known m
    by (rule fold_res_aborts) (auto simp: node_aborts)
  moreover have "(\<exists>p\<in>set (enumerate 0 (plan_nodes plan)). unprintable (node_skills (snd p))) \<longleftrightarrow>
      (\<exists>node\<in>set (plan_nodes plan). unprintable (node_skills node))"
    using ball_enumerate [of "plan_nodes plan" "\<lambda>node. \<not> unprintable (node_skills node)"] by blast
  ultimately show ?thesis
    unfolding validate_execution_plan_at_def Let_def split_beta bind_res_eq_Inl by simp
qed

section \<open>Properties\<close>


text \<open>C34: The structural validation of a plan aborts, and does so exactly when a skill reference of an
  agent, a map task or a reducer has no canonical text; in every other case it returns a report.
  So the error for an empty reference target is never reported for a plan.\<close>

theorem plan_validation_aborts:
  "validate_execution_plan_definition lib plan = Inl e \<longleftrightarrow>
     e = Panic \<and> (\<exists>reference\<in>snd ` set (skill_reference_paths plan root). canonical_string reference = None)"
  unfolding validate_execution_plan_definition_def plan_at_aborts plan_skills by simp

end
