(* ===== verification/Plan_Guarantees.thy ===== *)
theory Plan_Guarantees
  imports Plan_Wf Node_Pages Wait_Feasibility
begin

text \<open>
  What structural validation guarantees to the components that rely on it: the interpreter resolves
  the values of a validated plan without going wrong, the compensation mapping of a validated node
  can be built, and the acyclicity check agrees with the relaxation of waits in the compiler.
\<close>

section \<open>Values\<close>

lemma wf_value_safe:
  assumes "wf_value node allow v" and "reads_node node context" and "allow \<longrightarrow> map_variables context"
  shows "stops_at_absent context (value_references v) (resolve_bindings v context)"
  using dynamic_value_safe(1) [OF assms(2, 3), of "[]" v "[]"] assms(1)
  by (simp add: dynamic_value_clean resolve_bindings_def)

text \<open>The values an operation resolves.\<close>

definition operation_values :: "execution_operation \<Rightarrow> json list" where
  "operation_values operation =
     (case operation of
        Op_Map items _ _ _ _ \<Rightarrow> [items]
      | Op_Reduce items _ _ _ \<Rightarrow> [items]
      | Op_Review _ policy \<Rightarrow> (case wp_on_expiry policy of ContinueWith output \<Rightarrow> [output] | FailTask \<Rightarrow> [])
      | Op_WaitSignal _ policy \<Rightarrow> (case wp_on_expiry policy of ContinueWith output \<Rightarrow> [output] | FailTask \<Rightarrow> [])
      | Op_WaitUntil _ res \<Rightarrow> [res]
      | Op_Output value \<Rightarrow> [value]
      | _ \<Rightarrow> [])"

lemma wf_operation_values:
  "wf_operation lib node allow \<Longrightarrow> v \<in> set (operation_values (node_operation node)) \<Longrightarrow> wf_value node False v"
  by (auto simp: wf_operation_def operation_values_def wf_items_def wf_wait_policy_def
      split: execution_operation.splits execution_wait_expiry_action.splits)

lemma wf_condition_evaluates:
  assumes "wf_condition node" and "node_when node = Some condition" and "reads_node node context"
  shows "is_ok (evaluate_condition condition context)"
proof -
  have "is_ok (try_resolve_reference reference context)" if "wf_reference node reference" for reference
    using visible_reference_resolves [OF _ assms(3), of "[]" reference "[]"] that by (simp add: visible_reference_clean)
  then have "\<exists>res. try_resolve_reference reference context = Inr res" if "wf_reference node reference" for reference
    using that by (simp add: is_ok_iff)
  with assms(1, 2) show ?thesis
    by (cases condition) (fastforce simp: wf_condition_def evaluate_condition_def is_ok_iff)+
qed

lemma node_context_reads:
  "reads_node node (node_context request node outputs)"
  "reads_node node (node_context request node outputs\<lparr>bc_item := i, bc_item_key := k\<rparr>)"
  by (simp_all add: reads_node_def node_context_def)

text \<open>C35: A validated plan cannot go wrong on its bindings. At every node, evaluating its condition never
  fails; resolving its input (with the item and key of a map item, when it is a map node) and the
  values of its operation either returns a value, and does so exactly when every reference in the
  value is present, or fails on a reference that is well formed but absent from the outputs.\<close>

theorem validated_values_resolve:
  assumes "validate_execution_plan_definition lib plan = Inr []" and "node \<in> set (plan_nodes plan)"
  shows "(\<forall>condition. node_when node = Some condition \<longrightarrow>
        is_ok (evaluate_condition condition (node_context request node outputs)))
    \<and> (\<forall>v\<in>set (operation_values (node_operation node)).
        stops_at_absent (node_context request node outputs) (value_references v)
          (resolve_bindings v (node_context request node outputs)))
    \<and> (is_map_node node \<longrightarrow>
        (let context = (node_context request node outputs)\<lparr>bc_item := Some item, bc_item_key := Some key\<rparr> in
         stops_at_absent context (value_references (node_input node)) (resolve_bindings (node_input node) context)))
    \<and> (\<not> is_map_node node \<longrightarrow>
        stops_at_absent (node_context request node outputs) (value_references (node_input node))
          (resolve_bindings (node_input node) (node_context request node outputs)))"
proof -
  from assms have "wf_node lib (Some (map node_id (plan_nodes plan))) True node"
    unfolding validate_execution_plan_definition_def plan_at_clean by (simp add: wf_plan_def)
  then have wf: "wf_condition node" "wf_operation lib node True" "wf_value node (is_map_node node) (node_input node)"
    by (simp_all add: wf_node_def)
  show ?thesis
    using wf(3) wf_condition_evaluates [OF wf(1) _ node_context_reads(1)]
      wf_operation_values [OF wf(2)] wf_value_safe [where allow = False, OF _ node_context_reads(1)]
      wf_value_safe [OF _ node_context_reads(2), of node True "node_input node"]
    by (auto simp: map_variables_def Let_def)
qed

text \<open>A capability node and the output that reads its field.\<close>

definition reading_plan :: execution_plan_definition where
  "reading_plan = sample_plan\<lparr>plan_nodes :=
     [(sample_node ''a'' [] (Op_Capability \<lparr>cap_name = ''a'', cap_version = ''1''\<rparr>))\<lparr>node_requirement_ids := [''r'']\<rparr>,
      (sample_node ''b'' [''a''] (Op_Output (JObject [(''$ref'', JString ''$.nodes.a.output.f'')])))\<lparr>node_requirement_ids := [''r'']\<rparr>]\<rparr>"

lemma reading_plan_valid: "validate_execution_plan_definition sample_lib reading_plan = Inr []"
  by code_simp

theorem validated_values_resolve_witness:
  "\<forall>request :: schedule_request.
     resolve_bindings (JObject [(''$ref'', JString ''$.nodes.a.output.f'')])
       (node_context request (plan_nodes reading_plan ! 1) [(''a'', JObject [])])
     = Inl (Err_Binding ''$.nodes.a.output.f'')"
proof
  fix request :: schedule_request
  let ?node = "plan_nodes reading_plan ! 1"
  have node: "?node \<in> set (plan_nodes reading_plan)" "\<not> is_map_node ?node"
    "set (operation_values (node_operation ?node)) = {JObject [(''$ref'', JString ''$.nodes.a.output.f'')]}"
    by code_simp+
  have refs: "value_references (JObject [(''$ref'', JString ''$.nodes.a.output.f'')]) = [''$.nodes.a.output.f'']" by code_simp
  have absent: "\<not> reference_present (node_context request ?node [(''a'', JObject [])]) ''$.nodes.a.output.f''"
  proof -
    have "node_depends_on ?node = [''a'']" by code_simp
    moreover have "strip_prefix ''$.input'' ''$.nodes.a.output.f'' = None"
      "strip_prefix ''$.nodes.'' ''$.nodes.a.output.f'' = Some ''a.output.f''"
      "split_once ''.output'' ''a.output.f'' = Some (''a'', ''.f'')"
      "lookup_tail (JObject []) ''.f'' ''$.nodes.a.output.f'' = Inr None" by code_simp+
    ultimately show ?thesis
      by (simp add: reference_present_def try_resolve_reference_def node_context_def ok_or_def)
  qed
  have "stops_at_absent (node_context request ?node [(''a'', JObject [])]) [''$.nodes.a.output.f'']
      (resolve_bindings (JObject [(''$ref'', JString ''$.nodes.a.output.f'')]) (node_context request ?node [(''a'', JObject [])]))"
    using validated_values_resolve [OF reading_plan_valid node(1), of request "[(''a'', JObject [])]"] node(3)
    unfolding refs [symmetric] by blast
  with absent show "resolve_bindings (JObject [(''$ref'', JString ''$.nodes.a.output.f'')])
      (node_context request ?node [(''a'', JObject [])]) = Inl (Err_Binding ''$.nodes.a.output.f'')"
    by (simp add: stops_at_absent_def split: sum.splits)
qed

section \<open>Compensations\<close>

lemma wf_bindings_decode:
  assumes "wf_bindings bs" and "\<forall>b\<in>set bs. cib_target_pointer b \<noteq> ''/''"
  shows "map_res decode_binding bs = Inr (map (\<lambda>b. the (decode_json_pointer_segments (cib_target_pointer b))) bs)"
proof -
  have "decode_binding b = Inr (the (decode_json_pointer_segments (cib_target_pointer b)))" if "b \<in> set bs" for b
    using assms that by (auto simp: wf_bindings_def Let_def decode_target_eq ok_or_def is_json_pointer_iff)
  then show ?thesis unfolding map_res_eq_Inr by (auto simp: list_all2_conv_all_nth)
qed

lemma bare_slash_fails:
  assumes "b \<in> set bs" and "cib_target_pointer b = ''/''"
  shows "map_compensation_input lib bs fi fo \<noteq> Inr mapped"
proof -
  have "map_res decode_binding bs \<noteq> Inr ts" for ts
    using assms unfolding map_res_eq_Inr by (auto simp: list_all2_conv_all_nth in_set_conv_nth decode_target_eq)
  then show ?thesis by (auto simp: map_compensation_input_def bind_res_eq_Inr decode_targets_eq)
qed

text \<open>C36: The compensation mapping of a validated node can be built at run time if and only if no target is
  the bare slash and every source pointer resolves in the persisted values: validation rules out
  every other failure. The bare slash passes validation (it selects the empty key) and always fails
  at run time.\<close>

theorem validated_compensation_builds:
  assumes "validate_execution_plan_definition slib plan = Inr []" and "node \<in> set (plan_nodes plan)"
    and "node_compensation node = Some compensation"
  shows "(\<exists>mapped. map_compensation_input lib (comp_input_mapping compensation) fi fo = Inr mapped) \<longleftrightarrow>
    (\<forall>b\<in>set (comp_input_mapping compensation).
       cib_target_pointer b \<noteq> ''/'' \<and> is_ok (source_value lib fi fo (cib_source b)))"
proof (cases "\<forall>b\<in>set (comp_input_mapping compensation). cib_target_pointer b \<noteq> ''/''")
  case True
  from assms have wf: "wf_bindings (comp_input_mapping compensation)"
    unfolding validate_execution_plan_definition_def plan_at_clean
    by (auto simp: wf_plan_def wf_node_def wf_compensation_def)
  then have "sorted_wrt incomparable (map (\<lambda>b. the (decode_json_pointer_segments (cib_target_pointer b))) (comp_input_mapping compensation))"
    by (simp add: wf_bindings_def Let_def sorted_wrt_map)
  with compensation_input_built [OF wf_bindings_decode [OF wf True], of lib fi fo] True show ?thesis by blast
next
  case False
  with bare_slash_fails [of _ "comp_input_mapping compensation" lib fi fo] show ?thesis by blast
qed

section \<open>Cycles\<close>

text \<open>A relation that holds exactly between the dependencies of a list of nodes.\<close>

definition depends_in :: "execution_node list \<Rightarrow> (string \<times> string) set \<Rightarrow> bool" where
  "depends_in nodes r \<longleftrightarrow>
     (\<forall>a b. (b, a) \<in> r \<longleftrightarrow> b \<in> node_id ` set nodes \<and> (\<exists>n\<in>set nodes. node_id n = a \<and> b \<in> set (node_depends_on n)))"

lemma wf_not_stuck:
  assumes "depends_in nodes r" and "wf r" and "S \<subseteq> set nodes"
  shows "\<not> stuck_set S"
proof
  assume S: "stuck_set S"
  then obtain n where "n \<in> S" by (auto simp: stuck_set_def)
  then obtain z where z: "z \<in> node_id ` S" "\<And>y. (y, z) \<in> r \<Longrightarrow> y \<notin> node_id ` S"
    using wfE_min [OF assms(2), of "node_id n" "node_id ` S"] by blast
  then obtain k where k: "k \<in> S" "node_id k = z" by blast
  then obtain m where m: "m \<in> S" "node_id m \<in> set (node_depends_on k)" using S by (auto simp: stuck_set_def)
  with k assms(1, 3) have "(node_id m, z) \<in> r" unfolding depends_in_def by blast
  with z(2) m(1) show False by blast
qed

lemma unfounded_stuck:
  assumes r: "depends_in nodes r" and ids: "inj_on node_id (set nodes)"
    and Q: "x \<in> Q" "\<And>z. z \<in> Q \<Longrightarrow> \<exists>y\<in>Q. (y, z) \<in> r"
  shows "stuck_set {n \<in> set nodes. node_id n \<in> Q}"
proof -
  have edge: "b \<in> node_id ` set nodes \<and> (\<exists>n\<in>set nodes. node_id n = a \<and> b \<in> set (node_depends_on n))" if "(b, a) \<in> r" for a b
    using r that by (simp add: depends_in_def)
  obtain y where y: "y \<in> Q" "(y, x) \<in> r" using Q by blast
  from edge [OF y(2)] y(1) have "{n \<in> set nodes. node_id n \<in> Q} \<noteq> {}" by auto
  moreover have "\<exists>m\<in>{n \<in> set nodes. node_id n \<in> Q}. node_id m \<in> set (node_depends_on n)"
    if n: "n \<in> set nodes" "node_id n \<in> Q" for n
  proof -
    obtain z where z: "z \<in> Q" "(z, node_id n) \<in> r" using Q(2) [OF n(2)] by blast
    from edge [OF z(2)] obtain m k where k: "m \<in> set nodes" "node_id m = z" "k \<in> set nodes" "node_id k = node_id n" "z \<in> set (node_depends_on k)"
      by auto
    from inj_onD [OF ids k(4) k(3) n(1)] k z(1) show ?thesis by auto
  qed
  ultimately show ?thesis by (simp add: stuck_set_def)
qed

lemma acyclic_no_stuck:
  assumes "distinct (map node_id nodes)"
  shows "acyclic (dag_order (dag_edges nodes (map node_id nodes))) \<longleftrightarrow> \<not> (\<exists>S\<subseteq>set nodes. stuck_set S)"
proof -
  define r where "r = dag_order (dag_edges nodes (map node_id nodes))"
  have r: "depends_in nodes r"
    unfolding depends_in_def r_def dag_order_def by (simp add: dag_edges_iff) blast
  have "finite r"
    unfolding r_def by (rule finite_subset [of _ "(\<lambda>(a, b). (b, a)) ` set (dag_edges nodes (map node_id nodes))"])
      (auto simp: dag_order_def image_iff)
  then have acyclic: "acyclic r \<longleftrightarrow> wf r" using finite_acyclic_wf wf_acyclic by blast
  have "wf r" if none: "\<not> (\<exists>S\<subseteq>set nodes. stuck_set S)"
  proof (rule wfI_min)
    fix x :: string and Q :: "string set" assume "x \<in> Q"
    show "\<exists>z\<in>Q. \<forall>y. (y, z) \<in> r \<longrightarrow> y \<notin> Q"
    proof (rule ccontr)
      assume "\<not> (\<exists>z\<in>Q. \<forall>y. (y, z) \<in> r \<longrightarrow> y \<notin> Q)"
      then have "\<exists>y\<in>Q. (y, z) \<in> r" if "z \<in> Q" for z using that by blast
      from unfounded_stuck [OF r _ \<open>x \<in> Q\<close> this] assms none show False by (auto simp: distinct_map)
    qed
  qed
  with wf_not_stuck [OF r] acyclic show ?thesis unfolding r_def [symmetric] by blast
qed

text \<open>C37: The two cycle checks agree. For distinct node identifiers the acyclicity check of the artifact
  validation, in whatever order its hash map is iterated, counts every node if and only if the
  compiler's relaxation of declared waits has an answer; so a plan that passed validation never
  fails the relaxation, and conversely.\<close>

theorem cycle_checks_agree:
  assumes "distinct (map node_id (plan_nodes plan))"
    and "set order = node_id ` set (plan_nodes plan)" and "distinct order"
  shows "dag_visit_count (plan_nodes plan) (map node_id (plan_nodes plan)) order = length (plan_nodes plan) \<longleftrightarrow>
    relax_declared_waits ch plan projection now \<noteq> None"
proof -
  have "dag_visit_count (plan_nodes plan) (map node_id (plan_nodes plan)) order = length (plan_nodes plan) \<longleftrightarrow>
      acyclic (dag_order (dag_edges (plan_nodes plan) (map node_id (plan_nodes plan))))"
    using dag_loop_exact [of order "map node_id (plan_nodes plan)" "plan_nodes plan"] assms by auto
  then show ?thesis
    unfolding acyclic_no_stuck [OF assms(1)] using relax_declared_waits_None [OF assms(1), of ch projection now] by simp
qed

section \<open>Witnesses\<close>

definition undo_plan :: execution_plan_definition where
  "undo_plan = reading_plan\<lparr>plan_nodes :=
     [(plan_nodes reading_plan ! 0)\<lparr>node_compensation := Some
        \<lparr>comp_compensator = \<lparr>cap_name = ''undo'', cap_version = ''1''\<rparr>,
         comp_input_mapping = [\<lparr>cib_target_pointer = ''/a/b'', cib_source = OriginalInput []\<rparr>,
           \<lparr>cib_target_pointer = ''/a/c'', cib_source = OriginalOutput []\<rparr>]\<rparr>\<rparr>,
      plan_nodes reading_plan ! 1]\<rparr>"

theorem validated_compensation_builds_witness:
  "\<exists>mapped. map_compensation_input sample_exec_lib
     (comp_input_mapping (the (node_compensation (plan_nodes undo_plan ! 0)))) JNull (JBool True) = Inr mapped"
proof -
  have valid: "validate_execution_plan_definition sample_lib undo_plan = Inr []" by code_simp
  have node: "plan_nodes undo_plan ! 0 \<in> set (plan_nodes undo_plan)"
    "node_compensation (plan_nodes undo_plan ! 0) = Some (the (node_compensation (plan_nodes undo_plan ! 0)))"
    by code_simp+
  show ?thesis
    unfolding validated_compensation_builds [OF valid node] by code_simp
qed

theorem cycle_checks_agree_witness:
  "relax_declared_waits sample_chrono sample_waits None 0 \<noteq> None
    \<and> dag_visit_count (plan_nodes sample_waits) [''b'', ''a''] [''a'', ''b''] = 2"
proof -
  have ids: "distinct (map node_id (plan_nodes sample_waits))" "set [''a'', ''b''] = node_id ` set (plan_nodes sample_waits)"
    "map node_id (plan_nodes sample_waits) = [''b'', ''a'']" "length (plan_nodes sample_waits) = 2"
    by code_simp+
  have count: "dag_visit_count (plan_nodes sample_waits) [''b'', ''a''] [''a'', ''b''] = 2" by code_simp
  with cycle_checks_agree [OF ids(1, 2), of sample_chrono None 0] ids(3, 4) show ?thesis by simp
qed

end
