(* ===== verification/Spec2Isabelle.thy ===== *)
theory Spec2Isabelle
  imports Ledger_Lifecycle Task_Lifecycle Plan_Estimate Compensation Wait_Feasibility Condition_Scope Plan_Guarantees
begin

text \<open>
  A verification library for the pure execution core of MOA, a platform that runs goals of language
  models as checked plans. The paths below are under \<open>src/crates/\<close>.

  \<^bold>\<open>The program.\<close> A goal contract and a plan (a graph of nodes with dependencies, data bindings,
  conditions, waits and compensations; \<open>moa-artifacts/src/execution_plan.rs\<close>) are validated
  structurally (\<open>moa-artifacts/src/validation.rs\<close>), compiled against a frozen capability catalog, a
  configuration and a budget (\<open>moa-execution/src/compiler\<close>), and then interpreted: the scheduler
  materializes bounded pages of logical tasks (\<open>moa-execution/src/interpreter\<close>), each task reserves
  its worst case in the run's budget ledger (\<open>budget.rs\<close>) and settles its usage when its outcome is
  recorded (\<open>state.rs\<close>). Everything that is stored or compared goes through canonical JSON
  (\<open>moa-core/src/canonical_json.rs\<close>), stable references (\<open>moa-artifacts/src/reference.rs\<close>) and
  domain-separated hashes (\<open>capability.rs\<close>). These parts are pure functions; the repository, the
  orchestrator and the services around them do input and output and call these functions.

  \<^bold>\<open>Conventions.\<close> \<open>u64\<close>, \<open>u32\<close> and \<open>u8\<close> are words of that width, with the checked, saturating
  and wrapping operations of Rust written out in \<open>Moa_Prelude\<close>; lengths are natural numbers and are
  converted where the code converts them. A \<open>Result\<close> is the sum type \<open>result\<close> with \<open>Inl\<close> the error;
  the error \<open>Panic\<close> stands for a Rust panic, so that an abort is a value of the model. Strings are
  lists of UTF-8 bytes. A \<open>HashMap\<close> or \<open>HashSet\<close> whose iteration order is visible is a list in an
  arbitrary order and the theorems hold for every order. What other packages compute (JSON
  printing, BLAKE3, UUIDs, calendar arithmetic, the JSON Schema engine) is a record of functions
  \<open>serde_lib\<close>, \<open>exec_lib\<close>, \<open>uuid_lib\<close> or \<open>chrono_lib\<close> passed to the definitions that use it; what
  the theorems need of these functions is a named predicate over the record, and each theorem with
  such a hypothesis comes with an instance that satisfies it.

  \<^bold>\<open>Theories and what they model.\<close>
  \<^item> \<open>Moa_Prelude\<close>: integers, results, strings, ordered maps, and the lemmas shared by all components.
  \<^item> \<open>Execution_Error\<close>, \<open>Estimates\<close>: \<open>error.rs\<close>, and the resource vectors of \<open>capability.rs\<close> and
    \<open>execution_plan.rs\<close> with their checked arithmetic.
  \<^item> \<open>Budget\<close>, \<open>Ledger_Lifecycle\<close>: the ledger of \<open>budget.rs\<close>, and its use by
    \<open>repository/materialize.rs\<close> as a step relation over the ledger and the unfinished tasks. A grant is
    exact (C1, C6), settling conserves resources (C5), and in all reachable states the reserved vector
    is the sum of the open reservations, limits hold while no overrun is flagged and settling never
    gets stuck (C2, C3, C4).
  \<^item> \<open>Json\<close>, \<open>Labels\<close>, \<open>Artifact_Ref\<close>: canonical JSON, the locale \<open>label_codec\<close> of enums stored as
    text, and artifact references. Canonical bytes decide equality of values (C7) and references
    round-trip (C8).
  \<^item> \<open>Plan_Types\<close>, \<open>State\<close>, \<open>Task_Lifecycle\<close>: \<open>execution_plan.rs\<close> and \<open>state.rs\<close>. Stored labels
    round-trip (C9), framed task identities are unambiguous (C10), outcomes and statuses agree (C11),
    dispatch is bounded and fenced by generations (C12), the retry backoff is monotone and bounded (C13).
  \<^item> \<open>Bindings\<close>: \<open>bindings.rs\<close>. Map keys are injective (C14), bindings and conditions read only declared
    dependencies (C15), static values resolve to themselves (C16).
  \<^item> \<open>Capability\<close>, \<open>Catalog_Laws\<close>: \<open>capability.rs\<close> and \<open>interpreter/catalog.rs\<close>. Hash texts round-trip
    (C17), preimages separate domains (C18), plan hashes ignore node order (C19), catalogs are
    canonical (C20).
  \<^item> \<open>Execution_Config\<close>: \<open>moa-config/src/execution.rs\<close>, and the bounds a validated configuration has (C27).
  \<^item> \<open>Schema\<close>, \<open>Compiler_Types\<close>: \<open>schema.rs\<close> and the requests and reports of \<open>compiler/mod.rs\<close>, with the
    locale \<open>validation_pass\<close> of checks that only append errors to a report.
  \<^item> \<open>Reservation\<close>, \<open>Materialize\<close>, \<open>Paging\<close>, \<open>Node_Pages\<close>: the interpreter. The locale \<open>bounded_pager\<close>
    is the contract of a cursor-driven pager; the map and the reduce pager are its instances, so that
    asking for page after page ends and yields every task exactly once (C21, C22); every page is well
    formed (C23).
  \<^item> \<open>Compensation\<close>: \<open>interpreter/compensation.rs\<close> (C24).
  \<^item> \<open>Temporal\<close>, \<open>Wait_Feasibility\<close>: waits in \<open>interpreter/mod.rs\<close>, \<open>compiler/mod.rs\<close> and
    \<open>compiler/validation/wait_feasibility.rs\<close>. A wait that resolves does so before the deadline (C25),
    the compiler's check agrees with that fence up to rounding (C26), the relaxation of waits computes
    longest chains (C28) and rejects exactly the plans that cannot finish (C29).
  \<^item> \<open>Plan_Estimate\<close>: \<open>compiler/estimate.rs\<close>. The reducer task count is exact (C30), and the estimate
    bounds the reservations of a whole run, over all its pages and verifiers (C31).
  \<^item> \<open>Condition_Scope\<close>: the scope check of conditional nodes in \<open>compiler/mod.rs\<close> (C32).
  \<^item> \<open>Structure_Ids\<close>, \<open>Structure_Values\<close>, \<open>Structure_Graph\<close>, \<open>Plan_Structure\<close>: the structural validation of
    plans, goal contracts, amendments and outcomes in \<open>moa-artifacts/src/validation.rs\<close>,
    \<open>validation/json.rs\<close> and \<open>validation/execution_plan.rs\<close>.
  \<^item> \<open>Plan_Wf\<close>, \<open>Plan_Guarantees\<close>: validation is exact for a declarative well-formedness predicate (C33)
    and aborts only on references without canonical text (C34). A validated plan has values that
    resolve in the interpreter (C35) and compensations that can be built (C36), and the two acyclicity
    checks of the code agree (C37).

  \<^bold>\<open>Loops and bounds.\<close> Loops over data are structural recursion. Only the trimming of white space
  counts its rounds, by the length of the text, which is enough because every round removes a byte
  (lemma \<open>trim_fuel_done\<close>). The rounds of the reducer, the dependency count and the sets of ancestors are total functions with a
  termination measure or a \<open>while\<close> whose termination is proved; the runs of pages in C21 and C22
  and the relaxation of waits in C28 are proved to end.

  \<^bold>\<open>Not modelled.\<close>
  \<^item> The message texts of validation issues: the model keeps severity, code and path.
  \<^item> The validation of agent, action, skill, simulation and experiment documents in
    \<open>moa-artifacts/src/validation.rs\<close>.
  \<^item> The run repository (SQL transactions), the orchestrator (durable asynchronous handlers), and the
    other crates: providers, connectors, edge, memory, sessions, tools. They are input and output
    around services, and the pure transitions they call are modelled with their components.
\<close>

end
